(* ===== verification/Go_Prelude.thy ===== *)
theory Go_Prelude
  imports Complex_Main
begin

text \<open>
  Shared vocabulary of the development: the lemma collections the component
  proofs draw on, Go's machine integers as bounded \<open>int\<close> values with the
  wrap-around written out, the outcome of a Go call that may panic, and generic
  facts about lists, options and maps.
\<close>

section \<open>Lemma collections\<close>

named_theorems go_defs \<open>definitions of operations, unfolded by the component proofs\<close>
named_theorems f64_simps \<open>rewrite rules for binary64 arithmetic\<close>
named_theorems frame_simps \<open>what an operation leaves unchanged\<close>

section \<open>Strings and bytes\<close>

type_synonym bytes = "char list"

section \<open>Machine integers\<close>

text \<open>
  Go's \<open>int\<close> is 64 bits wide on the supported platforms. A value is an \<open>int\<close>
  of HOL; every arithmetic operation of the source that can overflow is followed by
  \<open>wrap64\<close>, the two's complement reduction the language prescribes.
\<close>

definition wrap64 :: "int \<Rightarrow> int" where
  "wrap64 n = (n + 2 ^ 63) mod 2 ^ 64 - 2 ^ 63"

definition is_int64 :: "int \<Rightarrow> bool" where
  "is_int64 n \<longleftrightarrow> - (2 ^ 63) \<le> n \<and> n < 2 ^ 63"

lemma wrap64_range [simp, intro]: "is_int64 (wrap64 n)"
  by (simp add: wrap64_def is_int64_def)

lemma wrap64_id [simp]: "is_int64 n \<Longrightarrow> wrap64 n = n"
  by (simp add: wrap64_def is_int64_def)

lemma wrap64_idem [simp]: "wrap64 (wrap64 n) = wrap64 n"
  by simp

lemma wrap64_add_left [simp]: "wrap64 (wrap64 a + b) = wrap64 (a + b)"
  unfolding wrap64_def by (simp add: mod_simps algebra_simps)

lemma wrap64_add_right [simp]: "wrap64 (a + wrap64 b) = wrap64 (a + b)"
  using wrap64_add_left [of b a] by (simp add: add.commute)

lemma is_int64_nonnegI: "0 \<le> n \<Longrightarrow> n \<le> 9223372036854775807 \<Longrightarrow> is_int64 n"
  by (simp add: is_int64_def)

lemma is_int64_zero [simp]: "is_int64 0"
  by (simp add: is_int64_def)

text \<open>Saturation at the ends of the 64-bit range, as \<open>time.Time.Sub\<close> does.\<close>

definition saturate64 :: "int \<Rightarrow> int" where
  "saturate64 n = max (- (2 ^ 63)) (min (2 ^ 63 - 1) n)"

lemma saturate64_range [simp, intro]: "is_int64 (saturate64 n)"
  by (simp add: saturate64_def is_int64_def)

lemma saturate64_id [simp]: "is_int64 n \<Longrightarrow> saturate64 n = n"
  by (simp add: saturate64_def is_int64_def)

lemma saturate64_nonneg [simp]: "0 \<le> saturate64 n \<longleftrightarrow> 0 \<le> n"
  by (auto simp: saturate64_def)

lemma saturate64_mono: "a \<le> b \<Longrightarrow> saturate64 a \<le> saturate64 b"
  by (auto simp: saturate64_def)

text \<open>Integer division truncates towards zero; the remainder takes the dividend's sign.\<close>

definition quot :: "int \<Rightarrow> int \<Rightarrow> int" where
  "quot a b = sgn a * sgn b * (\<bar>a\<bar> div \<bar>b\<bar>)"

definition rem_int :: "int \<Rightarrow> int \<Rightarrow> int" where
  "rem_int a b = a - b * quot a b"

lemma quot_nonneg: "0 \<le> a \<Longrightarrow> 0 < b \<Longrightarrow> quot a b = a div b"
  by (cases "a = 0") (auto simp: quot_def)

lemma rem_int_nonneg: "0 \<le> a \<Longrightarrow> 0 < b \<Longrightarrow> rem_int a b = a mod b"
  by (simp add: rem_int_def quot_nonneg minus_mult_div_eq_mod)

section \<open>Calls that return or panic\<close>

text \<open>
  An out-of-range index or a nil dereference panics: the call does not return.
  A panic carries the runtime's message, and every effect made before it stays. A panic in
  a goroutine of its own, which no caller can recover, ends the process: a crash.
\<close>

datatype 'a outcome = Return 'a | Panic string | Crash string

text \<open>Go's \<open>(value, error)\<close> pairs as a sum, the error on the left.\<close>

datatype go_error = GoError string

type_synonym 'a go_result = "go_error + 'a"

text \<open>The value of an option, or a default.\<close>

definition value_or :: "'a \<Rightarrow> 'a option \<Rightarrow> 'a" where
  "value_or d x = (case x of None \<Rightarrow> d | Some y \<Rightarrow> y)"

lemma value_or_simps [simp]: "value_or d None = d" "value_or d (Some y) = y"
  by (simp_all add: value_or_def)

section \<open>Maps enumerated in some order\<close>

text \<open>
  Go's \<open>range\<close> over a map visits every key exactly once, in an order the language
  leaves open. An operation that ranges over a map takes the order as an argument.
\<close>

definition enumerates :: "'k list \<Rightarrow> ('k \<rightharpoonup> 'v) \<Rightarrow> bool" where
  "enumerates ks m \<longleftrightarrow> distinct ks \<and> set ks = dom m"

lemma enumerates_iff [simp]: "enumerates ks m \<Longrightarrow> k \<in> set ks \<longleftrightarrow> m k \<noteq> None"
  by (auto simp: enumerates_def)

lemma enumerates_empty [simp]: "enumerates [] m \<longleftrightarrow> m = Map.empty"
  by (auto simp: enumerates_def)

lemma enumerates_distinct [dest]: "enumerates ks m \<Longrightarrow> distinct ks"
  by (simp add: enumerates_def)

end
