(* ===== verification/Float64.thy ===== *)
theory Float64
  imports Go_Prelude "HOL-Library.Log_Nat"
begin

text \<open>
  Go's \<open>float64\<close>: IEEE 754 binary64 with rounding to nearest, ties to even. A
  finite value is the rational number it denotes; infinities and NaN are separate
  constructors. The two zeros are one value, since no operation of the gateway can
  tell them apart. Every operation computes the exact rational result and rounds
  it once, without fusing a product into a sum (what the Go compiler emits for
  amd64).

  The theory proves what the components need of rounding: it is monotone, it keeps
  representable values, it is symmetric, and its relative error is at most
  \<open>2 powi (-53)\<close>.
\<close>

section \<open>Rounding a rational to 53 bits\<close>

definition ilog2 :: "rat \<Rightarrow> int" where
  "ilog2 q = (let (a, b) = quotient_of q; e = bitlen a - bitlen b
              in if 2 powi e \<le> q then e else e - 1)"

definition round_even :: "rat \<Rightarrow> int" where
  "round_even q =
     (let f = \<lfloor>q\<rfloor>; d = q - of_int f
      in if d < 1 / 2 then f
         else if 1 / 2 < d then f + 1
         else if even f then f else f + 1)"

definition ulp_exp :: "rat \<Rightarrow> int" where
  "ulp_exp q = max (ilog2 \<bar>q\<bar> - 52) (- 1074)"

definition rnd :: "rat \<Rightarrow> rat" where
  "rnd q = (if q = 0 then 0
            else of_int (round_even (q / 2 powi (ulp_exp q))) * 2 powi (ulp_exp q))"

subsection \<open>The binary exponent\<close>

lemma ilog2_bounds:
  assumes "0 < q"
  shows "2 powi (ilog2 q) \<le> q" and "q < 2 powi (ilog2 q + 1)"
proof -
  obtain a b where ab: "quotient_of q = (a, b)" by (cases "quotient_of q")
  have b: "0 < b" using quotient_of_denom_pos [OF ab] .
  have q: "q = of_int a / of_int b" using quotient_of_div [OF ab] .
  have a: "0 < a" using assms b q by (simp add: zero_less_divide_iff)
  define la lb where "la = bitlen a" and "lb = bitlen b"
  have L: "0 < la" "0 < lb"
    using a b bitlen_eq_zero_iff bitlen_nonneg unfolding la_def lb_def
    by (metis leD order_le_less)+
  have A: "2 powi (la - 1) \<le> (of_int a :: rat)" "(of_int a :: rat) < 2 powi la"
    and B: "2 powi (lb - 1) \<le> (of_int b :: rat)" "(of_int b :: rat) < 2 powi lb"
    using bitlen_bounds [OF a] bitlen_bounds [OF b] L
    unfolding la_def [symmetric] lb_def [symmetric]
    by (simp_all add: power_int_def)
  have lo: "2 powi (la - lb - 1) \<le> q"
  proof -
    have "2 powi (la - lb - 1) * of_int b \<le> 2 powi (la - lb - 1) * (2 :: rat) powi lb"
      using B(2) by (intro mult_left_mono) auto
    also have "\<dots> = 2 powi (la - 1)" by (simp flip: power_int_add)
    also have "\<dots> \<le> of_int a" by (rule A(1))
    finally show ?thesis using b by (simp add: q pos_le_divide_eq)
  qed
  have hi: "q < 2 powi (la - lb + 1)"
  proof -
    have "of_int a < (2 :: rat) powi la" by (rule A(2))
    also have "\<dots> = 2 powi (la - lb + 1) * 2 powi (lb - 1)" by (simp flip: power_int_add)
    also have "\<dots> \<le> 2 powi (la - lb + 1) * of_int b" using B(1) by (intro mult_left_mono) auto
    finally show ?thesis using b by (simp add: q pos_divide_less_eq)
  qed
  show "2 powi (ilog2 q) \<le> q" "q < 2 powi (ilog2 q + 1)"
    using lo hi by (auto simp: ilog2_def ab la_def lb_def Let_def)
qed

lemma two_powi_pos: "0 < (2 :: rat) powi k"
  by simp

lemma two_powi_less_iff [simp]: "(2 :: rat) powi a < 2 powi b \<longleftrightarrow> a < b"
  using power_int_strict_increasing [of a b "2 :: rat"] power_int_increasing [of b a "2 :: rat"]
  by (meson linorder_not_less one_less_numeral_iff one_le_numeral semiring_norm(76))

lemma two_powi_le_iff [simp]: "(2 :: rat) powi a \<le> 2 powi b \<longleftrightarrow> a \<le> b"
  by (simp flip: linorder_not_less)

lemma ilog2_eqI:
  assumes "2 powi e \<le> q" and "q < 2 powi (e + 1)"
  shows "ilog2 q = e"
proof -
  have "0 < q" using assms(1) by (meson less_le_trans zero_less_numeral zero_less_power_int)
  note b = ilog2_bounds [OF this]
  have "2 powi e < (2 :: rat) powi (ilog2 q + 1)" using assms(1) b(2) by (rule le_less_trans)
  moreover have "(2 :: rat) powi (ilog2 q) < 2 powi (e + 1)" using b(1) assms(2) by (rule le_less_trans)
  ultimately show ?thesis by simp
qed

lemma ilog2_mono:
  assumes "0 < p" and "p \<le> q"
  shows "ilog2 p \<le> ilog2 q"
proof -
  have "2 powi (ilog2 p) < (2 :: rat) powi (ilog2 q + 1)"
    using ilog2_bounds(1) [OF assms(1)] ilog2_bounds(2) [of q] assms by linarith
  then show ?thesis by simp
qed

lemma le_two_powi_exp: "\<bar>q\<bar> \<le> 2 powi (ulp_exp q + 53)"
proof (cases "q = 0")
  case False
  then have "\<bar>q\<bar> < 2 powi (ilog2 \<bar>q\<bar> + 1)" by (intro ilog2_bounds) simp
  also have "(2 :: rat) powi (ilog2 \<bar>q\<bar> + 1) \<le> 2 powi (ulp_exp q + 53)"
    by (simp add: ulp_exp_def)
  finally show ?thesis by simp
qed simp

subsection \<open>Rounding to an integer\<close>

lemma round_even_error: "\<bar>of_int (round_even q) - q\<bar> \<le> 1 / 2"
proof -
  have "of_int \<lfloor>q\<rfloor> \<le> q" "q < of_int \<lfloor>q\<rfloor> + 1" by linarith+
  then show ?thesis unfolding round_even_def Let_def abs_le_iff
    by (simp only: split: if_splits) (intro conjI impI; linarith)
qed

lemma round_even_of_int [simp]: "round_even (of_int n) = n"
  by (simp add: round_even_def)

lemma round_even_mono:
  assumes "p \<le> q" shows "round_even p \<le> round_even q"
proof (cases "\<lfloor>p\<rfloor> = \<lfloor>q\<rfloor>")
  case True
  with assms show ?thesis by (auto simp: round_even_def Let_def)
next
  case False
  with assms have "\<lfloor>p\<rfloor> + 1 \<le> \<lfloor>q\<rfloor>" using floor_mono [OF assms] by linarith
  moreover have "round_even p \<le> \<lfloor>p\<rfloor> + 1" "\<lfloor>q\<rfloor> \<le> round_even q"
    by (auto simp: round_even_def Let_def)
  ultimately show ?thesis by linarith
qed

lemma round_even_minus [simp]: "round_even (- q) = - round_even q"
proof (cases "q = of_int \<lfloor>q\<rfloor>")
  case True
  then show ?thesis
    by (metis of_int_minus round_even_of_int)
next
  case False
  have "\<lfloor>- q\<rfloor> = - \<lfloor>q\<rfloor> - 1"
  proof (rule floor_unique)
    show "of_int (- \<lfloor>q\<rfloor> - 1) \<le> - q" by simp linarith
    have "of_int \<lfloor>q\<rfloor> < q" using False by linarith
    then show "- q < of_int (- \<lfloor>q\<rfloor> - 1) + 1" by simp
  qed
  then show ?thesis
    by (auto simp: round_even_def Let_def)
qed

subsection \<open>Properties of rounding\<close>

lemma rnd_zero [simp]: "rnd 0 = 0"
  by (simp add: rnd_def)

lemma rnd_minus [simp]: "rnd (- q) = - rnd q"
  by (simp add: rnd_def ulp_exp_def)

lemma rnd_ulp_error: "\<bar>rnd q - q\<bar> \<le> 2 powi (ulp_exp q) / 2"
proof (cases "q = 0")
  case False
  let ?u = "(2 :: rat) powi (ulp_exp q)"
  have "rnd q - q = (of_int (round_even (q / ?u)) - q / ?u) * ?u"
    using False by (simp add: rnd_def left_diff_distrib)
  then have "\<bar>rnd q - q\<bar> = \<bar>of_int (round_even (q / ?u)) - q / ?u\<bar> * ?u"
    by (simp add: abs_mult)
  also have "\<dots> \<le> (1 / 2) * ?u"
    by (intro mult_right_mono round_even_error) simp
  finally show ?thesis by simp
qed simp

text \<open>A multiple of the unit in the last place on one side of a value bounds its rounding.\<close>

lemma rnd_le_multiple:
  assumes "q \<le> of_int n * 2 powi (ulp_exp q)"
  shows "rnd q \<le> of_int n * 2 powi (ulp_exp q)"
proof (cases "q = 0")
  case False
  let ?u = "(2 :: rat) powi (ulp_exp q)"
  have "q / ?u \<le> of_int n" using assms by (simp add: divide_le_eq)
  then have "round_even (q / ?u) \<le> n" using round_even_mono by fastforce
  then have "of_int (round_even (q / ?u)) * ?u \<le> of_int n * ?u"
    by (intro mult_right_mono) auto
  with False show ?thesis by (simp add: rnd_def)
qed (use assms in simp)

lemma rnd_ge_multiple:
  assumes "of_int n * 2 powi (ulp_exp q) \<le> q"
  shows "of_int n * 2 powi (ulp_exp q) \<le> rnd q"
proof -
  have e: "ulp_exp (- q) = ulp_exp q" by (simp add: ulp_exp_def)
  have "- q \<le> of_int (- n) * 2 powi (ulp_exp (- q))" using assms by (simp add: e)
  then have "rnd (- q) \<le> of_int (- n) * 2 powi (ulp_exp (- q))" by (rule rnd_le_multiple)
  then show ?thesis by (simp add: e)
qed

lemma rnd_le_pow2:
  assumes "q \<le> 2 powi e" and "ulp_exp q \<le> e"
  shows "rnd q \<le> 2 powi e"
proof -
  have *: "(2 :: rat) powi e = of_int (2 ^ nat (e - ulp_exp q)) * 2 powi (ulp_exp q)"
    using assms(2) by (simp add: power_int_def [of _ "e - ulp_exp q", symmetric] flip: power_int_nonneg_exp power_int_add)
  show ?thesis using assms(1) unfolding * by (rule rnd_le_multiple)
qed

lemma rnd_ge_pow2:
  assumes "2 powi e \<le> q" and "ulp_exp q \<le> e"
  shows "2 powi e \<le> rnd q"
proof -
  have *: "(2 :: rat) powi e = of_int (2 ^ nat (e - ulp_exp q)) * 2 powi (ulp_exp q)"
    using assms(2) by (simp add: power_int_def [of _ "e - ulp_exp q", symmetric] flip: power_int_nonneg_exp power_int_add)
  show ?thesis using assms(1) unfolding * by (rule rnd_ge_multiple)
qed

lemma rnd_nonneg: "0 \<le> q \<Longrightarrow> 0 \<le> rnd q"
  using rnd_ge_multiple [of 0 q] by simp

lemma rnd_mono_pos:
  assumes "0 < p" and "p \<le> q"
  shows "rnd p \<le> rnd q"
proof (cases "ulp_exp p = ulp_exp q")
  case True
  have "round_even (p / 2 powi (ulp_exp p)) \<le> round_even (q / 2 powi (ulp_exp p))"
    by (intro round_even_mono divide_right_mono) (use assms in auto)
  with True assms show ?thesis by (simp add: rnd_def mult_right_mono)
next
  case False
  have lg: "ilog2 p \<le> ilog2 q" using assms by (rule ilog2_mono)
  with False assms have lt: "ilog2 p < ilog2 q" and e: "ulp_exp q = ilog2 q - 52"
    by (auto simp: ulp_exp_def max_def split: if_splits)
  have "rnd p \<le> 2 powi (ilog2 q)"
  proof (rule rnd_le_pow2)
    have "p < 2 powi (ilog2 p + 1)" using assms by (intro ilog2_bounds)
    also have "\<dots> \<le> (2 :: rat) powi (ilog2 q)" using lt by simp
    finally show "p \<le> 2 powi (ilog2 q)" by simp
    show "ulp_exp p \<le> ilog2 q" using assms lt e by (auto simp: ulp_exp_def)
  qed
  also have "\<dots> \<le> rnd q"
    by (rule rnd_ge_pow2) (use assms e ilog2_bounds in auto)
  finally show ?thesis .
qed

lemma rnd_mono: "p \<le> q \<Longrightarrow> rnd p \<le> rnd q"
proof -
  assume le: "p \<le> q"
  consider "0 < p" | "p \<le> 0" "0 \<le> q" | "q < 0" by linarith
  then show ?thesis
  proof cases
    case 1 then show ?thesis using le by (rule rnd_mono_pos)
  next
    case 2
    then show ?thesis using rnd_nonneg [of q] rnd_nonneg [of "- p"] by simp
  next
    case 3
    then show ?thesis using rnd_mono_pos [of "- q" "- p"] le by simp
  qed
qed


subsection \<open>Representable values\<close>

definition representable :: "rat \<Rightarrow> bool" where
  "representable q \<longleftrightarrow> (\<exists>m e. q = of_int m * 2 powi e \<and> \<bar>m\<bar> \<le> 2 ^ 53 \<and> - 1074 \<le> e)"

lemma rnd_multiple:
  assumes "q = of_int n * 2 powi (ulp_exp q)"
  shows "rnd q = q"
  using rnd_le_multiple [of q n] rnd_ge_multiple [of n q] assms by simp

lemma rnd_representable:
  assumes "representable q" shows "rnd q = q"
proof (cases "q = 0")
  case False
  obtain m e where q: "q = of_int m * 2 powi e" and m: "\<bar>m\<bar> \<le> 2 ^ 53" and e: "- 1074 \<le> e"
    using assms by (auto simp: representable_def)
  let ?k = "ulp_exp q"
  show ?thesis
  proof (cases "?k \<le> e")
    case True
    have "q = of_int (m * 2 ^ nat (e - ?k)) * 2 powi ?k"
      using True by (simp add: q mult.assoc flip: power_int_nonneg_exp power_int_add)
    then show ?thesis by (rule rnd_multiple)
  next
    case False
    with e have k: "?k = ilog2 \<bar>q\<bar> - 52" by (auto simp: ulp_exp_def max_def split: if_splits)
    have "2 powi (?k + 52) \<le> \<bar>q\<bar>" using ilog2_bounds(1) [of "\<bar>q\<bar>"] \<open>q \<noteq> 0\<close> k by simp
    also have "\<bar>q\<bar> = of_int \<bar>m\<bar> * 2 powi e" by (simp add: q abs_mult)
    also have "\<dots> \<le> of_int (2 ^ 53) * 2 powi e" by (rule mult_right_mono) (simp_all only: of_int_le_iff m, simp)
    also have "\<dots> = 2 powi (e + 53)" by (simp add: power_int_add)
    finally have "?k = e + 1" using False by simp
    have "(2 :: rat) ^ 53 * 2 powi e \<le> of_int \<bar>m\<bar> * 2 powi e"
      using \<open>2 powi (?k + 52) \<le> \<bar>q\<bar>\<close> \<open>\<bar>q\<bar> = of_int \<bar>m\<bar> * 2 powi e\<close> \<open>?k = e + 1\<close>
      by (simp add: power_int_add)
    then have "of_int (2 ^ 53) \<le> (of_int \<bar>m\<bar> :: rat)" by simp
    then have "(2 :: int) ^ 53 \<le> \<bar>m\<bar>" by (simp only: of_int_le_iff)
    with m have "\<bar>m\<bar> = 2 ^ 53" by simp
    then obtain n where "m = 2 * n" by (auto simp: abs_if split: if_splits intro: that [of "2 ^ 52"] that [of "- (2 ^ 52)"])
    then have "q = of_int n * 2 powi (e + 1)" by (simp add: q power_int_add)
    with \<open>?k = e + 1\<close> have "q = of_int n * 2 powi ?k" by (simp only:)
    then show ?thesis by (rule rnd_multiple)
  qed
qed simp

lemma representable_of_int: "\<bar>n\<bar> \<le> 2 ^ 53 \<Longrightarrow> representable (of_int n)"
  unfolding representable_def by (rule exI [of _ n], rule exI [of _ 0]) simp

lemma representable_two_powi: "- 1074 \<le> e \<Longrightarrow> representable (2 powi e)"
  unfolding representable_def by (rule exI [of _ 1], rule exI [of _ e]) simp

lemma rnd_of_int: "\<bar>n\<bar> \<le> 2 ^ 53 \<Longrightarrow> rnd (of_int n) = of_int n"
  by (rule rnd_representable [OF representable_of_int])

lemma rnd_one [simp]: "rnd 1 = 1"
  using rnd_of_int [of 1] by simp

lemma rnd_numeral: "numeral k \<le> (2 :: int) ^ 53 \<Longrightarrow> rnd (numeral k) = numeral k"
  using rnd_of_int [of "numeral k"] by simp

lemma rnd_two_powi: "- 1074 \<le> e \<Longrightarrow> rnd (2 powi e) = 2 powi e"
  by (rule rnd_representable [OF representable_two_powi])

text \<open>A rounded value is representable, so rounding again changes nothing.\<close>

lemma representable_rnd: "representable (rnd q)"
proof (cases "q = 0")
  case True
  then show ?thesis using representable_of_int [of 0] by simp
next
  case False
  let ?u = "(2 :: rat) powi (ulp_exp q)"
  have "\<bar>q / ?u\<bar> \<le> of_int (2 ^ 53)"
    using le_two_powi_exp [of q] by (simp add: pos_divide_le_eq power_int_add mult.commute)
  then have "q / ?u \<le> of_int (2 ^ 53)" "of_int (- (2 ^ 53)) \<le> q / ?u"
    by (simp_all only: abs_le_iff of_int_minus) linarith
  then have "round_even (q / ?u) \<le> 2 ^ 53" "- (2 ^ 53) \<le> round_even (q / ?u)"
    using round_even_mono by (metis round_even_of_int)+
  then have "\<bar>round_even (q / ?u)\<bar> \<le> 2 ^ 53" by (simp add: abs_le_iff)
  moreover have "- 1074 \<le> ulp_exp q" by (simp add: ulp_exp_def)
  ultimately show ?thesis using False unfolding representable_def rnd_def by auto
qed

lemma rnd_idem [simp]: "rnd (rnd q) = rnd q"
  by (rule rnd_representable [OF representable_rnd])

text \<open>The error of a rounding: relative for normal values, absolute near zero.\<close>

definition unit_roundoff :: rat where "unit_roundoff = 2 powi (- 53)"

definition underflow_unit :: rat where "underflow_unit = 2 powi (- 1075)"

lemma unit_roundoff_pos [simp]: "0 < unit_roundoff" and underflow_unit_pos [simp]: "0 < underflow_unit"
  unfolding unit_roundoff_def underflow_unit_def by (rule two_powi_pos)+

lemma unit_roundoff_nonneg [simp]: "0 \<le> unit_roundoff"
  by (simp add: less_imp_le)

lemma rnd_error: "\<bar>rnd q - q\<bar> \<le> \<bar>q\<bar> * unit_roundoff + underflow_unit"
proof (cases "q = 0")
  case False
  have err: "\<bar>rnd q - q\<bar> \<le> 2 powi (ulp_exp q - 1)"
    using rnd_ulp_error [of q] by (simp add: power_int_diff)
  have pow: "2 powi (ilog2 \<bar>q\<bar>) \<le> \<bar>q\<bar>" using False by (intro ilog2_bounds) simp
  show ?thesis
  proof (cases "- 1074 \<le> ilog2 \<bar>q\<bar> - 52")
    case True
    then have "2 powi (ulp_exp q - 1) = (2 :: rat) powi (ilog2 \<bar>q\<bar>) * unit_roundoff"
      by (simp add: ulp_exp_def unit_roundoff_def power_int_diff)
    also have "\<dots> \<le> \<bar>q\<bar> * unit_roundoff" using pow by (intro mult_right_mono) (auto simp: less_imp_le)
    finally show ?thesis using err underflow_unit_pos by linarith
  next
    case False
    then have "ulp_exp q - 1 = - 1075" by (simp add: ulp_exp_def)
    then have "\<bar>rnd q - q\<bar> \<le> underflow_unit" using err by (simp only: underflow_unit_def)
    moreover have "0 \<le> \<bar>q\<bar> * unit_roundoff" by (simp add: less_imp_le)
    ultimately show ?thesis by linarith
  qed
qed (simp add: less_imp_le)


section \<open>The type float64 and its operations\<close>

datatype float64 = Fin rat | PInf | NInf | NaN

text \<open>A rounded value whose exponent passes 1023 overflows to the infinity of its sign.\<close>

definition overflows :: "rat \<Rightarrow> bool" where
  "overflows r \<longleftrightarrow> 1024 \<le> ilog2 \<bar>r\<bar>"

definition f64 :: "rat \<Rightarrow> float64" where
  "f64 q = (let r = rnd q in if overflows r then (if 0 < r then PInf else NInf) else Fin r)"

instantiation float64 :: "{zero, one, plus, uminus, minus, times, inverse, ord}"
begin

definition zero_float64 :: float64 where "0 = Fin 0"

definition one_float64 :: float64 where "1 = Fin 1"

fun plus_float64 :: "float64 \<Rightarrow> float64 \<Rightarrow> float64" where
  "plus_float64 (Fin a) (Fin b) = f64 (a + b)"
| "plus_float64 NaN _ = NaN"
| "plus_float64 _ NaN = NaN"
| "plus_float64 PInf NInf = NaN"
| "plus_float64 NInf PInf = NaN"
| "plus_float64 PInf _ = PInf"
| "plus_float64 _ PInf = PInf"
| "plus_float64 NInf _ = NInf"
| "plus_float64 _ NInf = NInf"

fun uminus_float64 :: "float64 \<Rightarrow> float64" where
  "uminus_float64 (Fin a) = Fin (- a)"
| "uminus_float64 PInf = NInf"
| "uminus_float64 NInf = PInf"
| "uminus_float64 NaN = NaN"

definition minus_float64 :: "float64 \<Rightarrow> float64 \<Rightarrow> float64" where
  "minus_float64 x y = x + (- y)"

definition inf_of_sign :: "rat \<Rightarrow> float64" where
  "inf_of_sign s = (if s = 0 then NaN else if 0 < s then PInf else NInf)"

fun times_float64 :: "float64 \<Rightarrow> float64 \<Rightarrow> float64" where
  "times_float64 (Fin a) (Fin b) = f64 (a * b)"
| "times_float64 NaN _ = NaN"
| "times_float64 _ NaN = NaN"
| "times_float64 PInf (Fin b) = inf_of_sign b"
| "times_float64 (Fin a) PInf = inf_of_sign a"
| "times_float64 NInf (Fin b) = inf_of_sign (- b)"
| "times_float64 (Fin a) NInf = inf_of_sign (- a)"
| "times_float64 PInf PInf = PInf"
| "times_float64 NInf NInf = PInf"
| "times_float64 PInf NInf = NInf"
| "times_float64 NInf PInf = NInf"

text \<open>
  The gateway divides by the constants 10, 60, 1000 and 1e9 only. A zero divisor is
  taken as \<open>+0\<close>, as the conversion of the integer 0 gives.
\<close>

fun divide_float64 :: "float64 \<Rightarrow> float64 \<Rightarrow> float64" where
  "divide_float64 (Fin a) (Fin b) = (if b = 0 then inf_of_sign a else f64 (a / b))"
| "divide_float64 NaN _ = NaN"
| "divide_float64 _ NaN = NaN"
| "divide_float64 PInf (Fin b) = (if 0 \<le> b then PInf else NInf)"
| "divide_float64 NInf (Fin b) = (if 0 \<le> b then NInf else PInf)"
| "divide_float64 (Fin a) _ = Fin 0"
| "divide_float64 _ _ = NaN"

definition inverse_float64 :: "float64 \<Rightarrow> float64" where
  "inverse_float64 x = divide (Fin 1) x"

fun less_float64 :: "float64 \<Rightarrow> float64 \<Rightarrow> bool" where
  "less_float64 (Fin a) (Fin b) = (a < b)"
| "less_float64 NaN _ = False"
| "less_float64 _ NaN = False"
| "less_float64 NInf y = (y \<noteq> NInf)"
| "less_float64 _ NInf = False"
| "less_float64 (Fin _) PInf = True"
| "less_float64 PInf _ = False"

definition less_eq_float64 :: "float64 \<Rightarrow> float64 \<Rightarrow> bool" where
  "less_eq_float64 x y \<longleftrightarrow> x \<noteq> NaN \<and> (x < y \<or> x = y)"

instance ..

end

text \<open>Conversion from an integer rounds to nearest; conversion to one truncates. Out of the
  64-bit range the language leaves the result open; the model takes the value amd64 gives.\<close>

definition float64_of_int :: "int \<Rightarrow> float64" where
  "float64_of_int n = f64 (of_int n)"

definition trunc_rat :: "rat \<Rightarrow> int" where
  "trunc_rat q = (if 0 \<le> q then \<lfloor>q\<rfloor> else \<lceil>q\<rceil>)"

definition int_of_float64 :: "float64 \<Rightarrow> int" where
  "int_of_float64 x =
     (case x of Fin q \<Rightarrow> if is_int64 (trunc_rat q) then trunc_rat q else - (2 ^ 63)
              | _ \<Rightarrow> - (2 ^ 63))"

text \<open>\<open>math.MaxFloat64\<close>.\<close>

definition max_float64 :: float64 where
  "max_float64 = Fin ((2 ^ 53 - 1) * 2 powi 971)"


section \<open>Facts for the components\<close>

lemma overflows_iff: "overflows r \<longleftrightarrow> 2 powi 1024 \<le> \<bar>r\<bar>"
proof (cases "r = 0")
  case True
  then show ?thesis by (simp add: overflows_def ilog2_def Let_def bitlen_alt_def)
next
  case False
  then have b: "2 powi (ilog2 \<bar>r\<bar>) \<le> \<bar>r\<bar>" "\<bar>r\<bar> < 2 powi (ilog2 \<bar>r\<bar> + 1)"
    by (intro ilog2_bounds; simp)+
  show ?thesis
  proof
    assume "overflows r"
    then have "(2 :: rat) powi 1024 \<le> 2 powi (ilog2 \<bar>r\<bar>)" by (simp only: overflows_def two_powi_le_iff)
    with b show "2 powi 1024 \<le> \<bar>r\<bar>" by linarith
  next
    assume "2 powi 1024 \<le> \<bar>r\<bar>"
    with b have "(2 :: rat) powi 1024 < 2 powi (ilog2 \<bar>r\<bar> + 1)" by linarith
    then show "overflows r" unfolding two_powi_less_iff overflows_def by linarith
  qed
qed

text \<open>Every intermediate value of the gateway that has a bound stays far below this one.\<close>

lemma f64_Fin [f64_simps]:
  assumes "\<bar>q\<bar> \<le> 10 ^ 30" shows "f64 q = Fin (rnd q)"
proof -
  have R: "rnd (2 powi 100) = (2 :: rat) powi 100" by (rule rnd_two_powi) simp
  have "(10 :: rat) ^ 30 \<le> 2 powi 100" by simp
  with assms have "\<bar>q\<bar> \<le> 2 powi 100" by (rule order_trans)
  then have "rnd q \<le> rnd (2 powi 100)" "rnd (- q) \<le> rnd (2 powi 100)"
    by (simp_all only: abs_le_iff rnd_mono)
  then have "rnd q \<le> 2 powi 100" "- rnd q \<le> 2 powi 100" by (simp_all only: R rnd_minus)
  then have "\<bar>rnd q\<bar> \<le> 2 powi 100" by (simp only: abs_le_iff)
  moreover have "(2 :: rat) powi 100 < 2 powi 1024" by (subst two_powi_less_iff, simp)
  ultimately have "\<not> overflows (rnd q)" unfolding overflows_iff by linarith
  then show ?thesis by (simp add: f64_def Let_def)
qed

lemma less_eq_float64_Fin [simp]: "Fin a \<le> Fin b \<longleftrightarrow> a \<le> b"
  by (auto simp: less_eq_float64_def)

lemma minus_float64_Fin [simp]: "Fin a - Fin b = f64 (a - b)"
  by (simp add: minus_float64_def)

lemma divide_float64_Fin [simp]: "Fin a / Fin b = (if b = 0 then inf_of_sign a else f64 (a / b))"
  by simp

lemma float64_le_refl [simp]: "x \<le> x \<longleftrightarrow> x \<noteq> NaN" for x :: float64
  by (simp add: less_eq_float64_def)

text \<open>The rounding error of a value of magnitude at most \<open>B\<close>, as one number.\<close>

definition rnd_slack :: "rat \<Rightarrow> rat" where
  "rnd_slack B = B * unit_roundoff + underflow_unit"

lemma rnd_within:
  assumes "\<bar>q\<bar> \<le> B" shows "\<bar>rnd q - q\<bar> \<le> rnd_slack B"
proof -
  have "\<bar>q\<bar> * unit_roundoff \<le> B * unit_roundoff"
    using assms by (intro mult_right_mono) (auto simp: less_imp_le)
  then show ?thesis using rnd_error [of q] unfolding rnd_slack_def by linarith
qed

lemma underflow_unit_le: "underflow_unit \<le> unit_roundoff"
  unfolding underflow_unit_def unit_roundoff_def by (subst two_powi_le_iff) simp

lemma rnd_slack_le:
  assumes "B + 1 \<le> C" shows "rnd_slack B \<le> C * unit_roundoff"
proof -
  have "rnd_slack B \<le> (B + 1) * unit_roundoff"
    using underflow_unit_le by (simp add: rnd_slack_def distrib_right)
  also have "\<dots> \<le> C * unit_roundoff"
    using assms by (intro mult_right_mono) (auto simp: less_imp_le)
  finally show ?thesis .
qed

lemma rnd_within_scaled:
  assumes "\<bar>q\<bar> \<le> B" and "B + 1 \<le> C" shows "\<bar>rnd q - q\<bar> \<le> C * unit_roundoff"
  using rnd_within [OF assms(1)] rnd_slack_le [OF assms(2)] by (rule order_trans)

end
