(* ===== verification/Go_Time.thy ===== *)
theory Go_Time
  imports Float64
begin

text \<open>
  The part of package \<open>time\<close> the gateway uses. An instant is its monotonic clock
  reading in nanoseconds; a \<open>Duration\<close> is a 64-bit count of nanoseconds.
\<close>

type_synonym instant = int
type_synonym duration = int

definition Millisecond :: duration where "Millisecond = 1000000"
definition Second :: duration where "Second = 1000000000"
definition Minute :: duration where "Minute = 60 * Second"
definition Hour :: duration where "Hour = 60 * Minute"

text \<open>\<open>Time.Sub\<close> saturates at the ends of the range of a duration.\<close>

definition time_Sub :: "instant \<Rightarrow> instant \<Rightarrow> duration" where
  "time_Sub t u = saturate64 (t - u)"

definition Milliseconds :: "duration \<Rightarrow> int" where
  "Milliseconds d = quot d 1000000"

text \<open>\<open>Duration.Seconds\<close> converts whole seconds and the remaining nanoseconds apart.\<close>

definition Seconds :: "duration \<Rightarrow> float64" where
  "Seconds d = float64_of_int (quot d Second)
               + float64_of_int (rem_int d Second) / float64_of_int Second"

lemmas duration_defs = Millisecond_def Second_def Minute_def Hour_def

lemma time_Sub_int64 [simp]: "is_int64 (time_Sub t u)"
  by (simp add: time_Sub_def)

lemma time_Sub_nonneg: "u \<le> t \<Longrightarrow> 0 \<le> time_Sub t u"
  by (simp add: time_Sub_def)

lemma Milliseconds_nonneg: "0 \<le> d \<Longrightarrow> 0 \<le> Milliseconds d"
  by (simp add: Milliseconds_def quot_nonneg)

lemma Milliseconds_bound:
  assumes "0 \<le> d" and "is_int64 d" shows "Milliseconds d < 2 ^ 44"
  using assms by (simp add: Milliseconds_def quot_nonneg is_int64_def)

text \<open>A non-negative duration reads as finitely many seconds, within its range.\<close>

definition seconds_rat :: "duration \<Rightarrow> rat" where
  "seconds_rat d = rnd (of_int (d div Second) + rnd (of_int (d mod Second) / of_int Second))"

lemma Seconds_nonneg:
  assumes "0 \<le> d" and "is_int64 d"
  shows "Seconds d = Fin (seconds_rat d)" and "0 \<le> seconds_rat d" and "seconds_rat d \<le> 10 ^ 10"
proof -
  let ?s = "d div Second" and ?n = "d mod Second"
  have s: "0 \<le> ?s" "?s \<le> 9223372036" and n: "0 \<le> ?n" "?n < Second"
    using assms by (simp_all add: Second_def is_int64_def)
  have pos: "0 < Second" by (simp add: Second_def)
  have S: "float64_of_int Second = Fin (of_int Second)"
    by (simp add: float64_of_int_def Second_def f64_simps rnd_numeral)
  have fs: "float64_of_int ?s = Fin (of_int ?s)" and fn: "float64_of_int ?n = Fin (of_int ?n)"
    using s n by (simp_all add: float64_of_int_def f64_simps rnd_of_int Second_def)
  let ?f = "of_int ?n / of_int Second :: rat"
  have q: "0 \<le> ?f" "?f \<le> 1" using n by (simp_all add: Second_def)
  have r: "0 \<le> rnd ?f" "rnd ?f \<le> 1" using rnd_mono [OF q(1)] rnd_mono [OF q(2)] by simp_all
  have sum: "0 \<le> of_int ?s + rnd ?f" "of_int ?s + rnd ?f \<le> 10 ^ 10"
  proof -
    have "(0 :: rat) \<le> of_int ?s" "of_int ?s \<le> (9223372036 :: rat)" using s by simp_all
    then show "0 \<le> of_int ?s + rnd ?f" "of_int ?s + rnd ?f \<le> 10 ^ 10" using r by simp_all
  qed
  have "f64 ?f = Fin (rnd ?f)" using q by (simp add: f64_simps)
  moreover have "f64 (of_int ?s + rnd ?f) = Fin (rnd (of_int ?s + rnd ?f))" using sum by (simp add: f64_simps)
  ultimately show "Seconds d = Fin (seconds_rat d)"
    using pos by (simp add: Seconds_def quot_nonneg [OF assms(1)] rem_int_nonneg [OF assms(1)] fs fn S seconds_rat_def)
  show "0 \<le> seconds_rat d" unfolding seconds_rat_def by (rule rnd_nonneg [OF sum(1)])
  have "rnd (10 ^ 10) = 10 ^ 10" using rnd_of_int [of "10 ^ 10"] by simp
  then show "seconds_rat d \<le> 10 ^ 10" unfolding seconds_rat_def using rnd_mono [OF sum(2)] by simp
qed

end
