(* ===== verification/Health_Interface.thy ===== *)
theory Health_Interface
  imports Go_Time
begin

text \<open>
  The \<open>HealthMonitor\<close> interface of \<open>internal/router/router.go\<close>: the three states, the
  calls a client can make, and the laws a client of the monitor relies on. The lemmas of
  the locale are what the selector and the gateway handler use.
\<close>

datatype ProviderState = StateHealthy | StateDegraded | StateUnhealthy

text \<open>The order of severity, which makes ``no better than'' a comparison.\<close>

instantiation ProviderState :: linorder
begin

fun severity :: "ProviderState \<Rightarrow> nat" where
  "severity StateHealthy = 0"
| "severity StateDegraded = 1"
| "severity StateUnhealthy = 2"

definition less_eq_ProviderState :: "ProviderState \<Rightarrow> ProviderState \<Rightarrow> bool" where
  "s \<le> t \<longleftrightarrow> severity s \<le> severity t"

definition less_ProviderState :: "ProviderState \<Rightarrow> ProviderState \<Rightarrow> bool" where
  "s < t \<longleftrightarrow> severity s < severity t"

instance
proof
  fix s t :: ProviderState
  assume "s \<le> t" "t \<le> s"
  then show "s = t"
    by (cases s; cases t) (auto simp: less_eq_ProviderState_def)
qed (auto simp: less_eq_ProviderState_def less_ProviderState_def)

end

lemma StateUnhealthy_top [simp]: "StateUnhealthy \<le> s \<longleftrightarrow> s = StateUnhealthy"
  by (cases s) (auto simp: less_eq_ProviderState_def)

lemma le_StateUnhealthy [simp]: "s \<le> StateUnhealthy"
  by (cases s) (auto simp: less_eq_ProviderState_def)

text \<open>The calls of the interface, each at a clock reading.\<close>

datatype monitor_call =
    CallSuccess string duration instant
  | CallError string int instant
  | CallForceFailure string instant
  | CallGetState string instant

fun call_provider :: "monitor_call \<Rightarrow> string" where
  "call_provider (CallSuccess p _ _) = p"
| "call_provider (CallError p _ _) = p"
| "call_provider (CallForceFailure p _) = p"
| "call_provider (CallGetState p _) = p"

text \<open>A latency is the difference of two readings of the monotonic clock.\<close>

fun call_ok :: "monitor_call \<Rightarrow> bool" where
  "call_ok (CallSuccess _ d _) = (0 \<le> d \<and> is_int64 d)"
| "call_ok _ = True"

fun is_success_for :: "string \<Rightarrow> monitor_call \<Rightarrow> bool" where
  "is_success_for p (CallSuccess q _ _) = (p = q)"
| "is_success_for p _ = False"

locale health_monitor =
  fixes inv :: "'m \<Rightarrow> bool"
    and perform :: "monitor_call \<Rightarrow> 'm \<Rightarrow> 'm"
    and state_of :: "'m \<Rightarrow> string \<Rightarrow> ProviderState"
  assumes inv_perform: "inv m \<Longrightarrow> call_ok c \<Longrightarrow> inv (perform c m)"
    and state_other: "inv m \<Longrightarrow> call_ok c \<Longrightarrow> q \<noteq> call_provider c \<Longrightarrow>
      state_of (perform c m) q = state_of m q"
    and state_query: "inv m \<Longrightarrow> state_of (perform (CallGetState p t) m) p = state_of m p"
    and state_error: "inv m \<Longrightarrow> state_of m p \<le> state_of (perform (CallError p s t) m) p"
    and state_failure: "inv m \<Longrightarrow> state_of (perform (CallForceFailure p t) m) p = StateUnhealthy"
begin

text \<open>Only a recorded success can lower the severity of a provider.\<close>

lemma state_mono:
  assumes "inv m" "call_ok c" "\<not> is_success_for p c"
  shows "state_of m p \<le> state_of (perform c m) p"
proof (cases "p = call_provider c")
  case True
  with assms show ?thesis
    by (cases c) (auto simp: state_query state_error state_failure)
next
  case False
  then show ?thesis using assms by (simp add: state_other)
qed

lemma inv_fold:
  "inv m \<Longrightarrow> list_all call_ok cs \<Longrightarrow> inv (fold perform cs m)"
  by (induction cs arbitrary: m) (auto simp: inv_perform)

lemma state_mono_fold:
  assumes "inv m" "list_all call_ok cs" "list_all (\<lambda>c. \<not> is_success_for p c) cs"
  shows "state_of m p \<le> state_of (fold perform cs m) p"
  using assms
proof (induction cs arbitrary: m)
  case (Cons c cs)
  then have "state_of m p \<le> state_of (perform c m) p"
    by (intro state_mono) auto
  also have "\<dots> \<le> state_of (fold perform cs (perform c m)) p"
    using Cons by (intro Cons.IH) (auto intro: inv_perform)
  finally show ?case by simp
qed simp

text \<open>A provider that is out of service stays out until a success is recorded for it.\<close>

lemma unhealthy_sticky:
  assumes "inv m" "list_all call_ok cs" "list_all (\<lambda>c. \<not> is_success_for p c) cs"
    and "state_of m p = StateUnhealthy"
  shows "state_of (fold perform cs m) p = StateUnhealthy"
  using state_mono_fold [OF assms(1-3)] assms(4) by simp

end

end
