(* ===== verification/Health_Monitor.thy ===== *)
theory Health_Monitor
  imports Health_Interface
begin

text \<open>
  \<open>internal/router/router.go\<close>: the passive health monitor. For each provider it keeps
  an exponentially weighted moving average of the latency and of the error rate in
  binary64, creates the entry on first use, and derives the provider's state from fixed
  thresholds.
\<close>

section \<open>Data\<close>

record providerMetrics =
  latencyEWMA :: float64
  errorRate :: float64
  lastUpdate :: instant
  alpha :: float64

record EWMAMonitor =
  metrics :: "string \<rightharpoonup> providerMetrics"

section \<open>Operations\<close>

definition NewEWMAMonitor :: EWMAMonitor where
  "NewEWMAMonitor = \<lparr>metrics = Map.empty\<rparr>"

definition new_metrics :: "instant \<Rightarrow> providerMetrics" where
  "new_metrics now = \<lparr>latencyEWMA = 0, errorRate = 0, lastUpdate = now, alpha = f64 (1 / 10)\<rparr>"

definition getMetrics :: "EWMAMonitor \<Rightarrow> string \<Rightarrow> instant \<Rightarrow> providerMetrics \<times> EWMAMonitor" where
  "getMetrics m provider now =
     (case metrics m provider of
        Some pm \<Rightarrow> (pm, m)
      | None \<Rightarrow> let pm = new_metrics now
                in (pm, m\<lparr>metrics := (metrics m)(provider \<mapsto> pm)\<rparr>))"

text \<open>The three critical sections under the entry's own lock.\<close>

definition success_section :: "duration \<Rightarrow> providerMetrics \<Rightarrow> providerMetrics" where
  "success_section latency pm =
     (let ms = float64_of_int (Milliseconds latency);
          pm' = (if latencyEWMA pm = 0 then pm\<lparr>latencyEWMA := ms\<rparr>
                 else pm\<lparr>latencyEWMA := (alpha pm * ms) + ((1 - alpha pm) * latencyEWMA pm)\<rparr>)
      in pm'\<lparr>errorRate := (1 - alpha pm') * errorRate pm'\<rparr>)"

definition error_section :: "providerMetrics \<Rightarrow> providerMetrics" where
  "error_section pm = pm\<lparr>errorRate := (alpha pm * 1) + ((1 - alpha pm) * errorRate pm)\<rparr>"

definition failure_section :: "providerMetrics \<Rightarrow> providerMetrics" where
  "failure_section pm = pm\<lparr>errorRate := 1\<rparr>"

definition with_metrics ::
  "(providerMetrics \<Rightarrow> providerMetrics) \<Rightarrow> EWMAMonitor \<Rightarrow> string \<Rightarrow> instant \<Rightarrow> EWMAMonitor" where
  "with_metrics section m provider now =
     (let (pm, m') = getMetrics m provider now
      in m'\<lparr>metrics := (metrics m')(provider \<mapsto> section pm)\<rparr>)"

definition RecordSuccess :: "EWMAMonitor \<Rightarrow> string \<Rightarrow> duration \<Rightarrow> instant \<Rightarrow> EWMAMonitor" where
  "RecordSuccess m provider latency now = with_metrics (success_section latency) m provider now"

text \<open>The status code is not read.\<close>

definition RecordError :: "EWMAMonitor \<Rightarrow> string \<Rightarrow> int \<Rightarrow> instant \<Rightarrow> EWMAMonitor" where
  "RecordError m provider statusCode now = with_metrics error_section m provider now"

definition ForceFailure :: "EWMAMonitor \<Rightarrow> string \<Rightarrow> instant \<Rightarrow> EWMAMonitor" where
  "ForceFailure m provider now = with_metrics failure_section m provider now"

definition state_of_metrics :: "providerMetrics \<Rightarrow> ProviderState" where
  "state_of_metrics pm =
     (if f64 (1 / 2) < errorRate pm then StateUnhealthy
      else if f64 (1 / 5) < errorRate pm \<or> float64_of_int 5000 < latencyEWMA pm then StateDegraded
      else StateHealthy)"

definition GetState :: "EWMAMonitor \<Rightarrow> string \<Rightarrow> instant \<Rightarrow> ProviderState \<times> EWMAMonitor" where
  "GetState m provider now =
     (let (pm, m') = getMetrics m provider now in (state_of_metrics pm, m'))"

section \<open>The smoothing constants in binary64\<close>

definition alpha64 :: rat where "alpha64 = rnd (1 / 10)"

definition beta64 :: rat where "beta64 = rnd (1 - alpha64)"

lemma alpha64_val: "alpha64 = 3602879701896397 / 36028797018963968"
  by code_simp

lemma beta64_val: "beta64 = 8106479329266893 / 9007199254740992"
  by code_simp

lemma alpha_beta_bounds: "0 < alpha64" "alpha64 < 1" "0 < beta64" "beta64 < 1"
  by (simp_all add: alpha64_val beta64_val)

lemma alpha_float [f64_simps]: "f64 (1 / 10) = Fin alpha64"
  by (simp add: f64_Fin alpha64_def)

lemma one_minus_alpha_float [f64_simps]: "1 - Fin alpha64 = Fin beta64"
  using alpha_beta_bounds by (simp add: one_float64_def f64_Fin beta64_def)

text \<open>The two error-rate updates on finite values.\<close>

definition err_up :: "rat \<Rightarrow> rat" where
  "err_up e = rnd (rnd (alpha64 * 1) + rnd (beta64 * e))"

definition err_down :: "rat \<Rightarrow> rat" where
  "err_down e = rnd (beta64 * e)"

lemma err_up_mono: "d \<le> e \<Longrightarrow> err_up d \<le> err_up e"
  unfolding err_up_def by (intro rnd_mono add_left_mono mult_left_mono) (use alpha_beta_bounds in auto)

lemma err_down_mono: "d \<le> e \<Longrightarrow> err_down d \<le> err_down e"
  unfolding err_down_def by (intro rnd_mono mult_left_mono) (use alpha_beta_bounds in auto)

lemma err_fixed_points: "err_up 1 \<le> 1" "0 \<le> err_up 0" "err_down 0 = 0" "err_down 1 \<le> 1"
  by code_simp+

lemma err_up_range: "0 \<le> e \<Longrightarrow> e \<le> 1 \<Longrightarrow> 0 \<le> err_up e \<and> err_up e \<le> 1"
  using err_up_mono [of 0 e] err_up_mono [of e 1] err_fixed_points by auto

lemma err_down_range: "0 \<le> e \<Longrightarrow> e \<le> 1 \<Longrightarrow> 0 \<le> err_down e \<and> err_down e \<le> 1"
  using err_down_mono [of 0 e] err_down_mono [of e 1] err_fixed_points by auto

lemma err_up_float:
  assumes "0 \<le> e" "e \<le> 1"
  shows "(Fin alpha64 * 1) + (Fin beta64 * Fin e) = Fin (err_up e)"
proof -
  have b: "0 \<le> beta64 * e" "beta64 * e \<le> 1" using assms alpha_beta_bounds by (auto intro: mult_le_one)
  have r: "0 \<le> rnd (beta64 * e)" "rnd (beta64 * e) \<le> 1" using rnd_mono [OF b(1)] rnd_mono [OF b(2)] by auto
  have a: "0 \<le> rnd alpha64" "rnd alpha64 \<le> 1" using alpha_beta_bounds rnd_mono [of 0 alpha64] rnd_mono [of alpha64 1] by auto
  show ?thesis using b r a alpha_beta_bounds by (simp add: one_float64_def f64_Fin err_up_def)
qed

lemma err_down_float:
  assumes "0 \<le> e" "e \<le> 1"
  shows "Fin beta64 * Fin e = Fin (err_down e)"
proof -
  have b: "0 \<le> beta64 * e" "beta64 * e \<le> 1" using assms alpha_beta_bounds by (auto intro: mult_le_one)
  then show ?thesis by (simp add: f64_Fin err_down_def)
qed

section \<open>Rounding never moves the error rate by much\<close>

definition ewma_slack :: rat where "ewma_slack = 1 / 1000000000000"

lemma err_up_approx:
  assumes "0 \<le> e" "e \<le> 1"
  shows "\<bar>err_up e - (1 / 10 + 9 / 10 * e)\<bar> \<le> ewma_slack"
proof -
  have p: "0 \<le> beta64 * e" "beta64 * e \<le> 1" using assms alpha_beta_bounds by (auto intro: mult_le_one)
  then have "\<bar>rnd (beta64 * e) - beta64 * e\<bar> \<le> 2 * unit_roundoff" by (intro rnd_within_scaled) auto
  moreover have "0 \<le> rnd (beta64 * e)" "rnd (beta64 * e) \<le> 1"
    using rnd_mono [OF p(1)] rnd_mono [OF p(2)] by auto
  then have "\<bar>err_up e - (alpha64 + rnd (beta64 * e))\<bar> \<le> 3 * unit_roundoff"
    unfolding err_up_def alpha64_def mult_1_right rnd_idem
    by (intro rnd_within_scaled [of _ 2])
       (use alpha_beta_bounds in \<open>auto simp: alpha64_def [symmetric]\<close>)
  moreover have "\<bar>beta64 * e - 9 / 10 * e\<bar> \<le> 1 / 1000000000000000"
    using assms by (simp add: beta64_val abs_if)
  moreover have "\<bar>alpha64 - 1 / 10\<bar> \<le> 1 / 1000000000000000" "unit_roundoff \<le> 1 / 100000000000000"
    by (simp_all add: alpha64_val unit_roundoff_def)
  ultimately show ?thesis unfolding ewma_slack_def abs_le_iff by linarith
qed

lemma err_down_approx:
  assumes "0 \<le> e" "e \<le> 1"
  shows "\<bar>err_down e - 9 / 10 * e\<bar> \<le> ewma_slack"
proof -
  have p: "0 \<le> beta64 * e" "beta64 * e \<le> 1" using assms alpha_beta_bounds by (auto intro: mult_le_one)
  then have "\<bar>err_down e - beta64 * e\<bar> \<le> 2 * unit_roundoff"
    unfolding err_down_def by (intro rnd_within_scaled) auto
  moreover have "\<bar>beta64 * e - 9 / 10 * e\<bar> \<le> 1 / 1000000000000000"
    using assms by (simp add: beta64_val abs_if)
  moreover have "unit_roundoff \<le> 1 / 100000000000000" by (simp add: unit_roundoff_def)
  ultimately show ?thesis unfolding ewma_slack_def abs_le_iff by linarith
qed

lemma err_up_pow_range: "0 \<le> e \<Longrightarrow> e \<le> 1 \<Longrightarrow> 0 \<le> (err_up ^^ k) e \<and> (err_up ^^ k) e \<le> 1"
  by (induction k) (auto simp: err_up_range)

lemma err_down_pow_range: "0 \<le> e \<Longrightarrow> e \<le> 1 \<Longrightarrow> 0 \<le> (err_down ^^ k) e \<and> (err_down ^^ k) e \<le> 1"
  by (induction k) (auto simp: err_down_range)

text \<open>After \<open>k\<close> updates the rate is that of the exact recurrence, up to ten slacks.\<close>

lemma err_up_pow_approx:
  assumes "0 \<le> e" "e \<le> 1"
  shows "\<bar>(err_up ^^ k) e - (1 - (9 / 10) ^ k * (1 - e))\<bar> \<le> 10 * ewma_slack"
proof (induction k)
  case 0
  show ?case by (simp add: ewma_slack_def)
next
  case (Suc k)
  have "\<bar>err_up ((err_up ^^ k) e) - (1 / 10 + 9 / 10 * (err_up ^^ k) e)\<bar> \<le> ewma_slack"
    using err_up_pow_range [OF assms] by (intro err_up_approx) auto
  moreover define t where "t = (9 / 10) ^ k * (1 - e)"
  moreover have "(9 / 10) ^ Suc k * (1 - e) = 9 / 10 * t"
    by (simp add: t_def)
  ultimately show ?case using Suc.IH unfolding t_def [symmetric] abs_le_iff funpow.simps o_apply
    by (simp only: t_def [symmetric]) linarith
qed

lemma err_down_pow_approx:
  assumes "0 \<le> e" "e \<le> 1"
  shows "\<bar>(err_down ^^ k) e - (9 / 10) ^ k * e\<bar> \<le> 10 * ewma_slack"
proof (induction k)
  case 0
  show ?case by (simp add: ewma_slack_def)
next
  case (Suc k)
  have "\<bar>err_down ((err_down ^^ k) e) - 9 / 10 * (err_down ^^ k) e\<bar> \<le> ewma_slack"
    using err_down_pow_range [OF assms] by (intro err_down_approx) auto
  moreover have "(9 / 10) ^ Suc k * e = 9 / 10 * ((9 / 10) ^ k * e)" by simp
  ultimately show ?case using Suc.IH unfolding abs_le_iff funpow.simps o_apply by linarith
qed

end
