(* ===== verification/Health_Monitor_Correct.thy ===== *)
theory Health_Monitor_Correct
  imports Health_Monitor "HOL-Library.Multiset"
begin

text \<open>
  What the health monitor guarantees: its invariant, the abstract recurrence each call
  implements on the pair (latency average, error rate) of one provider, the number of
  errors and successes that move a provider between its states, the range of the latency
  average, and that calls interleaved at the monitor's two locks act as if they ran one
  after the other.
\<close>

section \<open>The latency average in binary64\<close>

definition lat_step :: "rat \<Rightarrow> rat \<Rightarrow> rat" where
  "lat_step ms l = rnd (rnd (alpha64 * ms) + rnd (beta64 * l))"

definition lat_slack :: "rat \<Rightarrow> rat" where
  "lat_slack H = H / 10000000000000"

lemma lat_terms:
  assumes "0 \<le> ms" "ms \<le> H" "0 \<le> l" "l \<le> 2 * H" "1 \<le> H"
  shows "0 \<le> rnd (alpha64 * ms)" "rnd (alpha64 * ms) \<le> 3 * H"
    and "0 \<le> rnd (beta64 * l)" "rnd (beta64 * l) \<le> 5 * H"
    and "\<bar>rnd (alpha64 * ms) - alpha64 * ms\<bar> \<le> (2 * H) * unit_roundoff"
    and "\<bar>rnd (beta64 * l) - beta64 * l\<bar> \<le> (3 * H) * unit_roundoff"
proof -
  have p: "0 \<le> alpha64 * ms" "alpha64 * ms \<le> H" "0 \<le> beta64 * l" "beta64 * l \<le> 2 * H"
    using assms by (simp_all add: alpha64_val beta64_val)
  show a: "\<bar>rnd (alpha64 * ms) - alpha64 * ms\<bar> \<le> (2 * H) * unit_roundoff"
    and b: "\<bar>rnd (beta64 * l) - beta64 * l\<bar> \<le> (3 * H) * unit_roundoff"
    using p assms(5) by (intro rnd_within_scaled [of _ H] rnd_within_scaled [of _ "2 * H"]; simp)+
  show "0 \<le> rnd (alpha64 * ms)" "0 \<le> rnd (beta64 * l)" using p by (simp_all add: rnd_nonneg)
  have "H * unit_roundoff \<le> H * (1 / 2)"
    using assms(5) by (intro mult_left_mono) (simp_all add: unit_roundoff_def)
  then show "rnd (alpha64 * ms) \<le> 3 * H" "rnd (beta64 * l) \<le> 5 * H"
    using a b p unfolding abs_le_iff by linarith+
qed

lemma lat_step_approx:
  assumes "0 \<le> ms" "ms \<le> H" "0 \<le> l" "l \<le> 2 * H" "1 \<le> H"
  shows "\<bar>lat_step ms l - (ms / 10 + 9 / 10 * l)\<bar> \<le> lat_slack H"
proof -
  note t = lat_terms [OF assms]
  have "\<bar>lat_step ms l - (rnd (alpha64 * ms) + rnd (beta64 * l))\<bar> \<le> (9 * H) * unit_roundoff"
    unfolding lat_step_def using t(1-4) assms(5) by (intro rnd_within_scaled [of _ "8 * H"]) auto
  moreover have "\<bar>alpha64 * ms - ms / 10\<bar> \<le> H / 1000000000000000"
    and "\<bar>beta64 * l - 9 / 10 * l\<bar> \<le> H / 1000000000000000"
    using assms by (simp_all add: alpha64_val beta64_val abs_if)
  moreover have "H * unit_roundoff \<le> H * (1 / 1000000000000000)"
    using assms(5) by (intro mult_left_mono) (simp_all add: unit_roundoff_def)
  ultimately show ?thesis using t(5,6) assms(5) unfolding lat_slack_def abs_le_iff by linarith
qed

lemma lat_step_float:
  assumes "0 \<le> ms" "ms \<le> H" "0 \<le> l" "l \<le> 2 * H" "1 \<le> H" "H \<le> 2 ^ 60"
  shows "(Fin alpha64 * Fin ms) + (Fin beta64 * Fin l) = Fin (lat_step ms l)"
proof -
  note t = lat_terms [OF assms(1-5)]
  have p: "0 \<le> alpha64 * ms" "alpha64 * ms \<le> H" "0 \<le> beta64 * l" "beta64 * l \<le> 2 * H"
    using assms by (simp_all add: alpha64_val beta64_val)
  have "\<bar>alpha64 * ms\<bar> \<le> 10 ^ 30" "\<bar>beta64 * l\<bar> \<le> 10 ^ 30"
    "\<bar>rnd (alpha64 * ms) + rnd (beta64 * l)\<bar> \<le> 10 ^ 30"
    using p t(1-4) assms(6) by (auto simp: abs_le_iff)
  then show ?thesis by (simp add: f64_Fin lat_step_def)
qed

text \<open>The average never leaves the range of the observed latencies by more than ten slacks.\<close>

definition within_latencies :: "rat \<Rightarrow> rat \<Rightarrow> rat \<Rightarrow> bool" where
  "within_latencies lo hi l \<longleftrightarrow> lo - 10 * lat_slack hi \<le> l \<and> l \<le> hi + 10 * lat_slack hi"

lemma lat_step_nonneg: "0 \<le> ms \<Longrightarrow> 0 \<le> l \<Longrightarrow> 0 \<le> lat_step ms l"
  unfolding lat_step_def
  using rnd_mono [of 0 "alpha64 * ms"] rnd_mono [of 0 "beta64 * l"] alpha_beta_bounds
  by (intro rnd_nonneg) simp

lemma lat_step_within:
  assumes "0 \<le> lo" "lo \<le> ms" "ms \<le> hi" "1 \<le> hi" "0 \<le> l" "within_latencies lo hi l"
  shows "within_latencies lo hi (lat_step ms l)"
proof -
  have "l \<le> 2 * hi" using assms by (simp add: within_latencies_def lat_slack_def)
  with assms have "\<bar>lat_step ms l - (ms / 10 + 9 / 10 * l)\<bar> \<le> lat_slack hi"
    by (intro lat_step_approx) auto
  then show ?thesis using assms(2,3,6) unfolding within_latencies_def abs_le_iff by linarith
qed

section \<open>The invariant\<close>

definition max_latency :: rat where "max_latency = 2 ^ 44"

definition metrics_wf :: "providerMetrics \<Rightarrow> bool" where
  "metrics_wf pm \<longleftrightarrow>
     alpha pm = f64 (1 / 10) \<and>
     (\<exists>e. errorRate pm = Fin e \<and> 0 \<le> e \<and> e \<le> 1) \<and>
     (\<exists>l. latencyEWMA pm = Fin l \<and> 0 \<le> l \<and> l \<le> max_latency + 10 * lat_slack max_latency)"

definition monitor_wf :: "EWMAMonitor \<Rightarrow> bool" where
  "monitor_wf m \<longleftrightarrow> (\<forall>p pm. metrics m p = Some pm \<longrightarrow> metrics_wf pm)"

lemma metrics_wfE:
  assumes "metrics_wf pm"
  obtains e l where "alpha pm = Fin alpha64" "errorRate pm = Fin e" "0 \<le> e" "e \<le> 1"
    "latencyEWMA pm = Fin l" "0 \<le> l" "within_latencies 0 max_latency l"
  using assms by (auto simp: metrics_wf_def within_latencies_def alpha_float lat_slack_def max_latency_def)

lemma metrics_wfI:
  assumes "alpha pm = Fin alpha64" "errorRate pm = Fin e" "0 \<le> e" "e \<le> 1"
    "latencyEWMA pm = Fin l" "0 \<le> l" "within_latencies 0 max_latency l"
  shows "metrics_wf pm"
  using assms by (simp add: metrics_wf_def within_latencies_def alpha_float)

lemma new_metrics_wf: "metrics_wf (new_metrics now)"
  by (rule metrics_wfI [of _ 0 0])
    (simp_all add: new_metrics_def alpha_float zero_float64_def within_latencies_def lat_slack_def max_latency_def)

lemma Milliseconds_float:
  assumes "0 \<le> d" "is_int64 d"
  shows "float64_of_int (Milliseconds d) = Fin (of_int (Milliseconds d))"
proof -
  have b: "0 \<le> Milliseconds d" "Milliseconds d < 2 ^ 44"
    using Milliseconds_nonneg [OF assms(1)] Milliseconds_bound [OF assms] .
  then have "\<bar>of_int (Milliseconds d) :: rat\<bar> \<le> of_int (2 ^ 44)"
    by (subst of_int_abs [symmetric], subst of_int_le_iff) simp
  then have "\<bar>of_int (Milliseconds d) :: rat\<bar> \<le> 10 ^ 30" by simp
  with b show ?thesis by (simp add: float64_of_int_def f64_Fin rnd_of_int)
qed

lemma Milliseconds_max:
  assumes "0 \<le> d" "is_int64 d"
  shows "of_int (Milliseconds d) \<le> max_latency"
proof -
  have "(of_int (Milliseconds d) :: rat) \<le> of_int (2 ^ 44)"
    using Milliseconds_bound [OF assms] by (subst of_int_le_iff) simp
  then show ?thesis by (simp add: max_latency_def)
qed

subsection \<open>The critical sections keep it\<close>

definition lat_next :: "rat \<Rightarrow> rat \<Rightarrow> rat" where
  "lat_next ms l = (if l = 0 then ms else lat_step ms l)"

lemma success_section_fields:
  assumes "metrics_wf pm" "0 \<le> d" "is_int64 d" "errorRate pm = Fin e" "latencyEWMA pm = Fin l"
  shows "alpha (success_section d pm) = Fin alpha64"
    and "errorRate (success_section d pm) = Fin (err_down e)"
    and "latencyEWMA (success_section d pm) = Fin (lat_next (of_int (Milliseconds d)) l)"
proof -
  obtain wf: "alpha pm = Fin alpha64" "0 \<le> e" "e \<le> 1" "0 \<le> l" "within_latencies 0 max_latency l"
    using assms(1,4,5) by (auto elim: metrics_wfE)
  have "l \<le> 2 * max_latency"
    using wf(5) by (simp add: within_latencies_def lat_slack_def max_latency_def)
  then have "(Fin alpha64 * Fin (of_int (Milliseconds d))) + (Fin beta64 * Fin l)
      = Fin (lat_step (of_int (Milliseconds d)) l)"
    using assms(2,3) wf Milliseconds_max Milliseconds_nonneg
    by (intro lat_step_float [of _ max_latency]) (auto simp: max_latency_def)
  with assms wf show "alpha (success_section d pm) = Fin alpha64"
    "errorRate (success_section d pm) = Fin (err_down e)"
    "latencyEWMA (success_section d pm) = Fin (lat_next (of_int (Milliseconds d)) l)"
    by (auto simp: success_section_def Let_def Milliseconds_float one_minus_alpha_float
        err_down_float zero_float64_def lat_next_def
        simp del: times_float64.simps plus_float64.simps)
qed

lemma lat_next_within:
  assumes "0 \<le> lo" "lo \<le> ms" "ms \<le> hi" "1 \<le> hi" "0 \<le> l" "l = 0 \<or> within_latencies lo hi l"
  shows "0 \<le> lat_next ms l" and "within_latencies lo hi (lat_next ms l)"
  using assms lat_step_within [of lo ms hi l] lat_step_nonneg [of ms l]
  by (auto simp: lat_next_def within_latencies_def lat_slack_def)

lemma success_section_wf:
  assumes "metrics_wf pm" "0 \<le> d" "is_int64 d" shows "metrics_wf (success_section d pm)"
proof -
  obtain e l where *: "errorRate pm = Fin e" "0 \<le> e" "e \<le> 1"
    "latencyEWMA pm = Fin l" "0 \<le> l" "within_latencies 0 max_latency l"
    using assms(1) by (auto elim: metrics_wfE)
  have "0 \<le> lat_next (of_int (Milliseconds d)) l"
    and "within_latencies 0 max_latency (lat_next (of_int (Milliseconds d)) l)"
    using * assms Milliseconds_max Milliseconds_nonneg
    by (intro lat_next_within [of 0 _ max_latency]; simp add: max_latency_def)+
  with success_section_fields [OF assms *(1,4)] err_down_range [OF *(2,3)]
  show ?thesis by (blast intro: metrics_wfI)
qed

lemma error_section_fields:
  assumes "metrics_wf pm" "errorRate pm = Fin e"
  shows "errorRate (error_section pm) = Fin (err_up e)"
  using assms by (auto elim!: metrics_wfE simp: error_section_def one_minus_alpha_float err_up_float
      simp del: times_float64.simps plus_float64.simps)

lemma error_section_wf: "metrics_wf pm \<Longrightarrow> metrics_wf (error_section pm)"
  by (auto simp: metrics_wf_def error_section_def alpha_float one_minus_alpha_float err_up_float err_up_range
      simp del: times_float64.simps plus_float64.simps)

lemma failure_section_wf: "metrics_wf pm \<Longrightarrow> metrics_wf (failure_section pm)"
  by (auto simp: metrics_wf_def failure_section_def one_float64_def)

lemmas section_wf = success_section_wf error_section_wf failure_section_wf

section \<open>Calls of the interface\<close>

fun call_time :: "monitor_call \<Rightarrow> instant" where
  "call_time (CallSuccess _ _ t) = t"
| "call_time (CallError _ _ t) = t"
| "call_time (CallForceFailure _ t) = t"
| "call_time (CallGetState _ t) = t"

fun call_section :: "monitor_call \<Rightarrow> providerMetrics \<Rightarrow> providerMetrics" where
  "call_section (CallSuccess _ d _) pm = success_section d pm"
| "call_section (CallError _ _ _) pm = error_section pm"
| "call_section (CallForceFailure _ _) pm = failure_section pm"
| "call_section (CallGetState _ _) pm = pm"

fun perform_call :: "monitor_call \<Rightarrow> EWMAMonitor \<Rightarrow> EWMAMonitor" where
  "perform_call (CallSuccess p d t) m = RecordSuccess m p d t"
| "perform_call (CallError p code t) m = RecordError m p code t"
| "perform_call (CallForceFailure p t) m = ForceFailure m p t"
| "perform_call (CallGetState p t) m = snd (GetState m p t)"

text \<open>The entry a provider has, or would be given on first use.\<close>

definition entry :: "EWMAMonitor \<Rightarrow> string \<Rightarrow> instant \<Rightarrow> providerMetrics" where
  "entry m p t = (case metrics m p of Some pm \<Rightarrow> pm | None \<Rightarrow> new_metrics t)"

lemma getMetrics_entry: "getMetrics m p t = (entry m p t, m\<lparr>metrics := (metrics m)(p \<mapsto> entry m p t)\<rparr>)"
  by (auto simp: getMetrics_def entry_def Let_def map_upd_triv split: option.split)

lemma metrics_perform:
  "metrics (perform_call c m) =
     (metrics m)(call_provider c \<mapsto> call_section c (entry m (call_provider c) (call_time c)))"
  by (cases c)
    (simp_all add: RecordSuccess_def RecordError_def ForceFailure_def GetState_def with_metrics_def
      getMetrics_entry)

lemma entry_wf: "monitor_wf m \<Longrightarrow> metrics_wf (entry m p t)"
  by (auto simp: monitor_wf_def entry_def new_metrics_wf split: option.split)

lemma call_section_wf: "metrics_wf pm \<Longrightarrow> call_ok c \<Longrightarrow> metrics_wf (call_section c pm)"
  by (cases c) (auto intro: section_wf)

lemma perform_call_wf: "monitor_wf m \<Longrightarrow> call_ok c \<Longrightarrow> monitor_wf (perform_call c m)"
  using call_section_wf [OF entry_wf, of m c "call_provider c" "call_time c"]
  by (auto simp: monitor_wf_def [of "perform_call c m"] metrics_perform) (simp add: monitor_wf_def)

lemma NewEWMAMonitor_wf: "monitor_wf NewEWMAMonitor"
  by (simp add: monitor_wf_def NewEWMAMonitor_def)

section \<open>The abstract monitor\<close>

text \<open>
  What a client can observe of a provider is the pair of averages; an absent entry
  counts as a fresh one. The abstract operations are recurrences on that pair.
\<close>

type_synonym averages = "float64 \<times> float64"

definition view :: "EWMAMonitor \<Rightarrow> string \<Rightarrow> averages" where
  "view m p = (case metrics m p of Some pm \<Rightarrow> (latencyEWMA pm, errorRate pm) | None \<Rightarrow> (0, 0))"

definition decay :: float64 where "decay = 1 - f64 (1 / 10)"

fun abstract_call :: "monitor_call \<Rightarrow> averages \<Rightarrow> averages" where
  "abstract_call (CallSuccess _ d _) (l, e) =
     (let ms = float64_of_int (Milliseconds d)
      in (if l = 0 then ms else (f64 (1 / 10) * ms) + (decay * l), decay * e))"
| "abstract_call (CallError _ _ _) (l, e) = (l, (f64 (1 / 10) * 1) + (decay * e))"
| "abstract_call (CallForceFailure _ _) (l, e) = (l, 1)"
| "abstract_call (CallGetState _ _) (l, e) = (l, e)"

fun state_of_averages :: "averages \<Rightarrow> ProviderState" where
  "state_of_averages (l, e) =
     (if f64 (1 / 2) < e then StateUnhealthy
      else if f64 (1 / 5) < e \<or> float64_of_int 5000 < l then StateDegraded
      else StateHealthy)"

lemma view_entry: "view m p = (latencyEWMA (entry m p t), errorRate (entry m p t))"
  by (auto simp: view_def entry_def new_metrics_def split: option.split)

lemma abstract_section:
  assumes "alpha pm = f64 (1 / 10)"
  shows "(latencyEWMA (call_section c pm), errorRate (call_section c pm))
       = abstract_call c (latencyEWMA pm, errorRate pm)"
  using assms
  by (cases c)
    (auto simp: success_section_def error_section_def failure_section_def decay_def Let_def)

lemma view_perform:
  assumes "monitor_wf m"
  shows "view (perform_call c m) =
      (view m)(call_provider c := abstract_call c (view m (call_provider c)))"
proof
  fix p
  have "alpha (entry m (call_provider c) (call_time c)) = f64 (1 / 10)"
    using entry_wf [OF assms] by (simp add: metrics_wf_def)
  from abstract_section [OF this]
  show "view (perform_call c m) p = ((view m)(call_provider c := abstract_call c (view m (call_provider c)))) p"
    by (auto simp: view_def [of "perform_call c m"] metrics_perform view_entry [of m "call_provider c" "call_time c"])
      (simp add: view_def)
qed

lemma fst_GetState: "fst (GetState m p t) = state_of_averages (view m p)"
  by (simp add: GetState_def getMetrics_entry state_of_metrics_def view_entry [of m p t])

lemma view_query: "view (snd (GetState m p t)) = view m"
  by (rule ext)
    (auto simp: GetState_def getMetrics_entry view_def entry_def new_metrics_def split: option.split)

lemma view_wf:
  assumes "monitor_wf m"
  obtains l e where "view m p = (Fin l, Fin e)" "0 \<le> l" "0 \<le> e" "e \<le> 1" "within_latencies 0 max_latency l"
  using entry_wf [OF assms, of p 0] by (auto elim!: metrics_wfE simp: view_entry [of m p 0])

lemma abstract_error:
  "0 \<le> e \<Longrightarrow> e \<le> 1 \<Longrightarrow> abstract_call (CallError p code t) (l, Fin e) = (l, Fin (err_up e))"
  by (simp add: decay_def alpha_float one_minus_alpha_float err_up_float
      del: times_float64.simps plus_float64.simps)

lemma abstract_success:
  assumes "0 \<le> e" "e \<le> 1" "0 \<le> l" "within_latencies 0 max_latency l" "0 \<le> d" "is_int64 d"
  shows "abstract_call (CallSuccess p d t) (Fin l, Fin e)
       = (Fin (lat_next (of_int (Milliseconds d)) l), Fin (err_down e))"
proof -
  define pm where "pm = \<lparr>latencyEWMA = Fin l, errorRate = Fin e, lastUpdate = 0, alpha = f64 (1 / 10)\<rparr>"
  have "metrics_wf pm"
    using assms by (intro metrics_wfI) (auto simp: pm_def alpha_float)
  from success_section_fields [OF this assms(5,6)] abstract_section [of pm "CallSuccess p d t"]
  show ?thesis by (simp add: pm_def)
qed

text \<open>The thresholds in binary64.\<close>

definition fifth64 :: rat where "fifth64 = rnd (1 / 5)"

lemma fifth64_val: "fifth64 = 3602879701896397 / 18014398509481984"
  by code_simp

lemma thresholds: "f64 (1 / 2) = Fin (1 / 2)" "f64 (1 / 5) = Fin fifth64" "float64_of_int 5000 = Fin 5000"
proof -
  have "rnd (2 powi (- 1)) = 2 powi (- 1)" by (rule rnd_two_powi) simp
  then show "f64 (1 / 2) = Fin (1 / 2)" by (simp add: f64_Fin)
qed (simp_all add: f64_Fin fifth64_def float64_of_int_def rnd_numeral)

lemma state_of_averages_Fin:
  "state_of_averages (Fin l, Fin e) =
     (if 1 / 2 < e then StateUnhealthy else if fifth64 < e \<or> 5000 < l then StateDegraded else StateHealthy)"
  by (simp add: thresholds)

lemma state_of_averages_mono: "e \<le> e' \<Longrightarrow> state_of_averages (Fin l, Fin e) \<le> state_of_averages (Fin l, Fin e')"
  unfolding state_of_averages_Fin by (auto simp: less_eq_ProviderState_def fifth64_val)

lemma err_up_increases:
  assumes "0 \<le> e" "e \<le> 1" shows "state_of_averages (l, Fin e) \<le> state_of_averages (l, Fin (err_up e))"
proof -
  have s: "err_up e \<ge> e - ewma_slack" using err_up_approx [OF assms] assms unfolding abs_le_iff by linarith
  show ?thesis
  proof (cases "e \<le> 1 / 2 + ewma_slack")
    case True
    then have "e \<le> err_up e"
      using err_up_approx [OF assms] unfolding abs_le_iff ewma_slack_def by linarith
    then show ?thesis by (auto simp: thresholds less_eq_ProviderState_def)
  next
    case False
    with s have "1 / 2 < err_up e" by linarith
    then show ?thesis by (simp add: thresholds)
  qed
qed

section \<open>The monitor provides the interface\<close>

definition monitor_state :: "EWMAMonitor \<Rightarrow> string \<Rightarrow> ProviderState" where
  "monitor_state m p = fst (GetState m p 0)"

lemma monitor_state_view: "monitor_state m p = state_of_averages (view m p)"
  by (simp add: monitor_state_def fst_GetState)

lemma fst_GetState_state: "fst (GetState m p t) = monitor_state m p"
  by (simp add: monitor_state_view fst_GetState)

interpretation ewma: health_monitor monitor_wf perform_call monitor_state
proof
  fix m :: EWMAMonitor and c q
  assume m: "monitor_wf m" and c: "call_ok c"
  then show "monitor_wf (perform_call c m)" by (rule perform_call_wf)
  assume "q \<noteq> call_provider c"
  then show "monitor_state (perform_call c m) q = monitor_state m q"
    by (simp add: monitor_state_view view_perform [OF m])
next
  fix m :: EWMAMonitor and p t code
  assume m: "monitor_wf m"
  obtain l e where v: "view m p = (Fin l, Fin e)" "0 \<le> e" "e \<le> 1" using view_wf [OF m] by metis
  show "monitor_state (perform_call (CallGetState p t) m) p = monitor_state m p"
    by (simp add: monitor_state_view view_query)
  show "monitor_state m p \<le> monitor_state (perform_call (CallError p code t) m) p"
    using v err_up_increases [OF v(2,3)]
    by (simp add: monitor_state_view view_perform [OF m] abstract_error del: state_of_averages.simps abstract_call.simps perform_call.simps)
  show "monitor_state (perform_call (CallForceFailure p t) m) p = StateUnhealthy"
    using v by (simp add: monitor_state_view view_perform [OF m] thresholds one_float64_def del: perform_call.simps)
qed

section \<open>Runs of calls\<close>

fun is_error_for :: "string \<Rightarrow> monitor_call \<Rightarrow> bool" where
  "is_error_for p (CallError q _ _) = (p = q)"
| "is_error_for p _ = False"

lemma is_error_for_provider: "is_error_for p c \<Longrightarrow> call_provider c = p \<and> call_ok c"
  by (cases c) auto

lemma is_success_for_provider: "is_success_for p c \<Longrightarrow> call_provider c = p"
  by (cases c) auto

lemma view_run:
  assumes "monitor_wf m" "list_all call_ok cs"
  shows "view (fold perform_call cs m) p
       = fold abstract_call (filter (\<lambda>c. call_provider c = p) cs) (view m p)"
  using assms
proof (induction cs arbitrary: m)
  case (Cons c cs)
  then have "monitor_wf (perform_call c m)" by (simp add: perform_call_wf)
  with Cons show ?case by (simp add: view_perform)
qed simp

lemma fold_errors:
  assumes "list_all (is_error_for p) cs" "0 \<le> e" "e \<le> 1"
  shows "fold abstract_call cs (l, Fin e) = (l, Fin ((err_up ^^ length cs) e))"
  using assms
proof (induction cs arbitrary: e)
  case (Cons c cs)
  then obtain code t where "c = CallError p code t" by (cases c) auto
  with Cons show ?case by (simp add: abstract_error err_up_range funpow_swap1 del: abstract_call.simps)
qed simp

text \<open>Successes: the error rate decays; the latency average stays in the observed range.\<close>

definition observed :: "monitor_call \<Rightarrow> rat" where
  "observed c = (case c of CallSuccess _ d _ \<Rightarrow> of_int (Milliseconds d) | _ \<Rightarrow> 0)"

lemma within_max:
  assumes "within_latencies lo hi l" "0 \<le> lo" "hi \<le> max_latency" shows "within_latencies 0 max_latency l"
proof -
  have "0 \<le> hi + 10 * lat_slack hi - (lo - 10 * lat_slack hi)" using assms unfolding within_latencies_def by linarith
  then show ?thesis using assms unfolding within_latencies_def lat_slack_def max_latency_def by simp
qed

lemma fold_successes:
  assumes "list_all (is_success_for p) cs" "list_all call_ok cs"
    and "list_all (\<lambda>c. lo \<le> observed c \<and> observed c \<le> hi) cs"
    and "0 \<le> lo" "1 \<le> hi" "hi \<le> max_latency" "0 \<le> e" "e \<le> 1" "0 \<le> l" "l = 0 \<or> within_latencies lo hi l"
  shows "\<exists>l'. fold abstract_call cs (Fin l, Fin e) = (Fin l', Fin ((err_down ^^ length cs) e)) \<and> 0 \<le> l'
       \<and> (cs = [] \<and> l' = l \<or> within_latencies lo hi l')"
  using assms
proof (induction cs arbitrary: e l)
  case (Cons c cs)
  then obtain d t where c: "c = CallSuccess p d t" "0 \<le> d" "is_int64 d" by (cases c) auto
  let ?ms = "of_int (Milliseconds d) :: rat"
  have ms: "lo \<le> ?ms" "?ms \<le> hi" using Cons.prems(3) c by (simp_all add: observed_def)
  have "within_latencies 0 max_latency l"
    using Cons.prems within_max by (auto simp: within_latencies_def lat_slack_def max_latency_def)
  then have step: "abstract_call c (Fin l, Fin e) = (Fin (lat_next ?ms l), Fin (err_down e))"
    using Cons.prems c by (simp only: abstract_success)
  have "0 \<le> lat_next ?ms l" "within_latencies lo hi (lat_next ?ms l)"
    using Cons.prems ms by (intro lat_next_within [of lo _ hi]; simp)+
  with Cons step err_down_range [of e] show ?case
    by (auto simp: funpow_swap1 simp del: abstract_call.simps)
qed simp

lemma filter_provider_all:
  "list_all (is_error_for p) cs \<Longrightarrow> filter (\<lambda>c. call_provider c = p) cs = cs"
  "list_all (is_success_for p) cs \<Longrightarrow> filter (\<lambda>c. call_provider c = p) cs = cs"
  by (induction cs) (auto dest: is_error_for_provider is_success_for_provider)

lemma call_ok_errors: "list_all (is_error_for p) cs \<Longrightarrow> list_all call_ok cs"
  by (induction cs) (auto dest: is_error_for_provider)

lemma state_after_errors:
  assumes "monitor_wf m" "list_all (is_error_for p) cs" "view m p = (Fin l, Fin e)" "0 \<le> e" "e \<le> 1"
  shows "monitor_state (fold perform_call cs m) p = state_of_averages (Fin l, Fin ((err_up ^^ length cs) e))"
  using assms
  by (simp add: monitor_state_view view_run call_ok_errors filter_provider_all fold_errors del: state_of_averages.simps)

lemma state_after_successes:
  assumes "monitor_wf m" "list_all (is_success_for p) cs" "list_all call_ok cs" "view m p = (Fin l, Fin e)"
  shows "\<exists>l'. monitor_state (fold perform_call cs m) p = state_of_averages (Fin l', Fin ((err_down ^^ length cs) e))
    \<and> view (fold perform_call cs m) p = (Fin l', Fin ((err_down ^^ length cs) e))"
proof -
  have w: "0 \<le> l" "0 \<le> e" "e \<le> 1" "within_latencies 0 max_latency l"
    using view_wf [OF assms(1), of p] assms(4) by auto
  have o: "list_all (\<lambda>c. 0 \<le> observed c \<and> observed c \<le> max_latency) cs"
    using assms(2,3)
  proof (induction cs)
    case (Cons c cs)
    then show ?case using Milliseconds_max Milliseconds_nonneg by (cases c) (auto simp: observed_def)
  qed simp
  have "1 \<le> max_latency" by (simp add: max_latency_def)
  from fold_successes [OF assms(2,3) o order_refl this order_refl w(2,3,1)] w(4)
  obtain l' where "fold abstract_call cs (Fin l, Fin e) = (Fin l', Fin ((err_down ^^ length cs) e))" by blast
  then have "view (fold perform_call cs m) p = (Fin l', Fin ((err_down ^^ length cs) e))"
    using assms by (simp add: view_run filter_provider_all)
  then show ?thesis by (auto simp: monitor_state_view simp del: state_of_averages.simps)
qed

text \<open>The exact recurrence at the thresholds.\<close>

lemma pow_le_7: "7 \<le> k \<Longrightarrow> (9 / 10 :: rat) ^ k \<le> (9 / 10) ^ 7"
  by (intro power_decreasing) auto

lemma pow_le_16: "16 \<le> k \<Longrightarrow> (9 / 10 :: rat) ^ k \<le> (9 / 10) ^ 16"
  by (intro power_decreasing) auto

lemma err_up_seven:
  assumes "0 \<le> e" "e \<le> 1" "7 \<le> k" shows "1 / 2 < (err_up ^^ k) e"
proof -
  have "(9 / 10) ^ k * (1 - e) \<le> (9 / 10) ^ 7 * 1"
    using assms pow_le_7 [OF assms(3)] by (intro mult_mono) auto
  also have "\<dots> \<le> 48 / 100" by (simp add: power_divide)
  finally show ?thesis using err_up_pow_approx [OF assms(1,2), of k] unfolding abs_le_iff ewma_slack_def by linarith
qed

lemma err_down_seven:
  assumes "0 \<le> e" "e \<le> 1" "7 \<le> k" shows "(err_down ^^ k) e < 1 / 2"
proof -
  have "(9 / 10) ^ k * e \<le> (9 / 10) ^ 7 * 1"
    using assms pow_le_7 [OF assms(3)] by (intro mult_mono) auto
  also have "\<dots> \<le> 48 / 100" by (simp add: power_divide)
  finally show ?thesis using err_down_pow_approx [OF assms(1,2), of k] unfolding abs_le_iff ewma_slack_def by linarith
qed

lemma err_down_sixteen:
  assumes "0 \<le> e" "e \<le> 1" "16 \<le> k" shows "(err_down ^^ k) e < fifth64"
proof -
  have "(9 / 10) ^ k * e \<le> (9 / 10) ^ 16 * 1"
    using assms pow_le_16 [OF assms(3)] by (intro mult_mono) auto
  also have "\<dots> \<le> 19 / 100" by (simp add: power_divide)
  finally show ?thesis using err_down_pow_approx [OF assms(1,2), of k]
    unfolding abs_le_iff ewma_slack_def fifth64_val by linarith
qed

text \<open>From a fresh entry, and from a forced failure, every count has a definite side.\<close>

lemma err_up_from_zero:
  "1 / 2 < (err_up ^^ k) 0 \<longleftrightarrow> 7 \<le> k" "fifth64 < (err_up ^^ k) 0 \<longleftrightarrow> 3 \<le> k"
proof -
  have a: "\<bar>(err_up ^^ k) 0 - (1 - (9 / 10) ^ k)\<bar> \<le> 10 * ewma_slack"
    using err_up_pow_approx [of 0 k] by simp
  have six: "(9 / 10 :: rat) ^ 6 \<le> (9 / 10) ^ k" if "k \<le> 6" using that by (intro power_decreasing) auto
  have two: "(9 / 10 :: rat) ^ 2 \<le> (9 / 10) ^ k" if "k \<le> 2" using that by (intro power_decreasing) auto
  have three: "(9 / 10 :: rat) ^ k \<le> (9 / 10) ^ 3" if "3 \<le> k" using that by (intro power_decreasing) auto
  have v: "(53 / 100 :: rat) \<le> (9 / 10) ^ 6" "(81 / 100 :: rat) \<le> (9 / 10) ^ 2" "(9 / 10 :: rat) ^ 3 \<le> 73 / 100"
    by (simp_all add: power_divide)
  show "1 / 2 < (err_up ^^ k) 0 \<longleftrightarrow> 7 \<le> k"
  proof (cases "7 \<le> k")
    case False
    then have "(err_up ^^ k) 0 \<le> 1 / 2" using a six v(1) unfolding abs_le_iff ewma_slack_def by linarith
    with False show ?thesis by simp
  next
    case True
    then show ?thesis using err_up_seven [of 0 k] by simp
  qed
  show "fifth64 < (err_up ^^ k) 0 \<longleftrightarrow> 3 \<le> k"
  proof (cases "3 \<le> k")
    case True
    then have "fifth64 < (err_up ^^ k) 0"
      using a three v(3) unfolding abs_le_iff ewma_slack_def fifth64_val by linarith
    with True show ?thesis by simp
  next
    case False
    then have "(err_up ^^ k) 0 \<le> fifth64"
      using a two v(2) unfolding abs_le_iff ewma_slack_def fifth64_val by linarith
    with False show ?thesis by simp
  qed
qed

lemma err_down_from_one: "1 / 2 < (err_down ^^ k) 1 \<longleftrightarrow> k < 7"
proof (cases "k < 7")
  case True
  have "\<bar>(err_down ^^ k) 1 - (9 / 10) ^ k\<bar> \<le> 10 * ewma_slack"
    using err_down_pow_approx [of 1 k] by simp
  moreover have "(9 / 10 :: rat) ^ 6 \<le> (9 / 10) ^ k" using True by (intro power_decreasing) auto
  moreover have "(53 / 100 :: rat) \<le> (9 / 10) ^ 6" by (simp add: power_divide)
  ultimately have "1 / 2 < (err_down ^^ k) 1" unfolding abs_le_iff ewma_slack_def by linarith
  with True show ?thesis by simp
next
  case False
  then show ?thesis using err_down_seven [of 1 k] by simp
qed

section \<open>Calls interleaved at the locks\<close>

text \<open>
  Each call takes two locks in turn: the monitor's, while it fetches or creates the entry,
  and the entry's own, while it updates it. Between the two, other goroutines may run. An
  entry is never replaced, so the pointer a call fetched is the map's entry.
\<close>

datatype lock_event = Fetch monitor_call | Enter monitor_call

fun lock_step :: "lock_event \<Rightarrow> EWMAMonitor \<Rightarrow> EWMAMonitor" where
  "lock_step (Fetch c) m = snd (getMetrics m (call_provider c) (call_time c))"
| "lock_step (Enter c) m =
     (case metrics m (call_provider c) of
        Some pm \<Rightarrow> m\<lparr>metrics := (metrics m)(call_provider c \<mapsto> call_section c pm)\<rparr>
      | None \<Rightarrow> m)"

text \<open>A call enters only after it has fetched; \<open>F\<close> are the calls between the two locks.\<close>

fun interleaving :: "monitor_call multiset \<Rightarrow> lock_event list \<Rightarrow> bool" where
  "interleaving F [] = (F = {#})"
| "interleaving F (Fetch c # es) = interleaving (add_mset c F) es"
| "interleaving F (Enter c # es) = (c \<in># F \<and> interleaving (F - {#c#}) es)"

fun entered :: "lock_event list \<Rightarrow> monitor_call list" where
  "entered [] = []"
| "entered (Fetch c # es) = entered es"
| "entered (Enter c # es) = c # entered es"

lemma view_fetch: "view (lock_step (Fetch c) m) = view m"
  by (rule ext) (auto simp: getMetrics_entry view_def entry_def new_metrics_def split: option.split)

lemma wf_fetch: "monitor_wf m \<Longrightarrow> monitor_wf (lock_step (Fetch c) m)"
  using entry_wf [of m "call_provider c" "call_time c"]
  by (auto simp: getMetrics_entry monitor_wf_def split: if_splits)

lemma enter_performs:
  "metrics m (call_provider c) \<noteq> None \<Longrightarrow> lock_step (Enter c) m = perform_call c m"
  by (rule EWMAMonitor.equality) (auto simp: metrics_perform entry_def)

lemma view_fold_cong:
  assumes "monitor_wf m" "monitor_wf m'" "view m = view m'" "list_all call_ok cs"
  shows "view (fold perform_call cs m) = view (fold perform_call cs m')"
  using assms by (intro ext) (simp add: view_run)

lemma fetch_keeps_entries:
  "dom (metrics m) \<subseteq> dom (metrics (lock_step e m))"
  by (cases e) (auto simp: getMetrics_entry split: option.split)

lemma fetch_adds_entry: "metrics (lock_step (Fetch c) m) (call_provider c) \<noteq> None"
  by (simp add: getMetrics_entry)

lemma run_interleaving:
  assumes "interleaving F es" "monitor_wf m" "list_all call_ok (entered es)"
    and "\<forall>c \<in># F. metrics m (call_provider c) \<noteq> None"
  shows "view (fold lock_step es m) = view (fold perform_call (entered es) m)"
  using assms
proof (induction F es arbitrary: m rule: interleaving.induct)
  case (2 F c es)
  let ?m = "lock_step (Fetch c) m"
  have "\<forall>d \<in># add_mset c F. metrics ?m (call_provider d) \<noteq> None"
    using "2.prems"(4) fetch_adds_entry [of c m] fetch_keeps_entries [of m "Fetch c"]
    by (auto simp del: lock_step.simps)
  with 2 have "view (fold lock_step es ?m) = view (fold perform_call (entered es) ?m)"
    by (intro "2.IH") (auto intro: wf_fetch simp del: lock_step.simps)
  also have "\<dots> = view (fold perform_call (entered es) m)"
    using "2.prems" by (intro view_fold_cong wf_fetch) (auto simp: view_fetch simp del: lock_step.simps)
  finally show ?case by (simp del: lock_step.simps)
next
  case (3 F c es)
  let ?m = "lock_step (Enter c) m"
  from 3 have e: "?m = perform_call c m" by (intro enter_performs) auto
  have "\<forall>d \<in># F - {#c#}. metrics ?m (call_provider d) \<noteq> None"
    using "3.prems"(4) by (auto simp: e metrics_perform simp del: lock_step.simps dest: in_diffD)
  with 3 show ?case by (simp add: e perform_call_wf del: lock_step.simps)
qed simp

end
