(* ===== verification/Health_Monitor_Properties.thy ===== *)
theory Health_Monitor_Properties
  imports Health_Monitor_Correct
begin

text \<open>The properties of the health monitor, over any history of calls.\<close>

text \<open>
  C22: whatever calls a fresh monitor has served, every entry holds a finite error rate
  between 0 and 1 and a finite, non-negative latency average: no sequence of updates
  overflows, turns negative or becomes NaN.
\<close>
theorem monitor_averages_bounded:
  assumes "list_all call_ok cs" and "metrics (fold perform_call cs NewEWMAMonitor) p = Some pm"
  shows "\<exists>e l. errorRate pm = Fin e \<and> 0 \<le> e \<and> e \<le> 1
           \<and> latencyEWMA pm = Fin l \<and> 0 \<le> l \<and> l \<le> 2 ^ 45"
proof -
  have "monitor_wf (fold perform_call cs NewEWMAMonitor)"
    using assms(1) by (rule ewma.inv_fold [OF NewEWMAMonitor_wf])
  with assms(2) have "metrics_wf pm" by (simp add: monitor_wf_def)
  then show ?thesis
    by (rule metrics_wfE) (auto simp: within_latencies_def lat_slack_def max_latency_def)
qed

theorem monitor_averages_bounded_witness:
  "\<exists>pm e l. metrics (fold perform_call [CallSuccess ''p'' 100000000 5, CallError ''p'' 500 7] NewEWMAMonitor) ''p'' = Some pm
    \<and> errorRate pm = Fin e \<and> 0 \<le> e \<and> e \<le> 1 \<and> latencyEWMA pm = Fin l \<and> 0 \<le> l \<and> l \<le> 2 ^ 45"
proof -
  let ?cs = "[CallSuccess ''p'' 100000000 5, CallError ''p'' 500 7]"
  obtain pm where pm: "metrics (fold perform_call ?cs NewEWMAMonitor) ''p'' = Some pm"
    by (simp add: metrics_perform del: perform_call.simps)
  have "list_all call_ok ?cs" by (simp add: is_int64_def)
  from monitor_averages_bounded [OF this pm] pm show ?thesis by blast
qed

text \<open>
  C21: the monitor implements the abstract recurrence: after any run of calls, the averages
  of a provider are those the recurrence gives for the calls that name it, in order; calls
  for other providers and queries leave them alone.
\<close>
theorem monitor_refines_recurrence:
  assumes "list_all call_ok cs"
  shows "view (fold perform_call cs NewEWMAMonitor) p
       = fold abstract_call (filter (\<lambda>c. call_provider c = p) cs) (0, 0)"
  using view_run [OF NewEWMAMonitor_wf assms, of p] by (simp add: view_def NewEWMAMonitor_def)

theorem monitor_refines_recurrence_witness:
  "view (fold perform_call [CallSuccess ''p'' 100000000 5, CallError ''q'' 500 7] NewEWMAMonitor) ''p''
   = abstract_call (CallSuccess ''p'' 100000000 5) (0, 0)"
  using monitor_refines_recurrence [of "[CallSuccess ''p'' 100000000 5, CallError ''q'' 500 7]" "''p''"]
  by (simp add: is_int64_def del: abstract_call.simps perform_call.simps)

text \<open>
  Seven consecutive recorded errors take any provider out of service, whatever its
  history and whatever the status codes.
\<close>
theorem seven_errors_unhealthy:
  assumes "list_all call_ok cs" and "list_all (is_error_for p) es" and "7 \<le> length es"
  shows "fst (GetState (fold perform_call es (fold perform_call cs NewEWMAMonitor)) p now) = StateUnhealthy"
proof -
  let ?m = "fold perform_call cs NewEWMAMonitor"
  have wf: "monitor_wf ?m" using assms(1) by (rule ewma.inv_fold [OF NewEWMAMonitor_wf])
  obtain l e where v: "view ?m p = (Fin l, Fin e)" "0 \<le> e" "e \<le> 1" using view_wf [OF wf] by metis
  then show ?thesis
    using state_after_errors [OF wf assms(2) v] err_up_seven [OF v(2,3) assms(3)]
    by (simp add: fst_GetState_state thresholds)
qed

theorem seven_errors_unhealthy_witness:
  "fst (GetState (fold perform_call (replicate 7 (CallError ''p'' 502 9))
     (fold perform_call [CallSuccess ''p'' 100000000 5] NewEWMAMonitor)) ''p'' 20) = StateUnhealthy"
  by (rule seven_errors_unhealthy) (simp_all add: is_int64_def numeral_eq_Suc)

text \<open>
  For a provider seen for the first time the thresholds are exact: up to two errors
  leave it healthy, three to six degrade it, the seventh takes it out of service.
\<close>
theorem fresh_provider_error_count:
  assumes "list_all (is_error_for p) es"
  shows "fst (GetState (fold perform_call es NewEWMAMonitor) p now)
       = (if 7 \<le> length es then StateUnhealthy else if 3 \<le> length es then StateDegraded else StateHealthy)"
proof -
  have v: "view NewEWMAMonitor p = (Fin 0, Fin 0)" by (simp add: view_def NewEWMAMonitor_def zero_float64_def)
  show ?thesis
    using state_after_errors [OF NewEWMAMonitor_wf assms v] err_up_from_zero [of "length es"]
    by (simp add: fst_GetState_state state_of_averages_Fin del: state_of_averages.simps)
qed

theorem fresh_provider_error_count_witness:
  "fst (GetState (fold perform_call (replicate 6 (CallError ''p'' 502 9)) NewEWMAMonitor) ''p'' 20) = StateDegraded"
  using fresh_provider_error_count [of "''p''" "replicate 6 (CallError ''p'' 502 9)" 20]
  by (simp add: numeral_eq_Suc)

text \<open>
  Recovery: seven consecutive successes bring any provider back into service, and after
  sixteen it is healthy provided its latency average is at most five seconds.
\<close>
theorem successes_recover:
  assumes "list_all call_ok cs" and "list_all (is_success_for p) es" and "list_all call_ok es"
    and "7 \<le> length es"
  defines "m \<equiv> fold perform_call es (fold perform_call cs NewEWMAMonitor)"
  shows "fst (GetState m p now) \<noteq> StateUnhealthy
       \<and> (16 \<le> length es \<longrightarrow> fst (view m p) \<le> Fin 5000 \<longrightarrow> fst (GetState m p now) = StateHealthy)"
proof -
  let ?m = "fold perform_call cs NewEWMAMonitor"
  have wf: "monitor_wf ?m" using assms(1) by (rule ewma.inv_fold [OF NewEWMAMonitor_wf])
  obtain l e where v: "view ?m p = (Fin l, Fin e)" "0 \<le> e" "e \<le> 1" using view_wf [OF wf] by metis
  obtain l' where s: "monitor_state m p = state_of_averages (Fin l', Fin ((err_down ^^ length es) e))"
    and v': "view m p = (Fin l', Fin ((err_down ^^ length es) e))"
    using state_after_successes [OF wf assms(2,3) v(1)] by (auto simp: m_def)
  have "(err_down ^^ length es) e < 1 / 2" using v assms(4) by (intro err_down_seven)
  moreover have "16 \<le> length es \<Longrightarrow> (err_down ^^ length es) e < fifth64" using v by (intro err_down_sixteen)
  ultimately show ?thesis by (auto simp: s v' fst_GetState_state state_of_averages_Fin simp del: state_of_averages.simps)
qed

theorem successes_recover_witness:
  "fst (GetState (fold perform_call (replicate 7 (CallSuccess ''p'' 100000000 9))
     (fold perform_call [CallForceFailure ''p'' 3] NewEWMAMonitor)) ''p'' 20) \<noteq> StateUnhealthy"
  by (rule successes_recover [THEN conjunct1]) (simp_all add: is_int64_def numeral_eq_Suc)

text \<open>
  A provider forced to fail by the operator needs exactly seven successes: after any
  smaller number it is still out of service.
\<close>
theorem forced_failure_recovery_exact:
  assumes "list_all call_ok cs" and "list_all (is_success_for p) es" and "list_all call_ok es"
  shows "fst (GetState (fold perform_call es (ForceFailure (fold perform_call cs NewEWMAMonitor) p t)) p now)
           = StateUnhealthy \<longleftrightarrow> length es < 7"
proof -
  let ?start = "fold perform_call cs NewEWMAMonitor"
  let ?m = "perform_call (CallForceFailure p t) ?start"
  have wf0: "monitor_wf ?start" using assms(1) by (rule ewma.inv_fold [OF NewEWMAMonitor_wf])
  have wf: "monitor_wf ?m" by (rule perform_call_wf [OF wf0]) simp
  obtain l e where "view ?start p = (Fin l, Fin e)" using view_wf [OF wf0] by metis
  then have v: "view ?m p = (Fin l, Fin 1)" using view_perform [OF wf0, of "CallForceFailure p t"] by (simp add: one_float64_def)
  show ?thesis
    using state_after_successes [OF wf assms(2,3) v] err_down_from_one [of "length es"]
    by (auto simp: fst_GetState_state state_of_averages_Fin simp del: state_of_averages.simps split: if_splits)
qed

theorem forced_failure_recovery_exact_witness:
  "fst (GetState (fold perform_call (replicate 6 (CallSuccess ''p'' 100000000 9))
     (ForceFailure (fold perform_call [CallError ''p'' 500 1] NewEWMAMonitor) ''p'' 3)) ''p'' 20) = StateUnhealthy"
  using forced_failure_recovery_exact [of "[CallError ''p'' 500 1]" "''p''" "replicate 6 (CallSuccess ''p'' 100000000 9)" 3 20]
  by (simp add: is_int64_def numeral_eq_Suc del: perform_call.simps)

text \<open>
  The latency average of a provider stays within the latencies observed for it, to one
  part in a million millions: rounding never accumulates, however many samples there are.
\<close>
theorem latency_average_in_observed_range:
  assumes "list_all (is_success_for p) es" and "list_all call_ok es" and "es \<noteq> []"
    and "list_all (\<lambda>c. lo \<le> observed c \<and> observed c \<le> hi) es"
    and "0 \<le> lo" and "1 \<le> hi" and "hi \<le> 2 ^ 44"
  shows "\<exists>l. fst (view (fold perform_call es NewEWMAMonitor) p) = Fin l
           \<and> lo - hi / 10 ^ 12 \<le> l \<and> l \<le> hi + hi / 10 ^ 12"
proof -
  have hi: "hi \<le> max_latency" using assms(7) by (simp add: max_latency_def)
  have v: "view (fold perform_call es NewEWMAMonitor) p = fold abstract_call es (Fin 0, Fin 0)"
    using view_run [OF NewEWMAMonitor_wf assms(2), of p] assms(1)
    by (simp add: filter_provider_all view_def NewEWMAMonitor_def zero_float64_def)
  from fold_successes [OF assms(1,2,4,5,6) hi, of 0 0] assms(3)
  obtain l where "fold abstract_call es (Fin 0, Fin 0) = (Fin l, Fin ((err_down ^^ length es) 0))"
    and "within_latencies lo hi l" by auto
  then show ?thesis by (simp add: v within_latencies_def lat_slack_def)
qed

theorem latency_average_in_observed_range_witness:
  "\<exists>l. fst (view (fold perform_call [CallSuccess ''p'' 100000000 9, CallSuccess ''p'' 250000000 11] NewEWMAMonitor) ''p'') = Fin l
     \<and> 100 - 250 / 10 ^ 12 \<le> l \<and> l \<le> 250 + 250 / 10 ^ 12"
  by (rule latency_average_in_observed_range)
    (simp_all add: is_int64_def observed_def Milliseconds_def quot_def)

text \<open>
  C23: concurrent calls are serialisable: when the two critical sections of any number of
  calls interleave in any order, the averages are those of the same calls run one after
  the other in the order in which they took the entry's lock.
\<close>
theorem interleaved_calls_serialise:
  assumes "interleaving {#} es" and "list_all call_ok (entered es)"
  shows "view (fold lock_step es NewEWMAMonitor) = view (fold perform_call (entered es) NewEWMAMonitor)"
  using run_interleaving [OF assms(1) NewEWMAMonitor_wf assms(2)] by simp

theorem interleaved_calls_serialise_witness:
  "view (fold lock_step [Fetch (CallError ''p'' 500 1), Fetch (CallSuccess ''p'' 100000000 2),
       Enter (CallSuccess ''p'' 100000000 2), Enter (CallError ''p'' 500 1)] NewEWMAMonitor)
   = view (fold perform_call [CallSuccess ''p'' 100000000 2, CallError ''p'' 500 1] NewEWMAMonitor)"
  using interleaved_calls_serialise [of "[Fetch (CallError ''p'' 500 1), Fetch (CallSuccess ''p'' 100000000 2),
       Enter (CallSuccess ''p'' 100000000 2), Enter (CallError ''p'' 500 1)]"]
  by (simp add: is_int64_def del: lock_step.simps perform_call.simps)

text \<open>
  Only a recorded success brings a provider back: once out of service it stays out
  through any run of errors, forced failures, queries and calls for other providers.
\<close>
theorem unhealthy_until_success:
  assumes "list_all call_ok cs" and "list_all call_ok es" and "list_all (\<lambda>c. \<not> is_success_for p c) es"
    and "fst (GetState (fold perform_call cs NewEWMAMonitor) p now) = StateUnhealthy"
  shows "fst (GetState (fold perform_call es (fold perform_call cs NewEWMAMonitor)) p later) = StateUnhealthy"
  using ewma.unhealthy_sticky [OF ewma.inv_fold [OF NewEWMAMonitor_wf assms(1)] assms(2,3)] assms(4)
  by (simp add: fst_GetState_state)

theorem unhealthy_until_success_witness:
  "fst (GetState (fold perform_call [CallSuccess ''q'' 5 6, CallGetState ''p'' 8]
     (fold perform_call [CallForceFailure ''p'' 3] NewEWMAMonitor)) ''p'' 20) = StateUnhealthy"
  by (rule unhealthy_until_success [where now = 4])
    (simp_all add: is_int64_def ForceFailure_def with_metrics_def getMetrics_def NewEWMAMonitor_def Let_def
      failure_section_def GetState_def state_of_metrics_def thresholds one_float64_def)

end
