(* ===== verification/Rate_Limit.thy ===== *)
theory Rate_Limit
  imports Go_Time
begin

text \<open>
  \<open>internal/ratelimit/ratelimit.go\<close>: the local token bucket of each tenant, and one tick
  of the background synchronisation with its Lua script. The bucket arithmetic is in
  binary64. The clock readings a call makes are its arguments: \<open>t0\<close> when it creates a
  bucket, \<open>t1\<close> for the refill.
\<close>

section \<open>Data\<close>

record Result =
  Allowed :: bool
  Limit :: int
  Remaining :: int
  ResetAt :: "instant option"
  RetryAfter :: duration

record localBucket =
  tokens :: float64
  last :: instant

record TokenBucket =
  buckets :: "string \<rightharpoonup> localBucket"
  syncInterval :: duration

definition NewTokenBucket :: "duration \<Rightarrow> TokenBucket" where
  "NewTokenBucket interval = \<lparr>buckets = Map.empty, syncInterval = interval\<rparr>"

section \<open>Allow\<close>

definition initial_tokens :: "int \<Rightarrow> float64" where
  "initial_tokens limit =
     (let initialTokens = float64_of_int limit / f64 10
      in if initialTokens < 1 then 1 else initialTokens)"

definition bucket_of :: "TokenBucket \<Rightarrow> string \<Rightarrow> int \<Rightarrow> instant \<Rightarrow> localBucket" where
  "bucket_of tb tenantID limit t0 =
     (case buckets tb tenantID of
        Some b \<Rightarrow> b
      | None \<Rightarrow> \<lparr>tokens = initial_tokens limit, last = t0\<rparr>)"

definition refill :: "localBucket \<Rightarrow> int \<Rightarrow> instant \<Rightarrow> localBucket" where
  "refill bucket limit now =
     (let refillRate = float64_of_int limit / f64 60;
          elapsed = Seconds (time_Sub now (last bucket));
          tokens1 = tokens bucket + elapsed * refillRate;
          tokens2 = (if float64_of_int limit < tokens1 then float64_of_int limit else tokens1)
      in bucket\<lparr>tokens := tokens2, last := now\<rparr>)"

definition Allow ::
  "TokenBucket \<Rightarrow> string \<Rightarrow> int \<Rightarrow> instant \<Rightarrow> instant \<Rightarrow> Result go_result \<times> TokenBucket" where
  "Allow tb tenantID limit t0 t1 =
     (let bucket = refill (bucket_of tb tenantID limit t0) limit t1
      in if 1 \<le> tokens bucket then
           let bucket' = bucket\<lparr>tokens := tokens bucket - 1\<rparr>
           in (Inr \<lparr>Allowed = True, Limit = limit, Remaining = int_of_float64 (tokens bucket'),
                    ResetAt = None, RetryAfter = 0\<rparr>,
               tb\<lparr>buckets := (buckets tb)(tenantID \<mapsto> bucket')\<rparr>)
         else
           (Inr \<lparr>Allowed = False, Limit = limit, Remaining = 0, ResetAt = None, RetryAfter = Second\<rparr>,
            tb\<lparr>buckets := (buckets tb)(tenantID \<mapsto> bucket)\<rparr>))"

definition admits :: "Result go_result \<Rightarrow> bool" where
  "admits r = (case r of Inl _ \<Rightarrow> False | Inr res \<Rightarrow> Allowed res)"

section \<open>One tick of the background synchronisation\<close>

text \<open>
  The Redis commands the script calls are parameters: \<open>INCRBYFLOAT\<close> returns the new
  value, \<open>EXPIRE\<close> sets a time to live.
\<close>

record 'r redis_commands =
  INCRBYFLOAT :: "string \<Rightarrow> float64 \<Rightarrow> 'r \<Rightarrow> float64 \<times> 'r"
  EXPIRE :: "string \<Rightarrow> int \<Rightarrow> 'r \<Rightarrow> 'r"

text \<open>The body of the script's loop, for the key at position \<open>i\<close> (from 0 here).\<close>

definition script_body ::
  "'r redis_commands \<Rightarrow> string list \<Rightarrow> float64 list \<Rightarrow> nat \<Rightarrow> 'r \<Rightarrow> float64 \<times> 'r" where
  "script_body redis KEYS ARGV i r =
     (let usage = ARGV ! i;
          limit = ARGV ! (i + length KEYS);
          (current_usage, r1) = INCRBYFLOAT redis (''rl:usage:'' @ KEYS ! i) usage r;
          r2 = EXPIRE redis (''rl:usage:'' @ KEYS ! i) 60 r1
      in (limit - current_usage, r2))"

fun script_loop ::
  "'r redis_commands \<Rightarrow> string list \<Rightarrow> float64 list \<Rightarrow> nat list \<Rightarrow> 'r \<Rightarrow> float64 list \<times> 'r" where
  "script_loop redis KEYS ARGV [] r = ([], r)"
| "script_loop redis KEYS ARGV (i # is) r =
     (let (x, r1) = script_body redis KEYS ARGV i r;
          (xs, r2) = script_loop redis KEYS ARGV is r1
      in (x # xs, r2))"

definition sync_script ::
  "'r redis_commands \<Rightarrow> string list \<Rightarrow> float64 list \<Rightarrow> 'r \<Rightarrow> float64 list \<times> 'r" where
  "sync_script redis KEYS ARGV r = script_loop redis KEYS ARGV [0..<length KEYS] r"

text \<open>
  \<open>redis.Eval\<close> under the deadline of 200 milliseconds: the script runs and its answer arrives;
  it runs and the answer is lost; or it breaks off after some turns of its loop, at a key that
  Redis refuses (another type, another node of a cluster, no memory), after none when the
  server was not reached or refused the script. What a script has done before it breaks off
  stays done.
\<close>

datatype eval_outcome = Answered_in_time | Answer_lost go_error | Broke_off nat go_error

fun ran_through :: "eval_outcome \<Rightarrow> bool" where
  "ran_through (Broke_off n err) = False"
| "ran_through out = True"

definition Eval ::
  "'r redis_commands \<Rightarrow> eval_outcome \<Rightarrow> string list \<Rightarrow> float64 list \<Rightarrow> 'r \<Rightarrow> float64 list go_result \<times> 'r" where
  "Eval redis out KEYS ARGV r =
     (case out of
        Answered_in_time \<Rightarrow> (let (xs, r') = sync_script redis KEYS ARGV r in (Inr xs, r'))
      | Answer_lost err \<Rightarrow> (Inl err, snd (sync_script redis KEYS ARGV r))
      | Broke_off n err \<Rightarrow> (Inl err, snd (script_loop redis KEYS ARGV (take n [0..<length KEYS]) r)))"

text \<open>
  A tick: \<open>keys\<close> enumerates the snapshot in the order the map gives. What \<open>Eval\<close> returns,
  results or error, is discarded.
\<close>

definition sync_args :: "string list \<Rightarrow> float64 list" where
  "sync_args keys = map (\<lambda>_. f64 1) keys @ map (\<lambda>_. f64 1000) keys"

definition backgroundSync_tick ::
  "'r redis_commands \<Rightarrow> eval_outcome \<Rightarrow> string list \<Rightarrow> TokenBucket \<times> 'r \<Rightarrow> TokenBucket \<times> 'r" where
  "backgroundSync_tick redis out keys s =
     (case s of (tb, r) \<Rightarrow>
        if keys = [] then (tb, r)
        else (let (discarded, r') = Eval redis out keys (sync_args keys) r in (tb, r')))"

section \<open>Refill on finite values\<close>

definition rate64 :: "int \<Rightarrow> rat" where
  "rate64 limit = rnd (of_int limit / 60)"

definition gain64 :: "int \<Rightarrow> duration \<Rightarrow> rat" where
  "gain64 limit d = rnd (seconds_rat d * rate64 limit)"

definition refilled :: "int \<Rightarrow> duration \<Rightarrow> rat \<Rightarrow> rat" where
  "refilled limit d x = min (of_int limit) (rnd (x + gain64 limit d))"

text \<open>The limits the tenants table can hold, a PostgreSQL \<open>INTEGER\<close>.\<close>

definition sane_limit :: "int \<Rightarrow> bool" where
  "sane_limit limit \<longleftrightarrow> 1 \<le> limit \<and> limit < 2 ^ 31"

lemma float64_limit: "\<bar>n\<bar> \<le> 2 ^ 53 \<Longrightarrow> float64_of_int n = Fin (of_int n)"
proof -
  assume n: "\<bar>n\<bar> \<le> 2 ^ 53"
  then have "\<bar>of_int n :: rat\<bar> \<le> of_int (2 ^ 53)" by (subst of_int_abs [symmetric], subst of_int_le_iff)
  then have "\<bar>of_int n :: rat\<bar> \<le> 10 ^ 30" by simp
  with n show ?thesis by (simp add: float64_of_int_def f64_Fin rnd_of_int)
qed

lemma small_constants: "f64 10 = Fin 10" "f64 60 = Fin 60" "f64 1 = Fin 1" "f64 1000 = Fin 1000"
  by (simp_all add: f64_Fin rnd_numeral)

lemma limit_rat:
  assumes "sane_limit limit"
  shows "1 \<le> (of_int limit :: rat)" "(of_int limit :: rat) \<le> 2147483648"
    and "float64_of_int limit = Fin (of_int limit)" "rnd (of_int limit) = of_int limit"
proof -
  have l: "1 \<le> limit" "limit \<le> 2147483648" using assms by (simp_all add: sane_limit_def)
  show "1 \<le> (of_int limit :: rat)" using l(1) by simp
  show "(of_int limit :: rat) \<le> 2147483648" using l(2) by simp
  show "float64_of_int limit = Fin (of_int limit)" "rnd (of_int limit) = of_int limit"
    using l by (simp_all add: float64_limit rnd_of_int)
qed

lemma rate64_bounds:
  assumes "sane_limit limit" shows "0 \<le> rate64 limit" "rate64 limit \<le> of_int limit"
  using limit_rat [OF assms] rnd_mono [of 0 "of_int limit / 60"] rnd_mono [of "of_int limit / 60" "of_int limit"]
  by (simp_all add: rate64_def)

lemma gain64_bounds:
  assumes "sane_limit limit" "0 \<le> d" "is_int64 d"
  shows "0 \<le> seconds_rat d * rate64 limit" "seconds_rat d * rate64 limit \<le> 10 ^ 20"
    and "0 \<le> gain64 limit d" "gain64 limit d \<le> 2 * 10 ^ 20"
proof -
  note s = Seconds_nonneg [OF assms(2,3)] and r = rate64_bounds [OF assms(1)] and l = limit_rat [OF assms(1)]
  show p: "0 \<le> seconds_rat d * rate64 limit" using s r by simp
  have "rate64 limit \<le> 10 ^ 10" using r l by simp
  then show q: "seconds_rat d * rate64 limit \<le> 10 ^ 20"
    using mult_mono [of "seconds_rat d" "10 ^ 10" "rate64 limit" "10 ^ 10"] s r by simp
  show "0 \<le> gain64 limit d" using p by (simp add: gain64_def rnd_nonneg)
  have "\<bar>gain64 limit d - seconds_rat d * rate64 limit\<bar> \<le> (10 ^ 20 + 1) * unit_roundoff"
    unfolding gain64_def using p q by (intro rnd_within_scaled [of _ "10 ^ 20"]) auto
  then show "gain64 limit d \<le> 2 * 10 ^ 20" using q unfolding abs_le_iff unit_roundoff_def by simp
qed

lemma refill_Fin:
  assumes "sane_limit limit" "tokens b = Fin x" "0 \<le> x" "x \<le> 10 ^ 20" "last b \<le> now"
  shows "refill b limit now = \<lparr>tokens = Fin (refilled limit (time_Sub now (last b)) x), last = now\<rparr>"
proof -
  let ?d = "time_Sub now (last b)"
  have d: "0 \<le> ?d" "is_int64 ?d" using assms(5) by (simp_all add: time_Sub_nonneg)
  note l = limit_rat [OF assms(1)] and g = gain64_bounds [OF assms(1) d]
  have "\<bar>of_int limit / 60 :: rat\<bar> \<le> 10 ^ 30" using l by simp
  then have "float64_of_int limit / f64 60 = Fin (rate64 limit)"
    by (simp add: l small_constants f64_Fin rate64_def)
  moreover have "Seconds ?d = Fin (seconds_rat ?d)" using Seconds_nonneg [OF d] by simp
  moreover have "\<bar>seconds_rat ?d * rate64 limit\<bar> \<le> 10 ^ 30" using g by (simp add: abs_le_iff)
  moreover have "\<bar>x + gain64 limit ?d\<bar> \<le> 10 ^ 30" using g assms(3,4) by (simp add: abs_le_iff)
  ultimately show ?thesis
    using assms(2) l by (auto simp: refill_def Let_def refilled_def f64_Fin gain64_def min_def)
qed

end
