(* ===== verification/Rate_Limit_Correct.thy ===== *)
theory Rate_Limit_Correct
  imports Rate_Limit
begin

text \<open>
  Facts behind the properties of the limiter: how far the binary64 refill can be from the
  exact one, the invariant of the buckets, and the accounting argument that bounds what a
  tenant can be admitted.
\<close>

section \<open>The refill against the exact rate\<close>

definition exact_seconds :: "duration \<Rightarrow> rat" where
  "exact_seconds d = of_int d / 1000000000"

lemma unit_roundoff_small: "unit_roundoff \<le> 1 / 10 ^ 15" "unit_roundoff \<le> 1 / 8"
  by (simp_all add: unit_roundoff_def)

lemma exact_seconds_split:
  "exact_seconds d = of_int (d div Second) + of_int (d mod Second) / of_int Second"
proof -
  have "(of_int d :: rat) = of_int (d div Second * Second + d mod Second)" by (simp only: div_mult_mod_eq)
  then have "(of_int d :: rat) = of_int (d div Second) * of_int Second + of_int (d mod Second)"
    by (simp only: of_int_add of_int_mult)
  moreover have "of_int Second = (1000000000 :: rat)" by (simp add: Second_def)
  ultimately show ?thesis by (simp add: exact_seconds_def field_simps)
qed

lemma seconds_rat_error:
  assumes "0 \<le> d"
  shows "\<bar>seconds_rat d - exact_seconds d\<bar> \<le> (exact_seconds d + 5) * unit_roundoff"
proof -
  let ?s = "of_int (d div Second) :: rat" and ?f = "of_int (d mod Second) / of_int Second :: rat"
  have n: "0 \<le> d mod Second" "d mod Second < Second" by (simp_all add: Second_def)
  then have f: "0 \<le> ?f" "?f \<le> 1" by (simp_all add: Second_def)
  have s: "0 \<le> ?s" using assms by (simp add: Second_def pos_imp_zdiv_nonneg_iff)
  have r: "0 \<le> rnd ?f" "rnd ?f \<le> 1" using rnd_mono [OF f(1)] rnd_mono [OF f(2)] by simp_all
  have e1: "\<bar>rnd ?f - ?f\<bar> \<le> 2 * unit_roundoff" using f by (intro rnd_within_scaled) auto
  have e2: "\<bar>seconds_rat d - (?s + rnd ?f)\<bar> \<le> (?s + 2) * unit_roundoff"
    unfolding seconds_rat_def using s r by (intro rnd_within_scaled) auto
  have "(?s + 2) * unit_roundoff + 2 * unit_roundoff \<le> (exact_seconds d + 5) * unit_roundoff"
    using f by (simp add: exact_seconds_split distrib_right [symmetric] mult_right_mono less_imp_le)
  then show ?thesis using e1 e2 unfolding exact_seconds_split abs_le_iff by linarith
qed

lemma rate64_error:
  assumes "sane_limit limit"
  shows "\<bar>rate64 limit - of_int limit / 60\<bar> \<le> of_int limit / 60 * (2 * unit_roundoff)"
proof -
  note l = limit_rat [OF assms]
  have "underflow_unit \<le> unit_roundoff * (1 / 60)"
  proof -
    have "underflow_unit \<le> 2 powi (- 100)"
      unfolding underflow_unit_def by (subst two_powi_le_iff) simp
    also have "\<dots> \<le> unit_roundoff * (1 / 60)" by (simp add: unit_roundoff_def)
    finally show ?thesis .
  qed
  also have "\<dots> \<le> unit_roundoff * (of_int limit / 60)"
    using l by (intro mult_left_mono) (auto simp: less_imp_le)
  finally have "underflow_unit \<le> of_int limit / 60 * unit_roundoff" by (simp add: mult.commute)
  moreover have "\<bar>rate64 limit - of_int limit / 60\<bar> \<le> \<bar>of_int limit / 60\<bar> * unit_roundoff + underflow_unit"
    unfolding rate64_def by (rule rnd_error)
  moreover have "\<bar>of_int limit / 60 :: rat\<bar> = of_int limit / 60" using l by simp
  ultimately show ?thesis by linarith
qed

text \<open>The credit a refill grants is the exact one up to a relative and an absolute slack.\<close>

lemma gain64_upper:
  assumes "sane_limit limit" "0 \<le> d" "is_int64 d"
  shows "gain64 limit d \<le> of_int limit / 60 * (exact_seconds d * (1 + 8 * unit_roundoff) + 9 * unit_roundoff)"
proof -
  define S where "S = exact_seconds d"
  define R where "R = (of_int limit / 60 :: rat)"
  define u where "u = unit_roundoff"
  have S: "0 \<le> S" using assms(2) by (simp add: S_def exact_seconds_def)
  have R: "1 / 60 \<le> R" using limit_rat [OF assms(1)] by (simp add: R_def)
  have u: "0 < u" "u \<le> 1 / 8" using unit_roundoff_small by (simp_all add: u_def)
  have Su: "0 \<le> S * u" using S u by simp
  have s: "seconds_rat d \<le> S + (S + 5) * u" "0 \<le> seconds_rat d"
    using seconds_rat_error [OF assms(2)] Seconds_nonneg [OF assms(2,3)]
    unfolding S_def u_def abs_le_iff by linarith+
  have r: "rate64 limit \<le> R * (1 + 2 * u)" "0 \<le> rate64 limit"
    using rate64_error [OF assms(1)] rate64_bounds [OF assms(1)]
    unfolding R_def [symmetric] u_def [symmetric] abs_le_iff by (simp_all add: distrib_left)
  have p: "seconds_rat d * rate64 limit \<le> (S + (S + 5) * u) * (R * (1 + 2 * u))"
    using s r S u by (intro mult_mono) auto
  also have "\<dots> = R * (S + S * (3 * u) + 5 * u + (S + 5) * (2 * (u * u)))"
    by (simp add: algebra_simps)
  also have "\<dots> \<le> R * (S + S * (3 * u) + 5 * u + (S + 5) * (2 * (u * (1 / 8))))"
    using R S u by (intro mult_left_mono add_left_mono) auto
  also have "\<dots> \<le> R * (S + S * (4 * u) + 7 * u)"
    using R S u by (intro mult_left_mono) (auto simp: algebra_simps)
  finally have q: "seconds_rat d * rate64 limit \<le> R * (S + S * (4 * u) + 7 * u)" .
  have nn: "0 \<le> seconds_rat d * rate64 limit" using s r by simp
  have "underflow_unit \<le> u * (1 / 60)"
  proof -
    have "underflow_unit \<le> 2 powi (- 100)"
      unfolding underflow_unit_def by (subst two_powi_le_iff) simp
    also have "\<dots> \<le> u * (1 / 60)" by (simp add: u_def unit_roundoff_def)
    finally show ?thesis .
  qed
  also have "\<dots> \<le> R * u" using R u by (simp add: mult.commute)
  finally have eta: "underflow_unit \<le> R * u" .
  have "gain64 limit d \<le> seconds_rat d * rate64 limit + (seconds_rat d * rate64 limit * u + underflow_unit)"
    using rnd_error [of "seconds_rat d * rate64 limit"] nn
    unfolding gain64_def u_def [symmetric] abs_le_iff by simp
  also have "\<dots> = seconds_rat d * rate64 limit * (1 + u) + underflow_unit" by (simp add: algebra_simps)
  also have "\<dots> \<le> R * (S + S * (4 * u) + 7 * u) * (1 + u) + R * u"
    using q u eta by (intro add_mono mult_right_mono) auto
  also have "\<dots> = R * (S + S * (5 * u) + 8 * u + (S * 4 + 7) * (u * u))" by (simp add: algebra_simps)
  also have "\<dots> \<le> R * (S + S * (5 * u) + 8 * u + (S * 4 + 7) * (u * (1 / 8)))"
    using R S u by (intro mult_left_mono add_left_mono) auto
  also have "\<dots> \<le> R * (S * (1 + 8 * u) + 9 * u)"
  proof (rule mult_left_mono)
    show "S + S * (5 * u) + 8 * u + (S * 4 + 7) * (u * (1 / 8)) \<le> S * (1 + 8 * u) + 9 * u"
      using Su u(1) by (simp add: algebra_simps)
  qed (use R in simp)
  finally show ?thesis by (simp add: R_def S_def u_def)
qed

text \<open>The allowance per nanosecond, and the slack of one request.\<close>

definition accrual :: "int \<Rightarrow> rat" where
  "accrual limit = of_int limit / 60 / 1000000000 * (1 + 8 * unit_roundoff)"

definition request_slack :: "int \<Rightarrow> rat" where
  "request_slack limit = of_int limit * (8 * unit_roundoff)"

lemma accrual_nonneg: "sane_limit limit \<Longrightarrow> 0 \<le> accrual limit"
  by (simp add: accrual_def sane_limit_def less_imp_le)

lemma refilled_upper:
  assumes "sane_limit limit" "0 \<le> d" "is_int64 d" "0 \<le> x"
  shows "refilled limit d x \<le> x + accrual limit * of_int d + of_int limit * (5 * unit_roundoff)"
proof -
  let ?L = "of_int limit :: rat" and ?u = unit_roundoff
  note l = limit_rat [OF assms(1)]
  have g: "gain64 limit d \<le> accrual limit * of_int d + ?L / 60 * (9 * ?u)"
  proof -
    have "?L / 60 * (exact_seconds d * (1 + 8 * ?u)) = accrual limit * of_int d"
      by (simp add: accrual_def exact_seconds_def)
    then show ?thesis using gain64_upper [OF assms(1-3)] by (simp only: distrib_left)
  qed
  have g0: "0 \<le> gain64 limit d" using gain64_bounds [OF assms(1-3)] by simp
  have "refilled limit d x \<le> x + gain64 limit d + ?L * (4 * ?u)"
  proof (cases "x + gain64 limit d \<le> 2 * ?L")
    case True
    then have "\<bar>rnd (x + gain64 limit d) - (x + gain64 limit d)\<bar> \<le> (4 * ?L) * ?u"
      using g0 assms(4) l by (intro rnd_within_scaled [of _ "2 * ?L"]) auto
    then show ?thesis unfolding refilled_def abs_le_iff by (simp add: min_le_iff_disj algebra_simps)
  next
    case False
    then have "?L \<le> x + gain64 limit d" using l by linarith
    moreover have "0 \<le> ?L * (4 * ?u)" using l by (simp add: less_imp_le)
    ultimately show ?thesis unfolding refilled_def by linarith
  qed
  moreover have "0 \<le> ?L * ?u" using l by (simp add: less_imp_le)
  ultimately show ?thesis using g by (simp add: algebra_simps)
qed

section \<open>Buckets of a tenant served at one limit\<close>

text \<open>The exact content of a bucket after one call, and whether the call is admitted.\<close>

definition after_call :: "int \<Rightarrow> rat \<Rightarrow> rat" where
  "after_call limit X = (if 1 \<le> X then rnd (X - 1) else X)"

lemma after_call_bounds:
  assumes "sane_limit limit" "0 \<le> X" "X \<le> of_int limit"
  shows "0 \<le> after_call limit X" "after_call limit X \<le> of_int limit"
    and "after_call limit X + (if 1 \<le> X then 1 else 0) \<le> X + of_int limit * (3 * unit_roundoff)"
proof -
  note l = limit_rat [OF assms(1)]
  show "0 \<le> after_call limit X" using assms(2) by (simp add: after_call_def rnd_nonneg)
  show "after_call limit X \<le> of_int limit"
    using assms rnd_mono [of "X - 1" "of_int limit"] l by (auto simp: after_call_def)
  have "1 \<le> X \<Longrightarrow> \<bar>rnd (X - 1) - (X - 1)\<bar> \<le> (2 * of_int limit) * unit_roundoff"
    using assms l by (intro rnd_within_scaled [of _ "of_int limit"]) auto
  moreover have "0 \<le> of_int limit * unit_roundoff" using l by (simp add: less_imp_le)
  ultimately show "after_call limit X + (if 1 \<le> X then 1 else 0) \<le> X + of_int limit * (3 * unit_roundoff)"
    unfolding after_call_def abs_le_iff by (auto simp: algebra_simps)
qed

definition initial64 :: "int \<Rightarrow> rat" where
  "initial64 limit = max 1 (rnd (of_int limit / 10))"

lemma initial64_bounds:
  assumes "sane_limit limit"
  shows "initial_tokens limit = Fin (initial64 limit)" "0 \<le> initial64 limit" "initial64 limit \<le> of_int limit"
    and "initial64 limit \<le> max 1 (of_int limit / 10) + of_int limit * (2 * unit_roundoff)"
proof -
  note l = limit_rat [OF assms]
  have "\<bar>of_int limit / 10 :: rat\<bar> \<le> 10 ^ 30" using l by simp
  then show "initial_tokens limit = Fin (initial64 limit)"
    using l by (auto simp: initial_tokens_def small_constants f64_Fin initial64_def one_float64_def max_def Let_def)
  show "0 \<le> initial64 limit" by (simp add: initial64_def)
  show "initial64 limit \<le> of_int limit"
    using l rnd_mono [of "of_int limit / 10" "of_int limit"] by (simp add: initial64_def)
  have "\<bar>rnd (of_int limit / 10) - of_int limit / 10\<bar> \<le> (2 * of_int limit) * unit_roundoff"
    using l by (intro rnd_within_scaled [of _ "of_int limit / 10"]) auto
  moreover have "0 \<le> of_int limit * unit_roundoff" using l by (simp add: less_imp_le)
  ultimately show "initial64 limit \<le> max 1 (of_int limit / 10) + of_int limit * (2 * unit_roundoff)"
    unfolding initial64_def abs_le_iff by (auto simp: max_def algebra_simps)
qed

text \<open>
  Invariant of the limiter at clock reading \<open>c\<close>: every bucket holds a finite, non-negative
  content that no limit of the table exceeds, and was last touched no later than \<open>c\<close>.
\<close>

definition bucket_wf :: "instant \<Rightarrow> localBucket \<Rightarrow> bool" where
  "bucket_wf c b \<longleftrightarrow> (\<exists>x. tokens b = Fin x \<and> 0 \<le> x \<and> x \<le> 2 ^ 31) \<and> last b \<le> c"

definition limiter_wf :: "instant \<Rightarrow> TokenBucket \<Rightarrow> bool" where
  "limiter_wf c tb \<longleftrightarrow> (\<forall>tid b. buckets tb tid = Some b \<longrightarrow> bucket_wf c b)"

lemma NewTokenBucket_wf: "limiter_wf c (NewTokenBucket i)"
  by (simp add: limiter_wf_def NewTokenBucket_def)

lemma limiter_wf_later: "limiter_wf c tb \<Longrightarrow> c \<le> c' \<Longrightarrow> limiter_wf c' tb"
  by (fastforce simp: limiter_wf_def bucket_wf_def)

text \<open>What one call does, in exact arithmetic on the rounded values.\<close>

definition content :: "TokenBucket \<Rightarrow> string \<Rightarrow> int \<Rightarrow> rat" where
  "content tb tid limit =
     (case buckets tb tid of Some b \<Rightarrow> (case tokens b of Fin x \<Rightarrow> x | _ \<Rightarrow> 0) | None \<Rightarrow> initial64 limit)"

definition touched :: "TokenBucket \<Rightarrow> string \<Rightarrow> instant \<Rightarrow> instant" where
  "touched tb tid t0 = (case buckets tb tid of Some b \<Rightarrow> last b | None \<Rightarrow> t0)"

lemma bucket_of_wf:
  assumes "limiter_wf c tb" "sane_limit limit" "c \<le> t0"
  shows "bucket_of tb tid limit t0 = \<lparr>tokens = Fin (content tb tid limit), last = touched tb tid t0\<rparr>"
    and "0 \<le> content tb tid limit" "content tb tid limit \<le> 2 ^ 31" "touched tb tid t0 \<le> t0"
proof -
  have i: "0 \<le> initial64 limit" "initial64 limit \<le> 2 ^ 31"
    using initial64_bounds [OF assms(2)] limit_rat [OF assms(2)] by simp_all
  show "bucket_of tb tid limit t0 = \<lparr>tokens = Fin (content tb tid limit), last = touched tb tid t0\<rparr>"
    using assms initial64_bounds(1) [OF assms(2)]
    by (fastforce simp: bucket_of_def content_def touched_def limiter_wf_def bucket_wf_def split: option.split)
  show "0 \<le> content tb tid limit" "content tb tid limit \<le> 2 ^ 31" "touched tb tid t0 \<le> t0"
    using assms i
    by (fastforce simp: content_def touched_def limiter_wf_def bucket_wf_def split: option.split)+
qed

definition offered :: "TokenBucket \<Rightarrow> string \<Rightarrow> int \<Rightarrow> instant \<Rightarrow> instant \<Rightarrow> rat" where
  "offered tb tid limit t0 t1 = refilled limit (time_Sub t1 (touched tb tid t0)) (content tb tid limit)"

lemma Allow_wf:
  fixes tid :: string
  assumes "limiter_wf c tb" "sane_limit limit" "c \<le> t0" "t0 \<le> t1"
  defines "X \<equiv> offered tb tid limit t0 t1"
  shows "admits (fst (Allow tb tid limit t0 t1)) \<longleftrightarrow> 1 \<le> X"
    and "snd (Allow tb tid limit t0 t1)
       = tb\<lparr>buckets := (buckets tb)(tid \<mapsto> \<lparr>tokens = Fin (after_call limit X), last = t1\<rparr>)\<rparr>"
    and "0 \<le> X" "X \<le> of_int limit"
proof -
  note b = bucket_of_wf [OF assms(1-3), of tid]
  let ?d = "time_Sub t1 (touched tb tid t0)"
  have d: "0 \<le> ?d" "is_int64 ?d" using b(4) assms(4) by (simp_all add: time_Sub_nonneg)
  have c: "content tb tid limit \<le> 10 ^ 20" using b(3) by simp
  have r: "refill (bucket_of tb tid limit t0) limit t1 = \<lparr>tokens = Fin X, last = t1\<rparr>"
    using refill_Fin [OF assms(2), of "bucket_of tb tid limit t0" "content tb tid limit" t1] b c assms(4)
    by (simp add: X_def offered_def)
  have "0 \<le> rnd (content tb tid limit + gain64 limit ?d)"
    using b(2) gain64_bounds [OF assms(2) d] by (intro rnd_nonneg) simp
  then show X: "0 \<le> X" "X \<le> of_int limit"
    using limit_rat [OF assms(2)] by (simp_all add: X_def offered_def refilled_def)
  have "\<bar>X - 1\<bar> \<le> 10 ^ 30" using X limit_rat [OF assms(2)] by (simp add: abs_le_iff)
  then show "admits (fst (Allow tb tid limit t0 t1)) \<longleftrightarrow> 1 \<le> X"
    and "snd (Allow tb tid limit t0 t1)
       = tb\<lparr>buckets := (buckets tb)(tid \<mapsto> \<lparr>tokens = Fin (after_call limit X), last = t1\<rparr>)\<rparr>"
    by (auto simp: Allow_def r one_float64_def f64_Fin after_call_def admits_def Let_def)
qed

lemma Allow_preserves_wf:
  assumes "limiter_wf c tb" "sane_limit limit" "c \<le> t0" "t0 \<le> t1"
  shows "limiter_wf t1 (snd (Allow tb tid limit t0 t1))"
proof -
  note a = Allow_wf [OF assms, of tid]
  have "after_call limit (offered tb tid limit t0 t1) \<le> 2 ^ 31"
    using after_call_bounds(2) [OF assms(2) a(3,4)] limit_rat [OF assms(2)] by simp
  then show ?thesis
    using limiter_wf_later [OF assms(1), of t1] assms(3,4) after_call_bounds(1) [OF assms(2) a(3,4)]
    by (auto simp: a(2) limiter_wf_def bucket_wf_def)
qed

lemma Allow_other:
  "tid \<noteq> tid' \<Longrightarrow> buckets (snd (Allow tb tid limit t0 t1)) tid' = buckets tb tid'"
  by (simp add: Allow_def Let_def)

section \<open>Sequences of requests\<close>

text \<open>
  A request is a tenant, the limit its record holds and the two clock readings. The mutex
  orders the calls, and the clock is monotonic.
\<close>

record rl_request =
  tenant_of :: string
  limit_of :: int
  created_at :: instant
  checked_at :: instant

definition serve :: "TokenBucket \<Rightarrow> rl_request \<Rightarrow> Result go_result \<times> TokenBucket" where
  "serve tb r = Allow tb (tenant_of r) (limit_of r) (created_at r) (checked_at r)"

fun admitted :: "string \<Rightarrow> TokenBucket \<Rightarrow> rl_request list \<Rightarrow> nat" where
  "admitted tid tb [] = 0"
| "admitted tid tb (r # rs) =
     (let (res, tb') = serve tb r
      in (if tenant_of r = tid \<and> admits res then 1 else 0) + admitted tid tb' rs)"

fun after_requests :: "TokenBucket \<Rightarrow> rl_request list \<Rightarrow> TokenBucket" where
  "after_requests tb [] = tb"
| "after_requests tb (r # rs) = after_requests (snd (serve tb r)) rs"

fun timed :: "instant \<Rightarrow> rl_request list \<Rightarrow> bool" where
  "timed c [] = True"
| "timed c (r # rs) = (c \<le> created_at r \<and> created_at r \<le> checked_at r \<and> timed (checked_at r) rs)"

fun end_time :: "instant \<Rightarrow> rl_request list \<Rightarrow> instant" where
  "end_time c [] = c"
| "end_time c (r # rs) = end_time (checked_at r) rs"

definition limits_ok :: "string \<Rightarrow> int \<Rightarrow> rl_request list \<Rightarrow> bool" where
  "limits_ok tid L rs \<longleftrightarrow> list_all (\<lambda>r. sane_limit (limit_of r) \<and> (tenant_of r = tid \<longrightarrow> limit_of r = L)) rs"

lemma serve_wf:
  assumes "limiter_wf c tb" "sane_limit (limit_of r)" "c \<le> created_at r" "created_at r \<le> checked_at r"
  shows "limiter_wf (checked_at r) (snd (serve tb r))"
  unfolding serve_def using assms by (rule Allow_preserves_wf)

lemma end_time_mono: "timed c rs \<Longrightarrow> c \<le> end_time c rs"
proof (induction rs arbitrary: c)
  case (Cons r rs)
  then have "checked_at r \<le> end_time (checked_at r) rs" by simp
  with Cons.prems show ?case by simp
qed simp

lemma after_requests_wf:
  "limiter_wf c tb \<Longrightarrow> timed c rs \<Longrightarrow> limits_ok tid L rs \<Longrightarrow>
     limiter_wf (end_time c rs) (after_requests tb rs)"
  by (induction rs arbitrary: c tb) (auto simp: limits_ok_def intro: serve_wf)

text \<open>The credit a tenant can draw on at clock reading \<open>c\<close>.\<close>

definition credit :: "int \<Rightarrow> instant \<Rightarrow> TokenBucket \<Rightarrow> string \<Rightarrow> rat" where
  "credit L c tb tid =
     content tb tid L + accrual L * of_int (c - (case buckets tb tid of Some b \<Rightarrow> last b | None \<Rightarrow> c))"

lemma accrual_saturated:
  assumes "sane_limit L" "u \<le> t"
  shows "accrual L * of_int (time_Sub t u) \<le> accrual L * of_int (t - u)"
proof (rule mult_left_mono [OF _ accrual_nonneg [OF assms(1)]])
  have "time_Sub t u \<le> t - u" using assms(2) by (simp add: time_Sub_def saturate64_def)
  then show "(of_int (time_Sub t u) :: rat) \<le> of_int (t - u)" by (simp only: of_int_le_iff)
qed

text \<open>One call of the tenant uses its credit; calls of other tenants leave it to accrue.\<close>

lemma credit_own:
  assumes "limiter_wf c tb" "sane_limit L" "c \<le> t0" "t0 \<le> t1"
  shows "credit L t1 (snd (Allow tb tid L t0 t1)) tid + (if admits (fst (Allow tb tid L t0 t1)) then 1 else 0)
       \<le> credit L c tb tid + accrual L * of_int (t1 - c) + request_slack L"
proof -
  note a = Allow_wf [OF assms, of tid] and b = bucket_of_wf [OF assms(1-3), of tid]
  let ?u = "touched tb tid t0" and ?X = "offered tb tid L t0 t1"
  have d: "0 \<le> time_Sub t1 ?u" "is_int64 (time_Sub t1 ?u)" using b(4) assms(4) by (simp_all add: time_Sub_nonneg)
  have new: "credit L t1 (snd (Allow tb tid L t0 t1)) tid = after_call L ?X"
    by (simp add: a(2) credit_def content_def)
  have "?X \<le> content tb tid L + accrual L * of_int (time_Sub t1 ?u) + of_int L * (5 * unit_roundoff)"
    unfolding offered_def using assms(2) d b(2) by (rule refilled_upper)
  moreover have "accrual L * of_int (time_Sub t1 ?u) \<le> accrual L * of_int (t1 - ?u)"
    using b(4) assms(4) by (intro accrual_saturated [OF assms(2)]) simp
  moreover have "content tb tid L + accrual L * of_int (t1 - ?u) \<le> credit L c tb tid + accrual L * of_int (t1 - c)"
  proof (cases "buckets tb tid")
    case None
    have "accrual L * of_int (t1 - t0) \<le> accrual L * of_int (t1 - c)"
      using accrual_nonneg [OF assms(2)] assms(3) by (intro mult_left_mono) (simp_all only: of_int_le_iff)
    with None show ?thesis by (simp add: credit_def touched_def)
  next
    case (Some bkt)
    then show ?thesis by (simp add: credit_def touched_def algebra_simps)
  qed
  moreover have "after_call L ?X + (if 1 \<le> ?X then 1 else 0) \<le> ?X + of_int L * (3 * unit_roundoff)"
    using assms(2) a(3,4) by (rule after_call_bounds)
  ultimately show ?thesis by (simp add: new a(1) request_slack_def algebra_simps)
qed

lemma credit_other:
  assumes "tid \<noteq> tid'" "c \<le> t1" "sane_limit L"
  shows "credit L t1 (snd (Allow tb tid' limit t0 t1)) tid \<le> credit L c tb tid + accrual L * of_int (t1 - c)"
proof (cases "buckets tb tid")
  case None
  have "0 \<le> accrual L * of_int (t1 - c)" using accrual_nonneg [OF assms(3)] assms(2) by simp
  with None assms(1) show ?thesis by (simp add: credit_def content_def Allow_other)
next
  case (Some b)
  with assms(1) show ?thesis by (simp add: credit_def content_def Allow_other algebra_simps)
qed

lemma request_slack_nonneg: "sane_limit L \<Longrightarrow> 0 \<le> request_slack L"
  by (simp add: request_slack_def sane_limit_def less_imp_le)

lemma content_nonneg:
  assumes "limiter_wf c tb" "sane_limit L" shows "0 \<le> content tb tid L"
  using bucket_of_wf(2) [OF assms order_refl] .

lemma credit_nonneg:
  assumes "limiter_wf c tb" "sane_limit L" shows "0 \<le> credit L c tb tid"
proof -
  have "0 \<le> accrual L * of_int (c - (case buckets tb tid of Some b \<Rightarrow> last b | None \<Rightarrow> c))"
    using assms accrual_nonneg [OF assms(2)]
    by (intro mult_nonneg_nonneg) (auto simp: limiter_wf_def bucket_wf_def split: option.split)
  then show ?thesis using content_nonneg [OF assms] by (simp add: credit_def)
qed

text \<open>A bucket never offers more than the limit, so neither does the credit at the first use.\<close>

definition burst :: "int \<Rightarrow> instant \<Rightarrow> TokenBucket \<Rightarrow> string \<Rightarrow> rat" where
  "burst L c tb tid = min (of_int L) (credit L c tb tid)"

lemma burst_own:
  assumes "limiter_wf c tb" "sane_limit L" "c \<le> t0" "t0 \<le> t1"
  shows "burst L t1 (snd (Allow tb tid L t0 t1)) tid + (if admits (fst (Allow tb tid L t0 t1)) then 1 else 0)
       \<le> burst L c tb tid + accrual L * of_int (t1 - c) + request_slack L"
proof -
  note a = Allow_wf [OF assms, of tid]
  let ?X = "offered tb tid L t0 t1" and ?new = "snd (Allow tb tid L t0 t1)"
  have "after_call L ?X + (if 1 \<le> ?X then 1 else 0) \<le> ?X + of_int L * (3 * unit_roundoff)"
    using assms(2) a(3,4) by (rule after_call_bounds)
  moreover have "credit L t1 ?new tid = after_call L ?X"
    by (simp add: a(2) credit_def content_def)
  moreover have "of_int L * (3 * unit_roundoff) \<le> request_slack L"
    using assms(2) unfolding request_slack_def by (intro mult_left_mono) (auto simp: sane_limit_def less_imp_le)
  moreover have "0 \<le> accrual L * of_int (t1 - c)" using accrual_nonneg [OF assms(2)] assms(3,4) by simp
  moreover have "burst L t1 ?new tid \<le> credit L t1 ?new tid" by (simp add: burst_def)
  ultimately show ?thesis
    using credit_own [OF assms, of tid] a(1,4) unfolding burst_def [of L c tb] min_def by (auto split: if_splits)
qed

lemma burst_other:
  assumes "tid \<noteq> tid'" "c \<le> t1" "sane_limit L"
  shows "burst L t1 (snd (Allow tb tid' limit t0 t1)) tid \<le> burst L c tb tid + accrual L * of_int (t1 - c)"
  using credit_other [OF assms, of tb limit t0] accrual_nonneg [OF assms(3)] assms(2)
  by (auto simp: burst_def min_def intro: add_increasing2 split: if_splits)

lemma admitted_le_burst:
  assumes "limiter_wf c tb" "timed c rs" "limits_ok tid L rs" "sane_limit L"
  shows "of_nat (admitted tid tb rs)
       \<le> burst L c tb tid + accrual L * of_int (end_time c rs - c) + of_nat (length rs) * request_slack L"
  using assms(1-3)
proof (induction rs arbitrary: c tb)
  case Nil
  then show ?case using credit_nonneg [OF Nil(1) assms(4)] assms(4) by (simp add: burst_def sane_limit_def)
next
  case (Cons r rs)
  let ?tb = "snd (serve tb r)" and ?t = "checked_at r"
  let ?a = "(if tenant_of r = tid \<and> admits (fst (serve tb r)) then 1 else 0) :: rat"
  from Cons.prems have r: "sane_limit (limit_of r)" "c \<le> created_at r" "created_at r \<le> ?t"
    and own: "tenant_of r = tid \<Longrightarrow> limit_of r = L" and rest: "timed ?t rs" "limits_ok tid L rs"
    by (auto simp: limits_ok_def)
  have wf: "limiter_wf ?t ?tb" using Cons.prems(1) r by (rule serve_wf)
  have "burst L ?t ?tb tid + ?a \<le> burst L c tb tid + accrual L * of_int (?t - c) + request_slack L"
  proof (cases "tenant_of r = tid")
    case True
    then show ?thesis using burst_own [OF Cons.prems(1) assms(4) r(2,3), of tid] own by (simp add: serve_def)
  next
    case False
    then show ?thesis
      using burst_other [of tid "tenant_of r" c ?t L tb "limit_of r" "created_at r"] r assms(4) request_slack_nonneg [OF assms(4)]
      by (simp add: serve_def)
  qed
  moreover have "of_nat (admitted tid ?tb rs)
      \<le> burst L ?t ?tb tid + accrual L * of_int (end_time ?t rs - ?t) + of_nat (length rs) * request_slack L"
    using wf rest by (rule Cons.IH)
  moreover have "of_nat (admitted tid tb (r # rs)) = ?a + of_nat (admitted tid ?tb rs)"
    by (auto simp: Let_def split: prod.split)
  ultimately show ?case by (simp add: algebra_simps)
qed

section \<open>A tenant that waits is admitted\<close>

lemma gain64_lower:
  assumes "sane_limit limit" "0 \<le> d" "is_int64 d" "61 * Second \<le> limit * d"
  shows "1 \<le> gain64 limit d"
proof -
  define S where "S = exact_seconds d"
  define R where "R = (of_int limit / 60 :: rat)"
  define u where "u = unit_roundoff"
  note l = limit_rat [OF assms(1)]
  have S: "0 \<le> S" using assms(2) by (simp add: S_def exact_seconds_def)
  have u: "0 < u" "u \<le> 1 / 10 ^ 15" using unit_roundoff_small by (simp_all add: u_def)
  have "(of_int (61 * Second) :: rat) \<le> of_int (limit * d)" using assms(4) by (simp only: of_int_le_iff)
  then have RS: "61 / 60 \<le> R * S" by (simp add: R_def S_def exact_seconds_def Second_def)
  have R: "0 \<le> R" "R \<le> 2147483648 / 60" using l by (simp_all add: R_def)
  have s: "S - (S + 5) * u \<le> seconds_rat d" "0 \<le> seconds_rat d"
    using seconds_rat_error [OF assms(2)] Seconds_nonneg [OF assms(2,3)]
    unfolding S_def u_def abs_le_iff by linarith+
  have r: "R * (1 - 2 * u) \<le> rate64 limit" "0 \<le> rate64 limit"
    using rate64_error [OF assms(1)] rate64_bounds [OF assms(1)]
    unfolding R_def [symmetric] u_def [symmetric] abs_le_iff by (simp_all add: right_diff_distrib)
  have "R * u \<le> 2147483648 / 60 * (1 / 10 ^ 15)" using R u by (intro mult_mono) auto
  then have Ru: "R * u * 5 \<le> 1 / 1000" by simp
  have "R * S * u \<le> R * S * (1 / 10 ^ 15)" using R S u by (intro mult_left_mono) auto
  moreover have "R * S * (1 / 10 ^ 15) \<le> R * S * (1 / 1000)" using RS by (intro mult_left_mono) auto
  ultimately have RSu: "R * S * u \<le> R * S / 1000" by simp
  have "R * (S - (S + 5) * u) * (1 - 2 * u) = (R * S - R * S * u - R * u * 5) * (1 - 2 * u)"
    by (simp add: algebra_simps)
  also have "\<dots> \<ge> (R * S - R * S / 1000 - 1 / 1000) * (1 - 2 * u)"
    using Ru RSu u by (intro mult_right_mono) auto
  moreover have "(R * S - R * S / 1000 - 1 / 1000) * (1 - 2 * u) \<ge> (101 / 100) * (1 - 2 * u)"
    using RS u by (intro mult_right_mono) auto
  moreover have "(101 / 100) * (1 - 2 * u) \<ge> 1" using u by simp
  ultimately have "1 \<le> R * (S - (S + 5) * u) * (1 - 2 * u)" by linarith
  also have "\<dots> = (S - (S + 5) * u) * (R * (1 - 2 * u))" by (simp add: ac_simps)
  also have "\<dots> \<le> seconds_rat d * rate64 limit"
    using s r R u by (intro mult_mono) auto
  finally have "rnd 1 \<le> gain64 limit d" unfolding gain64_def by (rule rnd_mono)
  then show ?thesis by simp
qed

lemma offered_after_wait:
  assumes "limiter_wf c tb" "sane_limit limit" "c \<le> t0" "t0 \<le> t1" "buckets tb tid = Some b"
    and "61 * Second \<le> limit * (t1 - last b)"
  shows "1 \<le> offered tb tid limit t0 t1"
proof -
  note w = bucket_of_wf [OF assms(1-3), of tid] and l = limit_rat [OF assms(2)]
  let ?d = "time_Sub t1 (last b)"
  have u: "touched tb tid t0 = last b" using assms(5) by (simp add: touched_def)
  have d: "0 \<le> ?d" "is_int64 ?d" using w(4) assms(4) by (simp_all add: u time_Sub_nonneg)
  have "61 * Second \<le> limit * ?d"
  proof (cases "t1 - last b < 2 ^ 63")
    case True
    then have "?d = t1 - last b" using d(1) w(4) assms(4) by (simp add: u time_Sub_def is_int64_def)
    with assms(6) show ?thesis by simp
  next
    case False
    then have "?d = 2 ^ 63 - 1" by (simp add: time_Sub_def saturate64_def)
    moreover have "1 * (2 ^ 63 - 1) \<le> limit * (2 ^ 63 - 1)" using assms(2) by (intro mult_right_mono) (auto simp: sane_limit_def)
    ultimately show ?thesis by (simp add: Second_def)
  qed
  then have "1 \<le> gain64 limit ?d" by (rule gain64_lower [OF assms(2) d])
  then have "rnd 1 \<le> rnd (content tb tid limit + gain64 limit ?d)" using w(2) by (intro rnd_mono) simp
  then show ?thesis using l by (simp add: offered_def refilled_def u)
qed

end
