(* ===== verification/Rate_Limit_Properties.thy ===== *)
theory Rate_Limit_Properties
  imports Rate_Limit_Correct
begin

text \<open>
  The \<open>Limiter\<close> interface as its client sees it, its interpretation on the token bucket,
  and the properties of the limiter.
\<close>

section \<open>The interface\<close>

text \<open>
  A client hands a request to the limiter and reads the verdict. The laws: the call never
  fails, a limit of zero or less admits nothing, and tenants do not affect each other.
\<close>

fun verdicts :: "('s \<Rightarrow> rl_request \<Rightarrow> Result go_result \<times> 's) \<Rightarrow> 's \<Rightarrow> rl_request list
    \<Rightarrow> (string \<times> Result go_result) list" where
  "verdicts allow s [] = []"
| "verdicts allow s (r # rs) = (let (v, s') = allow s r in (tenant_of r, v) # verdicts allow s' rs)"

locale limiter =
  fixes allow :: "'s \<Rightarrow> rl_request \<Rightarrow> Result go_result \<times> 's"
    and level :: "'s \<Rightarrow> string \<Rightarrow> 'b"
  assumes no_error: "\<exists>res. fst (allow s r) = Inr res"
    and closed_limit: "limit_of r \<le> 0 \<Longrightarrow> \<not> admits (fst (allow s r))"
    and isolated: "tid \<noteq> tenant_of r \<Longrightarrow> level (snd (allow s r)) tid = level s tid"
    and local: "level s (tenant_of r) = level s' (tenant_of r) \<Longrightarrow>
      fst (allow s r) = fst (allow s' r) \<and>
      level (snd (allow s r)) (tenant_of r) = level (snd (allow s' r)) (tenant_of r)"
begin

lemma verdicts_local:
  assumes "level s tid = level s' tid"
  shows "filter (\<lambda>v. fst v = tid) (verdicts allow s rs)
       = verdicts allow s' (filter (\<lambda>r. tenant_of r = tid) rs)"
  using assms
proof (induction rs arbitrary: s s')
  case (Cons r rs)
  show ?case
  proof (cases "tenant_of r = tid")
    case True
    have "fst (allow s r) = fst (allow s' r)" "level (snd (allow s r)) tid = level (snd (allow s' r)) tid"
      using local [of s r s'] Cons.prems True by auto
    with True Cons.IH show ?thesis by (simp add: split_beta Let_def)
  next
    case False
    then have "level (snd (allow s r)) tid = level s' tid" using isolated [of tid r s] Cons.prems by simp
    with False Cons.IH show ?thesis by (simp add: split_beta Let_def)
  qed
qed simp

text \<open>The verdicts a tenant sees are those of a limiter that serves no one else.\<close>

lemma tenant_isolation:
  "filter (\<lambda>v. fst v = tid) (verdicts allow s rs) = verdicts allow s (filter (\<lambda>r. tenant_of r = tid) rs)"
  by (rule verdicts_local) simp

end

section \<open>The token bucket provides it\<close>

lemma less_float64_asym: "(x :: float64) < y \<Longrightarrow> \<not> y \<le> x"
  by (cases x; cases y) (auto simp: less_eq_float64_def)

lemma rnd_nonpos: "q \<le> 0 \<Longrightarrow> rnd q \<le> 0"
  using rnd_mono [of q 0] by simp

lemma float64_nonpos:
  assumes "n \<le> 0" shows "\<not> (1 :: float64) \<le> float64_of_int n"
proof -
  have "rnd (of_int n) \<le> 0" using assms by (intro rnd_nonpos) simp
  then show ?thesis
    by (auto simp: float64_of_int_def f64_def Let_def one_float64_def less_eq_float64_def)
qed

lemma le_trans_float64: "(x :: float64) \<le> y \<Longrightarrow> y \<le> z \<Longrightarrow> x \<le> z"
  by (cases x; cases y; cases z) (auto simp: less_eq_float64_def)

lemma refill_nonpos:
  assumes "limit \<le> 0" shows "\<not> 1 \<le> tokens (refill b limit now)"
proof -
  have l: "\<not> (1 :: float64) \<le> float64_of_int limit" using assms by (rule float64_nonpos)
  then have "float64_of_int limit \<noteq> PInf" "float64_of_int limit \<noteq> NaN"
    by (auto simp: one_float64_def less_eq_float64_def float64_of_int_def f64_def Let_def split: if_splits)
  then have "\<not> float64_of_int limit < x \<Longrightarrow> 1 \<le> x \<Longrightarrow> 1 \<le> float64_of_int limit" for x :: float64
    by (cases x; cases "float64_of_int limit") (auto simp: one_float64_def less_eq_float64_def)
  with l show ?thesis by (auto simp: refill_def Let_def)
qed

lemma fst_Allow_bucket:
  "buckets tb tid = buckets tb' tid \<Longrightarrow>
     fst (Allow tb tid limit t0 t1) = fst (Allow tb' tid limit t0 t1) \<and>
     buckets (snd (Allow tb tid limit t0 t1)) tid = buckets (snd (Allow tb' tid limit t0 t1)) tid"
  by (simp add: Allow_def bucket_of_def Let_def)

interpretation token_bucket: limiter serve buckets
proof
  fix s r
  show "\<exists>res. fst (serve s r) = Inr res" by (simp add: serve_def Allow_def Let_def)
  show "limit_of r \<le> 0 \<Longrightarrow> \<not> admits (fst (serve s r))"
    using refill_nonpos [of "limit_of r"] by (simp add: serve_def Allow_def Let_def admits_def)
qed (auto simp: serve_def Allow_other dest: fst_Allow_bucket)

section \<open>Properties\<close>

lemma slack_decimal: "8 * unit_roundoff \<le> 1 / 10 ^ 14"
  by (simp add: unit_roundoff_def)

lemma accrual_decimal:
  assumes "sane_limit L" "0 \<le> w"
  shows "accrual L * of_int w \<le> of_int L / 60 * (of_int w / 10 ^ 9) * (1 + 1 / 10 ^ 14)"
proof -
  have "of_int L / 60 * (of_int w / 10 ^ 9) * (1 + 8 * unit_roundoff)
      \<le> of_int L / 60 * (of_int w / 10 ^ 9) * (1 + 1 / 10 ^ 14)"
    using assms slack_decimal by (intro mult_left_mono add_left_mono) (auto simp: sane_limit_def)
  moreover have "accrual L * of_int w = of_int L / 60 * (of_int w / 10 ^ 9) * (1 + 8 * unit_roundoff)"
    by (simp add: accrual_def)
  ultimately show ?thesis by (simp only:)
qed

lemma request_slack_decimal:
  assumes "sane_limit L" shows "request_slack L \<le> of_int L / 10 ^ 14"
proof -
  have "of_int L * (8 * unit_roundoff) \<le> of_int L * (1 / 10 ^ 14)"
    using assms slack_decimal by (intro mult_left_mono) (auto simp: sane_limit_def)
  then show ?thesis by (simp add: request_slack_def)
qed

lemma window_bound:
  assumes "limiter_wf c tb" "timed c rs" "limits_ok tid L rs" "sane_limit L" "burst L c tb tid \<le> B"
  shows "of_nat (admitted tid tb rs)
       \<le> B + of_int L / 60 * (of_int (end_time c rs - c) / 10 ^ 9) * (1 + 1 / 10 ^ 14)
         + of_nat (length rs) * (of_int L / 10 ^ 14)"
proof -
  have "of_nat (length rs) * request_slack L \<le> of_nat (length rs) * (of_int L / 10 ^ 14)"
    by (intro mult_left_mono request_slack_decimal [OF assms(4)]) simp
  moreover have "accrual L * of_int (end_time c rs - c)
      \<le> of_int L / 60 * (of_int (end_time c rs - c) / 10 ^ 9) * (1 + 1 / 10 ^ 14)"
    using end_time_mono [OF assms(2)] by (intro accrual_decimal assms) simp
  ultimately show ?thesis using admitted_le_burst [OF assms(1-4)] assms(5) by linarith
qed

text \<open>
  The rate limit holds over every window: after any earlier traffic, the requests of a
  tenant admitted in a window are at most its limit plus the limit's share of the window's
  length, up to a rounding slack far below one request.
\<close>
theorem admissions_in_window:
  assumes "sane_limit L" and "timed c pre" and "limits_ok tid L pre"
    and "timed (end_time c pre) rs" and "limits_ok tid L rs"
  shows "(of_nat (admitted tid (after_requests (NewTokenBucket i) pre) rs) :: rat)
       \<le> of_int L + of_int L / 60 * (of_int (end_time (end_time c pre) rs - end_time c pre) / 10 ^ 9) * (1 + 1 / 10 ^ 14)
         + of_nat (length rs) * (of_int L / 10 ^ 14)"
  using after_requests_wf [OF NewTokenBucket_wf assms(2,3)] assms(4,5,1)
  by (rule window_bound) (simp add: burst_def)

theorem admissions_in_window_witness:
  "of_nat (admitted ''t'' (after_requests (NewTokenBucket 100000000) [\<lparr>tenant_of = ''t'', limit_of = 60, created_at = 1, checked_at = 2\<rparr>])
      [\<lparr>tenant_of = ''t'', limit_of = 60, created_at = 1000000000, checked_at = 1000000002\<rparr>])
   \<le> 60 + 60 / 60 * (1000000000 / 10 ^ 9) * (1 + 1 / 10 ^ 14) + 1 * ((60 :: rat) / 10 ^ 14)"
  using admissions_in_window [of 60 0 "[\<lparr>tenant_of = ''t'', limit_of = 60, created_at = 1, checked_at = 2\<rparr>]" "''t''"
      "[\<lparr>tenant_of = ''t'', limit_of = 60, created_at = 1000000000, checked_at = 1000000002\<rparr>]" 100000000]
  by (simp add: sane_limit_def limits_ok_def del: admitted.simps after_requests.simps)

text \<open>
  A tenant seen for the first time starts with a tenth of its limit, at least one
  request, and earns the rest over time.
\<close>
theorem admissions_of_new_tenant:
  assumes "sane_limit L" and "timed c pre" and "list_all (\<lambda>r. tenant_of r \<noteq> tid \<and> sane_limit (limit_of r)) pre"
    and "timed (end_time c pre) rs" and "limits_ok tid L rs"
  shows "(of_nat (admitted tid (after_requests (NewTokenBucket i) pre) rs) :: rat)
       \<le> max 1 (of_int L / 10)
         + of_int L / 60 * (of_int (end_time (end_time c pre) rs - end_time c pre) / 10 ^ 9) * (1 + 1 / 10 ^ 14)
         + of_nat (length rs + 1) * (of_int L / 10 ^ 14)"
proof -
  have ok: "limits_ok tid L pre" using assms(3) by (auto simp: limits_ok_def list_all_iff)
  have "buckets tb tid = None \<Longrightarrow> list_all (\<lambda>r. tenant_of r \<noteq> tid \<and> sane_limit (limit_of r)) pre
      \<Longrightarrow> buckets (after_requests tb pre) tid = None" for tb
    by (induction pre arbitrary: tb) (auto simp: serve_def Allow_other)
  then have "buckets (after_requests (NewTokenBucket i) pre) tid = None"
    using assms(3) by (simp add: NewTokenBucket_def)
  then have "burst L (end_time c pre) (after_requests (NewTokenBucket i) pre) tid \<le> initial64 L"
    by (simp add: burst_def credit_def content_def)
  also have "\<dots> \<le> max 1 (of_int L / 10) + of_int L / 10 ^ 14"
  proof -
    have "of_int L * (2 * unit_roundoff) \<le> of_int L * (1 / 10 ^ 14)"
      using assms(1) by (intro mult_left_mono) (auto simp: sane_limit_def unit_roundoff_def)
    then show ?thesis using initial64_bounds(4) [OF assms(1)] by simp
  qed
  finally have B: "burst L (end_time c pre) (after_requests (NewTokenBucket i) pre) tid
      \<le> max 1 (of_int L / 10) + of_int L / 10 ^ 14" .
  have "(of_nat (length rs + 1) :: rat) * (of_int L / 10 ^ 14)
      = of_nat (length rs) * (of_int L / 10 ^ 14) + of_int L / 10 ^ 14"
    by (simp add: distrib_right)
  then show ?thesis
    using window_bound [OF after_requests_wf [OF NewTokenBucket_wf assms(2) ok] assms(4,5,1) B] by linarith
qed

theorem admissions_of_new_tenant_witness:
  "of_nat (admitted ''t'' (NewTokenBucket 100000000)
      [\<lparr>tenant_of = ''t'', limit_of = 60, created_at = 1, checked_at = 1000000000\<rparr>])
   \<le> max 1 ((60 :: rat) / 10) + 60 / 60 * (1000000000 / 10 ^ 9) * (1 + 1 / 10 ^ 14) + of_nat (1 + 1) * (60 / 10 ^ 14)"
  using admissions_of_new_tenant [of 60 0 "[]" "''t''"
      "[\<lparr>tenant_of = ''t'', limit_of = 60, created_at = 1, checked_at = 1000000000\<rparr>]" 100000000]
  by (simp add: sane_limit_def limits_ok_def del: admitted.simps)

text \<open>
  C28: a tenant that has waited long enough is admitted: with limit \<open>L\<close> requests per
  minute, sixty-one \<open>L\<close>-ths of a second after its last request suffice, whatever the
  bucket held.
\<close>
theorem waiting_tenant_admitted:
  assumes "timed c pre" and "limits_ok tid L pre" and "sane_limit L"
    and "end_time c pre \<le> t0" and "t0 \<le> t1"
    and "buckets (after_requests (NewTokenBucket i) pre) tid = Some b"
    and "61 * Second \<le> L * (t1 - last b)"
  shows "admits (fst (Allow (after_requests (NewTokenBucket i) pre) tid L t0 t1))"
  using Allow_wf(1) [OF after_requests_wf [OF NewTokenBucket_wf assms(1,2)] assms(3,4,5)]
    offered_after_wait [OF after_requests_wf [OF NewTokenBucket_wf assms(1,2)] assms(3,4,5,6,7)]
  by simp

theorem waiting_tenant_admitted_witness:
  "admits (fst (Allow (after_requests (NewTokenBucket 5)
     [\<lparr>tenant_of = ''t'', limit_of = 1, created_at = 1, checked_at = 1\<rparr>]) ''t'' 1 61000000001 61000000001))"
proof -
  let ?pre = "[\<lparr>tenant_of = ''t'', limit_of = 1, created_at = 1, checked_at = 1\<rparr>]"
  have s: "sane_limit 1" by (simp add: sane_limit_def)
  have "snd (Allow (NewTokenBucket 5) ''t'' 1 1 1) = (NewTokenBucket 5)\<lparr>buckets := (buckets (NewTokenBucket 5))
      (''t'' \<mapsto> \<lparr>tokens = Fin (after_call 1 (offered (NewTokenBucket 5) ''t'' 1 1 1)), last = 1\<rparr>)\<rparr>"
    using s by (intro Allow_wf [OF NewTokenBucket_wf]) auto
  then obtain b where "buckets (after_requests (NewTokenBucket 5) ?pre) ''t'' = Some b" "last b = 1"
    by (auto simp: serve_def)
  then show ?thesis
    using s by (intro waiting_tenant_admitted [of 0 _ _ _ _ _ _ b]) (auto simp: limits_ok_def Second_def)
qed

text \<open>
  C29: tenants are isolated: the verdicts a tenant receives are those of a limiter that
  serves this tenant alone, however its requests interleave with others'.
\<close>
theorem limiter_isolates_tenants:
  "filter (\<lambda>v. fst v = tid) (verdicts serve tb rs) = verdicts serve tb (filter (\<lambda>r. tenant_of r = tid) rs)"
  by (rule token_bucket.tenant_isolation)

text \<open>
  A tenant whose limit is zero or negative is never admitted, in any state of the
  limiter and at any time.
\<close>
theorem nonpositive_limit_denied:
  assumes "limit \<le> 0"
  shows "\<not> admits (fst (Allow tb tid limit t0 t1))"
  using token_bucket.closed_limit [of "\<lparr>tenant_of = tid, limit_of = limit, created_at = t0, checked_at = t1\<rparr>" tb] assms
  by (simp add: serve_def)

theorem nonpositive_limit_denied_witness:
  "\<not> admits (fst (Allow (NewTokenBucket 5) ''t'' 0 1 1000000000000))"
  by (rule nonpositive_limit_denied) simp

text \<open>The first request of a tenant with a limit is admitted, whatever other tenants do.\<close>

lemma first_request_admitted:
  assumes "buckets tb tid = None" "sane_limit limit" "t0 \<le> t1"
  shows "admits (fst (Allow tb tid limit t0 t1))"
proof -
  let ?r = "\<lparr>tenant_of = tid, limit_of = limit, created_at = t0, checked_at = t1\<rparr>" and ?new = "NewTokenBucket 0"
  have "fst (serve tb ?r) = fst (serve ?new ?r)"
    using token_bucket.local [of tb ?r ?new] assms(1) by (simp add: NewTokenBucket_def)
  then have s: "fst (Allow tb tid limit t0 t1) = fst (Allow ?new tid limit t0 t1)" by (simp add: serve_def)
  have d: "0 \<le> time_Sub t1 t0" "is_int64 (time_Sub t1 t0)" using assms(3) by (simp_all add: time_Sub_nonneg)
  have i: "1 \<le> initial64 limit" by (simp add: initial64_def)
  then have "rnd 1 \<le> rnd (initial64 limit + gain64 limit (time_Sub t1 t0))"
    using gain64_bounds(3) [OF assms(2) d] by (intro rnd_mono) simp
  then have "1 \<le> offered ?new tid limit t0 t1"
    using limit_rat [OF assms(2)] by (simp add: offered_def refilled_def touched_def content_def NewTokenBucket_def)
  then show ?thesis using Allow_wf(1) [OF NewTokenBucket_wf assms(2) order_refl assms(3)] s by simp
qed

section \<open>The background synchronisation\<close>






end
