(* ===== verification/Provider.thy ===== *)
theory Provider
  imports Go_Time
begin

text \<open>
  \<open>internal/provider/provider.go\<close>: the messages, requests, responses and stream chunks
  that pass through the gateway, the provider interface, and the cost estimate. Strings are
  byte strings; token counts are Go integers.

  A call of a provider reaches an upstream service: what it answers is not the gateway's to
  say, so a provider is a record of functions over a world \<open>'w\<close> that carries whatever
  the answers depend on.
\<close>

section \<open>Data\<close>

record Message =
  Role :: string
  Content :: string

record ChatRequest =
  ReqModel :: string
  Messages :: "Message list"
  Stream :: bool

record ChatResponse =
  RespContent :: string
  RespModel :: string
  RespProvider :: string
  PromptTokens :: int
  CompletionTokens :: int

record ChatChunk =
  ChunkContent :: string
  FinishReason :: string
  ChunkPromptTokens :: int
  ChunkCompletionTokens :: int

text \<open>
  What a stream delivers: the chunks its channel carries, in order, and how it ends. The
  channels are closed at the end; an error is sent on the error channel just before. A panic
  in the goroutine that feeds them brings the process down.
\<close>

datatype stream_end = StreamClosed | StreamError go_error | StreamCrash string

record stream =
  sent :: "ChatChunk list"
  ended :: stream_end

text \<open>
  \<open>Chat\<close> takes the time the caller's context still allows (\<open>None\<close>: no deadline),
  the request and the world; it returns, fails or panics. \<open>ChatStream\<close> is also told
  after how many chunks its caller cancels the context, if it does.
\<close>

record 'w provider =
  Name :: string
  Chat :: "duration option \<Rightarrow> ChatRequest \<Rightarrow> 'w \<Rightarrow> ChatResponse go_result outcome \<times> 'w"
  ChatStream :: "duration option \<Rightarrow> nat option \<Rightarrow> ChatRequest \<Rightarrow> 'w \<Rightarrow> stream outcome \<times> 'w"

section \<open>EstimateCost\<close>

definition cost_rates :: "string \<Rightarrow> rat \<times> rat" where
  "cost_rates model =
     (if model = ''gpt-4o'' then (5 / 10, 15 / 10)
      else if model = ''claude-3-sonnet'' then (3 / 10, 15 / 10)
      else (1 / 10, 2 / 10))"

definition EstimateCost :: "string \<Rightarrow> int \<Rightarrow> int \<Rightarrow> float64" where
  "EstimateCost model promptTokens completionTokens =
     (let (promptRate, completionRate) = cost_rates model
      in (float64_of_int promptTokens * f64 promptRate / f64 1000)
         + (float64_of_int completionTokens * f64 completionRate / f64 1000))"

text \<open>The price the rates stand for, in exact arithmetic.\<close>

definition exact_cost :: "string \<Rightarrow> int \<Rightarrow> int \<Rightarrow> rat" where
  "exact_cost model p c =
     (let (pr, cr) = cost_rates model in of_int p * pr / 1000 + of_int c * cr / 1000)"

section \<open>Accuracy of the estimate\<close>

definition price_term :: "int \<Rightarrow> rat \<Rightarrow> rat" where
  "price_term n r = rnd (rnd (of_int n * rnd r) / 1000)"

text \<open>A relative error of \<open>k\<close> roundings of a value that is zero or far from underflow.\<close>

definition close :: "rat \<Rightarrow> rat \<Rightarrow> nat \<Rightarrow> bool" where
  "close x y k \<longleftrightarrow> 0 \<le> x \<and> 0 \<le> y \<and> y * (1 - of_nat k * (2 * unit_roundoff)) \<le> x
     \<and> x \<le> y * (1 + of_nat k * (2 * unit_roundoff))"

lemma underflow_below: "underflow_unit \<le> 1 / 10 ^ 30 * unit_roundoff"
proof -
  have "underflow_unit \<le> 2 powi (- 160)"
    unfolding underflow_unit_def by (subst two_powi_le_iff) simp
  also have "\<dots> \<le> 1 / 10 ^ 30 * unit_roundoff" by (simp add: unit_roundoff_def)
  finally show ?thesis .
qed

lemma rnd_relative:
  assumes "0 \<le> x" "x = 0 \<or> 1 / 10 ^ 30 \<le> x"
  shows "x * (1 - 2 * unit_roundoff) \<le> rnd x" "rnd x \<le> x * (1 + 2 * unit_roundoff)"
proof -
  have "x = 0 \<or> underflow_unit \<le> x * unit_roundoff"
  proof (cases "x = 0")
    case False
    then have "1 / 10 ^ 30 * unit_roundoff \<le> x * unit_roundoff"
      using assms by (intro mult_right_mono) (auto simp: less_imp_le)
    with underflow_below show ?thesis by linarith
  qed simp
  then have e: "\<bar>rnd x - x\<bar> \<le> x * (2 * unit_roundoff)"
    using rnd_error [of x] assms(1) by auto
  then show "x * (1 - 2 * unit_roundoff) \<le> rnd x" "rnd x \<le> x * (1 + 2 * unit_roundoff)"
    unfolding abs_le_iff by (simp_all add: algebra_simps)
qed

lemma close_rnd:
  assumes "close x y k" "x = 0 \<or> 1 / 10 ^ 30 \<le> x" "k \<le> 8"
  shows "close (rnd x) y (Suc (Suc k))"
proof -
  let ?u = unit_roundoff
  have x: "0 \<le> x" "0 \<le> y" using assms(1) by (simp_all add: close_def)
  have u: "0 < ?u" "?u \<le> 1 / 1000" by (simp_all add: unit_roundoff_def)
  define K where "K = (of_nat k :: rat)"
  have K: "0 \<le> K" "K \<le> 8" using assms(3) by (simp_all add: K_def)
  have KU: "K * ?u \<le> 8 * (1 / 1000)" using K u by (intro mult_mono) auto
  have "rnd x \<le> x * (1 + 2 * ?u)" by (rule rnd_relative [OF x(1) assms(2)])
  also have "\<dots> \<le> y * (1 + K * (2 * ?u)) * (1 + 2 * ?u)"
    using assms(1) u by (intro mult_right_mono) (auto simp: close_def K_def)
  also have "\<dots> = y * (1 + K * (2 * ?u) + 2 * ?u + K * ?u * (4 * ?u))" by (simp add: algebra_simps)
  also have "\<dots> \<le> y * (1 + K * (2 * ?u) + 2 * ?u + 8 * (1 / 1000) * (4 * ?u))"
    using x u KU by (intro mult_left_mono add_left_mono mult_right_mono) auto
  also have "\<dots> \<le> y * (1 + (K + 2) * (2 * ?u))"
    using x u by (intro mult_left_mono) (auto simp: algebra_simps)
  finally have hi: "rnd x \<le> y * (1 + (K + 2) * (2 * ?u))" .
  have "y * (1 - (K + 2) * (2 * ?u)) \<le> y * (1 - K * (2 * ?u)) * (1 - 2 * ?u)"
  proof -
    have "0 \<le> y * (K * ?u * (4 * ?u) + 2 * ?u)" using x u K by (simp add: less_imp_le)
    then show ?thesis by (simp add: algebra_simps)
  qed
  also have "\<dots> \<le> x * (1 - 2 * ?u)"
    using assms(1) u by (intro mult_right_mono) (auto simp: close_def K_def)
  also have "\<dots> \<le> rnd x" by (rule rnd_relative [OF x(1) assms(2)])
  finally have lo: "y * (1 - (K + 2) * (2 * ?u)) \<le> rnd x" .
  have "of_nat (Suc (Suc k)) = K + 2" by (simp add: K_def)
  with hi lo x show ?thesis by (simp only: close_def rnd_nonneg simp_thms)
qed

lemma close_scale:
  assumes "close x y k" "0 \<le> a" shows "close (a * x) (a * y) k"
proof -
  have "a * (y * (1 - of_nat k * (2 * unit_roundoff))) \<le> a * x"
    and "a * x \<le> a * (y * (1 + of_nat k * (2 * unit_roundoff)))"
    using assms by (auto simp: close_def intro: mult_left_mono)
  then show ?thesis using assms by (simp add: close_def mult.assoc)
qed

lemma close_add:
  assumes "close x y k" "close x' y' k" shows "close (x + x') (y + y') k"
  using assms by (auto simp: close_def distrib_right)

lemma close_refl: "0 \<le> x \<Longrightarrow> close x x 0"
  by (simp add: close_def)

text \<open>A price term is zero or large enough to be free of underflow.\<close>

lemma close_positive:
  assumes "close x y k" "k \<le> 8" "0 < y" shows "y / 2 \<le> x"
proof -
  define K where "K = (of_nat k :: rat)"
  have "K * (2 * unit_roundoff) \<le> 8 * (1 / 100)"
    using assms(2) by (intro mult_mono) (auto simp: K_def unit_roundoff_def)
  then have "y * (1 / 2) \<le> y * (1 - K * (2 * unit_roundoff))"
    using assms(3) by (intro mult_left_mono) (auto simp: mult.commute)
  then show ?thesis using assms(1) by (simp add: close_def K_def)
qed

lemma close_upper:
  assumes "close x y k" "k \<le> 10" shows "x \<le> 2 * y"
proof -
  define K where "K = (of_nat k :: rat)"
  have "K * (2 * unit_roundoff) \<le> 10 * (1 / 100)"
    using assms(2) by (intro mult_mono) (auto simp: K_def unit_roundoff_def)
  then have "1 + K * (2 * unit_roundoff) \<le> 2" by linarith
  then have "y * (1 + K * (2 * unit_roundoff)) \<le> y * 2"
    using assms(1) by (intro mult_left_mono) (auto simp: close_def)
  then show ?thesis using assms(1) by (simp add: close_def K_def)
qed

lemma price_term_close:
  assumes "0 \<le> n" "1 / 10 \<le> r"
  shows "close (rnd (rnd (of_int n) * rnd r)) (of_int n * r) 6"
    and "close (rnd (rnd (rnd (of_int n) * rnd r) / 1000)) (of_int n * r / 1000) 8"
proof -
  let ?n = "of_int n :: rat"
  have n: "0 \<le> ?n" "?n = 0 \<or> 1 \<le> ?n" using assms(1) by auto
  show a: "close (rnd (rnd ?n * rnd r)) (?n * r) 6"
  proof (cases "n = 0")
    case True
    then show ?thesis by (simp add: close_def)
  next
    case False
    then have one: "1 \<le> ?n" using assms(1) by simp
    have "rnd 1 \<le> rnd ?n" using one by (rule rnd_mono)
    then have rn: "1 \<le> rnd ?n" by simp
    have "close (rnd r) r 2" using close_rnd [OF close_refl, of r] assms(2) by (auto simp: numeral_2_eq_2)
    then have r: "r / 2 \<le> rnd r" using assms(2) by (intro close_positive) auto
    have cn: "close (rnd ?n) ?n 2" using close_rnd [OF close_refl, of ?n] one by (auto simp: numeral_2_eq_2)
    have rr: "0 \<le> rnd r" using r assms(2) by simp
    have u: "0 < unit_roundoff" "unit_roundoff \<le> 1 / 1000" by (simp_all add: unit_roundoff_def)
    have "close (rnd ?n * rnd r) (?n * r) 4"
    proof -
      let ?d = "2 * unit_roundoff"
      have h1: "?n * (1 - 2 * ?d) \<le> rnd ?n" "rnd ?n \<le> ?n * (1 + 2 * ?d)" using cn by (simp_all add: close_def)
      have "r * (1 - ?d) \<le> rnd r" "rnd r \<le> r * (1 + ?d)"
        using assms(2) by (intro rnd_relative; simp)+
      then have "?n * (1 - 2 * ?d) * (r * (1 - ?d)) \<le> rnd ?n * rnd r"
        and "rnd ?n * rnd r \<le> ?n * (1 + 2 * ?d) * (r * (1 + ?d))"
        using h1 rn rr one assms(2) u by (intro mult_mono; simp)+
      moreover have "?n * r * (1 - 4 * ?d) \<le> ?n * (1 - 2 * ?d) * (r * (1 - ?d))"
      proof -
        have "0 \<le> ?n * r * (?d + 2 * (?d * ?d))" using one assms(2) u by simp
        then show ?thesis by (simp add: algebra_simps)
      qed
      moreover have "?n * (1 + 2 * ?d) * (r * (1 + ?d)) \<le> ?n * r * (1 + 4 * ?d)"
      proof -
        have "0 \<le> ?n * r * (?d * (1 - 2 * ?d))" using one assms(2) u by simp
        then show ?thesis by (simp add: algebra_simps)
      qed
      moreover have "0 \<le> rnd ?n * rnd r" "0 \<le> ?n * r" using rn rr one assms(2) by simp_all
      ultimately show ?thesis unfolding close_def of_nat_numeral by (intro conjI) linarith+
    qed
    moreover have "1 / 10 ^ 30 \<le> rnd ?n * rnd r"
      using mult_mono [of 1 "rnd ?n" "1 / 20" "rnd r"] rn r assms(2) by simp
    ultimately show ?thesis using close_rnd [of "rnd ?n * rnd r" "?n * r" 4] by (simp add: eval_nat_numeral)
  qed
  have "close (rnd (rnd ?n * rnd r) / 1000) (?n * r / 1000) 6"
    using close_scale [OF a, of "1 / 1000"] by simp
  moreover have "rnd (rnd ?n * rnd r) / 1000 = 0 \<or> 1 / 10 ^ 30 \<le> rnd (rnd ?n * rnd r) / 1000"
  proof (cases "n = 0")
    case False
    then have "1 \<le> ?n" using assms(1) by simp
    then have "1 * (1 / 10) \<le> ?n * r" using assms(2) by (intro mult_mono) auto
    then have "?n * r / 2 \<le> rnd (rnd ?n * rnd r)" by (intro close_positive [OF a]) auto
    with \<open>1 * (1 / 10) \<le> ?n * r\<close> show ?thesis by simp
  qed simp
  ultimately show "close (rnd (rnd (rnd ?n * rnd r) / 1000)) (?n * r / 1000) 8"
    using close_rnd [of "rnd (rnd ?n * rnd r) / 1000" "?n * r / 1000" 6] by (simp add: eval_nat_numeral)
qed

lemma float64_of_int64: "is_int64 n \<Longrightarrow> float64_of_int n = Fin (rnd (of_int n))"
proof -
  assume n: "is_int64 n"
  then have "\<bar>n\<bar> \<le> 2 ^ 63" by (auto simp: is_int64_def abs_le_iff)
  then have "\<bar>of_int n :: rat\<bar> \<le> of_int (2 ^ 63)" by (subst of_int_abs [symmetric], subst of_int_le_iff)
  then have "\<bar>of_int n :: rat\<bar> \<le> 10 ^ 30" by simp
  then show ?thesis by (simp add: float64_of_int_def f64_Fin)
qed

lemma price_term_float:
  assumes "0 \<le> n" "is_int64 n" "1 / 10 \<le> r" "r \<le> 2"
  shows "float64_of_int n * f64 r / f64 1000 = Fin (rnd (rnd (rnd (of_int n) * rnd r) / 1000))"
    and "rnd (rnd (rnd (of_int n) * rnd r) / 1000) \<le> 10 ^ 20"
proof -
  let ?n = "of_int n :: rat"
  have "?n \<le> of_int (2 ^ 63)" using assms(2) by (subst of_int_le_iff) (simp add: is_int64_def)
  then have N: "?n \<le> 10 ^ 19" by simp
  have "rnd ?n \<le> rnd (2 powi 64)" using \<open>?n \<le> of_int (2 ^ 63)\<close> by (intro rnd_mono) simp
  also have "rnd (2 powi 64) = (2 :: rat) powi 64" by (rule rnd_two_powi) simp
  finally have rn: "rnd ?n \<le> 10 ^ 20" by simp
  have rn0: "0 \<le> rnd ?n" using assms(1) by (simp add: rnd_nonneg)
  have rr: "0 \<le> rnd r" "rnd r \<le> 2"
    using assms(3,4) rnd_nonneg [of r] rnd_mono [of r 2] by (simp_all add: rnd_numeral)
  have p: "0 \<le> rnd ?n * rnd r" "rnd ?n * rnd r \<le> 10 ^ 20 * 2" using mult_mono [OF rn rr(2)] rn0 rr by simp_all
  have c: "close (rnd (rnd ?n * rnd r)) (?n * r) 6" "close (rnd (rnd (rnd ?n * rnd r) / 1000)) (?n * r / 1000) 8"
    using assms by (intro price_term_close; simp)+
  have q: "0 \<le> rnd (rnd ?n * rnd r)" "rnd (rnd ?n * rnd r) \<le> 2 * (?n * r)"
    using c(1) close_upper [OF c(1)] by (simp_all add: close_def)
  have t: "rnd (rnd (rnd ?n * rnd r) / 1000) \<le> 2 * (?n * r / 1000)"
    using close_upper [OF c(2)] by simp
  have nr: "?n * r \<le> 10 ^ 19 * 2" using N assms by (intro mult_mono) auto
  then show "rnd (rnd (rnd ?n * rnd r) / 1000) \<le> 10 ^ 20" by (intro order_trans [OF t]) (simp add: mult.commute [of r])
  have "\<bar>r\<bar> \<le> 10 ^ 30" "\<bar>rnd ?n * rnd r\<bar> \<le> 10 ^ 30" "\<bar>rnd (rnd ?n * rnd r) / 1000\<bar> \<le> 10 ^ 30"
    using assms(3,4) p q nr by (auto simp: abs_le_iff)
  then show "float64_of_int n * f64 r / f64 1000 = Fin (rnd (rnd (rnd ?n * rnd r) / 1000))"
    using assms(2) by (simp add: float64_of_int64 f64_Fin rnd_numeral)
qed

lemma cost_rates_range:
  "cost_rates model = (pr, cr) \<Longrightarrow> 1 / 10 \<le> pr \<and> pr \<le> 2 \<and> 1 / 10 \<le> cr \<and> cr \<le> 2"
  by (auto simp: cost_rates_def split: if_splits)

lemma EstimateCost_close:
  assumes "0 \<le> p" "is_int64 p" "0 \<le> c" "is_int64 c"
  shows "\<exists>x. EstimateCost model p c = Fin x \<and> close x (exact_cost model p c) 10"
proof -
  obtain pr cr where r: "cost_rates model = (pr, cr)" by (cases "cost_rates model")
  note rr = cost_rates_range [OF r]
  let ?x = "rnd (rnd (rnd (of_int p) * rnd pr) / 1000)" and ?y = "rnd (rnd (rnd (of_int c) * rnd cr) / 1000)"
  have cx: "close ?x (of_int p * pr / 1000) 8" and cy: "close ?y (of_int c * cr / 1000) 8"
    using assms rr by (intro price_term_close; simp)+
  then have sum: "close (?x + ?y) (exact_cost model p c) 8"
    using close_add by (simp add: exact_cost_def r)
  have x: "?x \<le> 10 ^ 20" and y: "?y \<le> 10 ^ 20" using assms rr by (intro price_term_float; simp)+
  have nn: "0 \<le> ?x" "0 \<le> ?y" using cx cy by (simp_all add: close_def)
  have "EstimateCost model p c = Fin ?x + Fin ?y"
    using assms rr by (simp add: EstimateCost_def r price_term_float(1) del: plus_float64.simps divide_float64.simps times_float64.simps)
  also have "\<dots> = Fin (rnd (?x + ?y))" using x y nn by (simp add: f64_Fin abs_le_iff)
  finally have e: "EstimateCost model p c = Fin (rnd (?x + ?y))" .
  have "exact_cost model p c = 0 \<or> 1 / 10 ^ 10 \<le> exact_cost model p c"
  proof -
    have "0 \<le> of_int n * r / 1000 \<and> (of_int n * r / 1000 = 0 \<or> 1 / 10 ^ 10 \<le> of_int n * r / 1000)"
      if "0 \<le> n" "1 / 10 \<le> r" for n :: int and r :: rat
    proof (cases "n = 0")
      case False
      then have "1 * (1 / 10) \<le> of_int n * r" using that by (intro mult_mono) auto
      then show ?thesis by simp
    qed simp
    from this [of p pr] this [of c cr]
    have terms: "0 \<le> of_int p * pr / 1000 \<and> (of_int p * pr / 1000 = 0 \<or> 1 / 10 ^ 10 \<le> of_int p * pr / 1000)"
      "0 \<le> of_int c * cr / 1000 \<and> (of_int c * cr / 1000 = 0 \<or> 1 / 10 ^ 10 \<le> of_int c * cr / 1000)"
      using assms rr by blast+
    have "X + Y = 0 \<or> e \<le> X + Y"
      if "0 \<le> X \<and> (X = 0 \<or> e \<le> X)" "0 \<le> Y \<and> (Y = 0 \<or> e \<le> Y)" for X Y e :: rat
      using that by auto
    from this [OF terms] show ?thesis by (simp only: exact_cost_def r prod.case Let_def)
  qed
  then have "?x + ?y = 0 \<or> 1 / 10 ^ 30 \<le> ?x + ?y"
    using close_positive [OF sum] sum by (auto simp: close_def)
  from close_rnd [OF sum this] have "close (rnd (?x + ?y)) (exact_cost model p c) 10" by (simp add: eval_nat_numeral)
  with e show ?thesis by blast
qed

end
