(* ===== verification/Provider_Properties.thy ===== *)
theory Provider_Properties
  imports Provider
begin

text \<open>The property of the cost estimate.\<close>

lemma close_relative:
  assumes "close x y 10" shows "\<bar>x - y\<bar> \<le> y / 10 ^ 14"
proof -
  have y: "0 \<le> y" using assms by (simp add: close_def)
  have "(of_nat 10 :: rat) * (2 * unit_roundoff) \<le> 1 / 10 ^ 14" by (simp add: unit_roundoff_def)
  then have "y * (of_nat 10 * (2 * unit_roundoff)) \<le> y * (1 / 10 ^ 14)" using y by (rule mult_left_mono)
  then show ?thesis using assms unfolding close_def abs_le_iff by (simp add: algebra_simps)
qed

text \<open>
  The prices the comment of \<open>EstimateCost\<close> gives, in cents per thousand prompt and completion
  tokens: 0.5 and 1.5 for GPT-4o, 0.3 and 1.5 for Claude 3 Sonnet, 0.1 and 0.1 otherwise.
\<close>

definition documented_price :: "string \<Rightarrow> int \<Rightarrow> int \<Rightarrow> rat" where
  "documented_price model p c =
     (if model = ''gpt-4o'' then of_int (5 * p + 15 * c) / 10000
      else if model = ''claude-3-sonnet'' then of_int (3 * p + 15 * c) / 10000
      else of_int (p + c) / 10000)"

definition priced_models :: "string list" where
  "priced_models = [''gpt-4o'', ''claude-3-sonnet'']"

text \<open>
  C35: for the two models with a price of their own the cost estimate of any non-negative
  token counts is the documented price, up to one part in a hundred million millions: the
  chain of binary64 conversions, products and divisions never loses a cent. For every other
  model it is not: completions cost twice the documented default, so the estimate is the
  documented price and, once more, a tenth of a cent per thousand completion tokens.
\<close>
theorem documented_prices_charged:
  assumes "0 \<le> p" and "is_int64 p" and "0 \<le> c" and "is_int64 c"
  shows "\<exists>x. EstimateCost model p c = Fin x \<and> 0 \<le> x
           \<and> (let price = documented_price model p c + (if model \<in> set priced_models then 0 else of_int c / 10000)
              in \<bar>x - price\<bar> \<le> price / 10 ^ 14)"
proof -
  have "exact_cost model p c = documented_price model p c + (if model \<in> set priced_models then 0 else of_int c / 10000)"
    by (simp add: exact_cost_def cost_rates_def documented_price_def priced_models_def field_simps)
  then show ?thesis using EstimateCost_close [OF assms, of model] close_relative by (auto simp: close_def Let_def)
qed

theorem documented_prices_charged_witness:
  "(\<exists>x. EstimateCost ''claude-3-sonnet'' 1000 2000 = Fin x \<and> \<bar>x - 33 / 10\<bar> \<le> 33 / 10 ^ 15)
   \<and> (\<exists>x. EstimateCost ''llama3'' 1000 2000 = Fin x \<and> \<bar>x - (3 / 10 + 2 / 10)\<bar> \<le> 5 / 10 ^ 15)"
proof
  have p: "documented_price ''claude-3-sonnet'' 1000 2000 = 33 / 10" "documented_price ''llama3'' 1000 2000 = 3 / 10"
    "''claude-3-sonnet'' \<in> set priced_models" "''llama3'' \<notin> set priced_models"
    by (simp_all add: documented_price_def priced_models_def)
  show "\<exists>x. EstimateCost ''claude-3-sonnet'' 1000 2000 = Fin x \<and> \<bar>x - 33 / 10\<bar> \<le> 33 / 10 ^ 15"
    using documented_prices_charged [of 1000 2000 "''claude-3-sonnet''"] by (auto simp: p is_int64_def Let_def)
  show "\<exists>x. EstimateCost ''llama3'' 1000 2000 = Fin x \<and> \<bar>x - (3 / 10 + 2 / 10)\<bar> \<le> 5 / 10 ^ 15"
    using documented_prices_charged [of 1000 2000 "''llama3''"] by (auto simp: p is_int64_def Let_def)
qed

end
