(* ===== verification/Go_Strings.thy ===== *)
theory Go_Strings
  imports Go_Prelude "HOL-Library.Word"
begin

text \<open>
  The parts of Go's string library the gateway uses, on byte strings: decimal conversion
  (\<open>strconv\<close>), \<open>strings.Split\<close>, hexadecimal encoding (\<open>encoding/hex\<close>) and the UTF-8
  decoding rules of \<open>unicode/utf8\<close>.
\<close>

section \<open>Decimal numbers\<close>

fun nat_digits :: "nat \<Rightarrow> string" where
  "nat_digits n = (if n < 10 then [char_of (48 + n)] else nat_digits (n div 10) @ [char_of (48 + n mod 10)])"

declare nat_digits.simps [simp del]

definition itoa :: "int \<Rightarrow> string" where
  "itoa n = (if n < 0 then CHR ''-'' # nat_digits (nat (- n)) else nat_digits (nat n))"

definition byte :: "char \<Rightarrow> nat" where
  "byte c = of_char c"

definition is_digit :: "char \<Rightarrow> bool" where
  "is_digit c \<longleftrightarrow> 48 \<le> byte c \<and> byte c \<le> 57"

fun digits_value :: "nat \<Rightarrow> string \<Rightarrow> nat option" where
  "digits_value acc [] = Some acc"
| "digits_value acc (c # cs) = (if is_digit c then digits_value (acc * 10 + (byte c - 48)) cs else None)"

text \<open>\<open>strconv.Atoi\<close>, and \<open>strconv.ParseInt\<close> in base ten with 64 bits: an optional sign,
  at least one digit, and the value must fit.\<close>

definition unsigned_value :: "string \<Rightarrow> int option" where
  "unsigned_value s = (if s = [] then None else map_option int (digits_value 0 s))"

definition Atoi :: "string \<Rightarrow> int option" where
  "Atoi s =
     (let v = (case s of
                 [] \<Rightarrow> None
               | c # cs \<Rightarrow>
                   if c = CHR ''-'' then map_option uminus (unsigned_value cs)
                   else if c = CHR ''+'' then unsigned_value cs
                   else unsigned_value s)
      in case v of None \<Rightarrow> None | Some n \<Rightarrow> if is_int64 n then Some n else None)"

lemma byte_char_of: "n < 256 \<Longrightarrow> byte (char_of n) = n"
  by (simp add: byte_def)

lemma is_digit_char_of: "(n :: nat) < 10 \<Longrightarrow> is_digit (char_of (48 + n))"
  by (simp add: is_digit_def byte_def)

lemma nat_digits_nonempty [simp]: "nat_digits n \<noteq> []"
  by (subst nat_digits.simps) simp

lemma nat_digits_are_digits: "list_all is_digit (nat_digits n)"
proof (induction n rule: nat_digits.induct)
  case (1 n)
  then show ?case by (subst nat_digits.simps) (simp add: is_digit_char_of)
qed

lemma digits_value_snoc:
  "digits_value acc (s @ [c]) =
     (case digits_value acc s of None \<Rightarrow> None
      | Some v \<Rightarrow> if is_digit c then Some (v * 10 + (byte c - 48)) else None)"
  by (induction s arbitrary: acc) auto

lemma digits_value_nat_digits: "digits_value 0 (nat_digits n) = Some n"
proof (induction n rule: nat_digits.induct)
  case (1 n)
  show ?case
  proof (cases "n < 10")
    case True
    then show ?thesis by (subst nat_digits.simps) (simp add: is_digit_char_of byte_def)
  next
    case False
    have "n mod 10 < 10" by simp
    moreover from this have "byte (char_of (48 + n mod 10)) = 48 + n mod 10" by (intro byte_char_of) linarith
    ultimately show ?thesis using 1 False
      by (subst nat_digits.simps) (simp add: digits_value_snoc is_digit_char_of)
  qed
qed

lemma unsigned_value_nat_digits: "unsigned_value (nat_digits n) = Some (int n)"
  by (simp add: unsigned_value_def digits_value_nat_digits)

lemma nat_digits_hd: "\<exists>c cs. nat_digits n = c # cs \<and> is_digit c"
  using nat_digits_are_digits [of n] by (cases "nat_digits n") auto

lemma not_digit_sign [simp]: "\<not> is_digit (CHR ''-'')" "\<not> is_digit (CHR ''+'')"
  by (simp_all add: is_digit_def byte_def)

text \<open>Printing and reading back a 64-bit integer.\<close>

lemma Atoi_itoa: "is_int64 n \<Longrightarrow> Atoi (itoa n) = Some n"
proof -
  assume n: "is_int64 n"
  show ?thesis
  proof (cases "n < 0")
    case True
    then show ?thesis using n by (simp add: Atoi_def itoa_def unsigned_value_nat_digits)
  next
    case False
    obtain c cs where c: "nat_digits (nat n) = c # cs" "is_digit c" using nat_digits_hd by blast
    then have "c \<noteq> CHR ''-''" "c \<noteq> CHR ''+''" by auto
    with False n c unsigned_value_nat_digits [of "nat n"] show ?thesis
      by (simp add: Atoi_def itoa_def)
  qed
qed

section \<open>strings.Split by one byte\<close>

fun Split :: "string \<Rightarrow> char \<Rightarrow> string list" where
  "Split [] sep = [[]]"
| "Split (c # cs) sep =
     (if c = sep then [] # Split cs sep
      else (case Split cs sep of w # ws \<Rightarrow> (c # w) # ws | [] \<Rightarrow> [[c]]))"

lemma Split_nonempty [simp]: "Split s sep \<noteq> []"
  by (induction s) (auto split: list.split)

fun Join :: "string list \<Rightarrow> char \<Rightarrow> string" where
  "Join [] sep = []"
| "Join [w] sep = w"
| "Join (w # v # ws) sep = w @ sep # Join (v # ws) sep"

lemma Join_Split: "Join (Split s sep) sep = s"
proof (induction s)
  case (Cons c cs)
  obtain w ws where s: "Split cs sep = w # ws" by (metis Split_nonempty neq_Nil_conv)
  with Cons show ?case by (cases ws) auto
qed simp

lemma Split_pieces: "w \<in> set (Split s sep) \<Longrightarrow> sep \<notin> set w"
proof (induction s arbitrary: w)
  case (Cons c cs)
  obtain v vs where s: "Split cs sep = v # vs" by (metis Split_nonempty neq_Nil_conv)
  with Cons show ?case by (auto split: if_splits)
qed simp

section \<open>Hexadecimal\<close>

definition hex_digit :: "nat \<Rightarrow> char" where
  "hex_digit n = (if n < 10 then char_of (48 + n) else char_of (87 + n))"

definition EncodeToString :: "bytes \<Rightarrow> string" where
  "EncodeToString s = concat (map (\<lambda>c. [hex_digit (byte c div 16), hex_digit (byte c mod 16)]) s)"

definition unhex :: "char \<Rightarrow> nat option" where
  "unhex c =
     (let b = byte c in
      if 48 \<le> b \<and> b \<le> 57 then Some (b - 48)
      else if 97 \<le> b \<and> b \<le> 102 then Some (b - 87)
      else if 65 \<le> b \<and> b \<le> 70 then Some (b - 55)
      else None)"

lemma unhex_hex_digit [simp]: "n < 16 \<Longrightarrow> unhex (hex_digit n) = Some n"
  by (auto simp: unhex_def hex_digit_def byte_def Let_def)

lemma byte_bound [simp]: "byte c < 256"
  by (simp add: byte_def)

lemma byte_inject: "byte c = byte d \<longleftrightarrow> c = d"
  by (simp add: byte_def)

lemma hex_digit_inject: "m < 16 \<Longrightarrow> n < 16 \<Longrightarrow> hex_digit m = hex_digit n \<longleftrightarrow> m = n"
  by (metis unhex_hex_digit option.inject)

lemma EncodeToString_Cons:
  "EncodeToString (c # s) = hex_digit (byte c div 16) # hex_digit (byte c mod 16) # EncodeToString s"
  by (simp add: EncodeToString_def)

lemma EncodeToString_inject: "EncodeToString s = EncodeToString t \<longleftrightarrow> s = t"
proof (induction s arbitrary: t)
  case Nil
  then show ?case by (cases t) (simp_all add: EncodeToString_def)
next
  case (Cons c s)
  show ?case
  proof (cases t)
    case (Cons d u)
    have "byte c div 16 < 16" "byte d div 16 < 16" by (simp_all add: less_mult_imp_div_less)
    then have "EncodeToString (c # s) = EncodeToString (d # u) \<longleftrightarrow>
        byte c div 16 = byte d div 16 \<and> byte c mod 16 = byte d mod 16 \<and> s = u"
      by (simp add: EncodeToString_Cons hex_digit_inject Cons.IH)
    also have "\<dots> \<longleftrightarrow> c = d \<and> s = u" by (metis byte_inject div_mod_decomp)
    finally show ?thesis using Cons by simp
  qed (simp add: EncodeToString_def)
qed

lemma EncodeToString_length: "length (EncodeToString s) = 2 * length s"
  by (induction s) (simp_all add: EncodeToString_def)

section \<open>UTF-8\<close>

text \<open>
  The length of the valid encoding of a character at the head of a byte string, 0 when there
  is none: the table of \<open>utf8.DecodeRune\<close>, which excludes overlong forms and surrogates.
\<close>

definition cont :: "char \<Rightarrow> bool" where
  "cont c \<longleftrightarrow> 128 \<le> byte c \<and> byte c \<le> 191"

definition second_ok :: "nat \<Rightarrow> nat \<Rightarrow> bool" where
  "second_ok b0 b1 \<longleftrightarrow>
     (if b0 = 224 then 160 \<le> b1 \<and> b1 \<le> 191
      else if b0 = 237 then 128 \<le> b1 \<and> b1 \<le> 159
      else if b0 = 240 then 144 \<le> b1 \<and> b1 \<le> 191
      else if b0 = 244 then 128 \<le> b1 \<and> b1 \<le> 143
      else 128 \<le> b1 \<and> b1 \<le> 191)"

definition lead_length :: "nat \<Rightarrow> nat" where
  "lead_length b =
     (if b < 128 then 1 else if b < 194 then 0 else if b < 224 then 2
      else if b < 240 then 3 else if b < 245 then 4 else 0)"

definition rune_length :: "bytes \<Rightarrow> nat" where
  "rune_length s =
     (case s of
        [] \<Rightarrow> 0
      | c # cs \<Rightarrow>
          let n = lead_length (byte c) in
          if n \<le> 1 then n
          else if n \<le> length s \<and> second_ok (byte c) (byte (s ! 1)) \<and> list_all cont (take (n - 2) (drop 2 s))
          then n else 0)"

lemma rune_length_le: "rune_length s \<le> length s"
  by (auto simp: rune_length_def Let_def split: list.split)

definition encode_rune :: "nat \<Rightarrow> bytes" where
  "encode_rune r =
     (if r < 128 then [char_of r]
      else if r < 2048 then [char_of (192 + r div 64), char_of (128 + r mod 64)]
      else if r < 65536 then [char_of (224 + r div 4096), char_of (128 + r div 64 mod 64), char_of (128 + r mod 64)]
      else [char_of (240 + r div 262144), char_of (128 + r div 4096 mod 64),
            char_of (128 + r div 64 mod 64), char_of (128 + r mod 64)])"

text \<open>The replacement character, which stands for every byte that is not part of one.\<close>

definition RuneError :: bytes where
  "RuneError = encode_rune 65533"

text \<open>\<open>strings.ToValidUTF8\<close>-like reading of a byte string, character by character.\<close>

function sanitize :: "bytes \<Rightarrow> bytes" where
  "sanitize s =
     (if s = [] then []
      else if rune_length s = 0 then RuneError @ sanitize (tl s)
      else take (rune_length s) s @ sanitize (drop (rune_length s) s))"
  by pat_completeness auto
termination
  by (relation "measure length") auto

declare sanitize.simps [simp del]

definition valid_utf8 :: "bytes \<Rightarrow> bool" where
  "valid_utf8 s \<longleftrightarrow> sanitize s = s"

lemma sanitize_Nil [simp]: "sanitize [] = []"
  by (subst sanitize.simps) simp

lemma sanitize_ascii: "byte c < 128 \<Longrightarrow> sanitize (c # s) = c # sanitize s"
  by (subst sanitize.simps) (simp add: rune_length_def lead_length_def)

lemma valid_ascii: "list_all (\<lambda>c. byte c < 128) s \<Longrightarrow> valid_utf8 s"
  by (induction s) (auto simp: valid_utf8_def sanitize_ascii)

end
