(* ===== verification/Resilient.thy ===== *)
theory Resilient
  imports Provider Go_Strings
begin

text \<open>
  \<open>internal/provider/resilient.go\<close>: the decorator that retries a provider with
  exponential backoff under a per-attempt timeout.

  The context and the clock are parameters over the world: \<open>ctx_Err\<close> is the caller's
  context error at that moment, \<open>wait_or_done d\<close> is the \<open>select\<close> between
  \<open>time.After(d)\<close> and \<open>ctx.Done()\<close>, with the context's error when the latter wins.
  \<open>sleep d\<close> is \<open>time.Sleep\<close>. \<open>first_of s\<close> is the choice of the \<open>select\<close> that waits for
  the first chunk, the error channel or the timeout of a new stream \<open>s\<close>.
\<close>

datatype first_event =
    FirstChunk
  | ChunksClosed
  | ErrorReceived "go_error option"
  | TimedOut go_error

record 'w context_ops =
  ctx_Err :: "'w \<Rightarrow> go_error option"
  wait_or_done :: "duration \<Rightarrow> 'w \<Rightarrow> go_error option \<times> 'w"
  sleep :: "duration \<Rightarrow> 'w \<Rightarrow> 'w"
  first_of :: "stream \<Rightarrow> 'w \<Rightarrow> first_event \<times> 'w"

text \<open>
  What the select can see: a chunk when there is one; otherwise the closed chunk channel, or
  what the error channel holds, which a closed channel answers with nil; the timeout always.
\<close>

fun possible_first :: "stream \<Rightarrow> first_event \<Rightarrow> bool" where
  "possible_first s FirstChunk = (sent s \<noteq> [])"
| "possible_first s ChunksClosed = (sent s = [])"
| "possible_first s (ErrorReceived e) =
     (sent s = [] \<and> e = (case ended s of StreamError err \<Rightarrow> Some err | _ \<Rightarrow> None))"
| "possible_first s (TimedOut e) = True"

record 'w ResilientProvider =
  base :: "'w provider"
  maxRetries :: int
  timeout :: duration
  retryDelay :: duration

definition NewResilientProvider :: "'w provider \<Rightarrow> int \<Rightarrow> duration \<Rightarrow> 'w ResilientProvider" where
  "NewResilientProvider b n t =
     \<lparr>base = b, maxRetries = n, timeout = t, retryDelay = wrap64 (100 * Millisecond)\<rparr>"

definition resilient_Name :: "'w ResilientProvider \<Rightarrow> string" where
  "resilient_Name p = Name (base p)"

text \<open>\<open>time.Duration(math.Pow(2, float64(i))) * p.retryDelay\<close>, with the conversion and the
  product at their width.\<close>

definition backoff :: "'w ResilientProvider \<Rightarrow> int \<Rightarrow> duration" where
  "backoff p i = wrap64 (int_of_float64 (f64 (2 ^ nat i)) * retryDelay p)"

definition wrap_text :: "go_error option \<Rightarrow> string" where
  "wrap_text e = (case e of Some (GoError s) \<Rightarrow> s | None \<Rightarrow> ''%!w(<nil>)'')"

definition exhausted :: "'w ResilientProvider \<Rightarrow> go_error option \<Rightarrow> go_error" where
  "exhausted p lastErr =
     GoError (''provider '' @ resilient_Name p @ '' failed after '' @ itoa (maxRetries p)
       @ '' retries: '' @ wrap_text lastErr)"

text \<open>The context of an attempt allows the smaller of the caller's time and the timeout.\<close>

definition attempt_deadline :: "duration option \<Rightarrow> duration \<Rightarrow> duration option" where
  "attempt_deadline outer t = Some (case outer of None \<Rightarrow> t | Some o' \<Rightarrow> min o' t)"

function chat_loop ::
  "'w context_ops \<Rightarrow> 'w ResilientProvider \<Rightarrow> duration option \<Rightarrow> ChatRequest \<Rightarrow> int \<Rightarrow> go_error option
    \<Rightarrow> 'w \<Rightarrow> ChatResponse go_result outcome \<times> 'w" where
  "chat_loop ctx p outer req i lastErr w =
     (if i \<le> maxRetries p then
        case Chat (base p) (attempt_deadline outer (timeout p)) req w of
          (Panic s, w1) \<Rightarrow> (Panic s, w1)
        | (Crash s, w1) \<Rightarrow> (Crash s, w1)
        | (Return (Inr resp), w1) \<Rightarrow> (Return (Inr resp), w1)
        | (Return (Inl err), w1) \<Rightarrow>
            if ctx_Err ctx w1 \<noteq> None then (Return (Inl err), w1)
            else if i < maxRetries p then
              (case wait_or_done ctx (backoff p i) w1 of
                 (None, w2) \<Rightarrow> chat_loop ctx p outer req (i + 1) (Some err) w2
               | (Some e, w2) \<Rightarrow> (Return (Inl e), w2))
            else chat_loop ctx p outer req (i + 1) (Some err) w1
      else (Return (Inl (exhausted p lastErr)), w))"
  by pat_completeness auto
termination
  by (relation "measure (\<lambda>(ctx, p, outer, req, i, lastErr, w). nat (maxRetries p + 1 - i))") auto

declare chat_loop.simps [simp del]

definition resilient_Chat ::
  "'w context_ops \<Rightarrow> 'w ResilientProvider \<Rightarrow> duration option \<Rightarrow> ChatRequest \<Rightarrow> 'w
    \<Rightarrow> ChatResponse go_result outcome \<times> 'w" where
  "resilient_Chat ctx p outer req w = chat_loop ctx p outer req 0 None w"

section \<open>Streams\<close>

text \<open>
  One goroutine feeds the decorator's channels. Once a first chunk arrives the attempt's
  context is cancelled, the remaining chunks of that stream are passed on and the channels
  are closed; the error channel of that stream is not read again. A panic of the base
  provider here is in the goroutine.
\<close>

definition attempt_error :: "first_event \<Rightarrow> go_error option \<Rightarrow> go_error option" where
  "attempt_error ev lastErr =
     (case ev of
        ErrorReceived (Some err) \<Rightarrow> Some err
      | TimedOut err \<Rightarrow> Some err
      | _ \<Rightarrow> lastErr)"

definition error_end :: "go_error option \<Rightarrow> stream_end" where
  "error_end e = (case e of None \<Rightarrow> StreamClosed | Some err \<Rightarrow> StreamError err)"

function stream_loop ::
  "'w context_ops \<Rightarrow> 'w ResilientProvider \<Rightarrow> duration option \<Rightarrow> ChatRequest \<Rightarrow> int \<Rightarrow> go_error option
    \<Rightarrow> 'w \<Rightarrow> stream \<times> 'w" where
  "stream_loop ctx p outer req i lastErr w =
     (if i \<le> maxRetries p then
        case ChatStream (base p) (attempt_deadline outer (timeout p)) (Some 1) req w of
          (Panic s, w1) \<Rightarrow> (\<lparr>sent = [], ended = StreamCrash s\<rparr>, w1)
        | (Crash s, w1) \<Rightarrow> (\<lparr>sent = [], ended = StreamCrash s\<rparr>, w1)
        | (Return s, w1) \<Rightarrow>
            (case first_of ctx s w1 of
               (FirstChunk, w2) \<Rightarrow>
                 (\<lparr>sent = sent s,
                   ended = (case ended s of StreamCrash m \<Rightarrow> StreamCrash m | _ \<Rightarrow> StreamClosed)\<rparr>, w2)
             | (ev, w2) \<Rightarrow>
                 (case ended s of
                    StreamCrash m \<Rightarrow> (\<lparr>sent = [], ended = StreamCrash m\<rparr>, w2)
                  | _ \<Rightarrow>
                    (case ctx_Err ctx w2 of
                       Some e \<Rightarrow> (\<lparr>sent = [], ended = StreamError e\<rparr>, w2)
                     | None \<Rightarrow>
                         stream_loop ctx p outer req (i + 1) (attempt_error ev lastErr)
                           (if i < maxRetries p then sleep ctx (backoff p i) w2 else w2))))
      else (\<lparr>sent = [], ended = error_end lastErr\<rparr>, w))"
  by pat_completeness auto
termination
  by (relation "measure (\<lambda>(ctx, p, outer, req, i, lastErr, w). nat (maxRetries p + 1 - i))") auto

declare stream_loop.simps [simp del]

definition resilient_ChatStream ::
  "'w context_ops \<Rightarrow> 'w ResilientProvider \<Rightarrow> duration option \<Rightarrow> nat option \<Rightarrow> ChatRequest \<Rightarrow> 'w
    \<Rightarrow> stream outcome \<times> 'w" where
  "resilient_ChatStream ctx p outer cancel req w =
     (let (s, w') = stream_loop ctx p outer req 0 None w in (Return s, w'))"

text \<open>The decorator is a provider again.\<close>

definition as_provider :: "'w context_ops \<Rightarrow> 'w ResilientProvider \<Rightarrow> 'w provider" where
  "as_provider ctx p = \<lparr>Name = resilient_Name p, Chat = resilient_Chat ctx p, ChatStream = resilient_ChatStream ctx p\<rparr>"

section \<open>Counting and time\<close>

text \<open>
  What a client may measure of the world: a count of upstream calls and the time spent
  waiting. An attempt counts one call and does not wait; a wait does not call and takes at
  most its duration (a duration that is not positive is over at once).
\<close>

definition call_meter :: "('w \<Rightarrow> nat) \<Rightarrow> 'w context_ops \<Rightarrow> 'w provider \<Rightarrow> bool" where
  "call_meter calls ctx b \<longleftrightarrow>
     (\<forall>t req w. calls (snd (Chat b t req w)) = Suc (calls w))
     \<and> (\<forall>d w. calls (snd (wait_or_done ctx d w)) = calls w)"

definition wait_meter :: "('w \<Rightarrow> int) \<Rightarrow> 'w context_ops \<Rightarrow> 'w provider \<Rightarrow> bool" where
  "wait_meter waited ctx b \<longleftrightarrow>
     (\<forall>t req w. waited (snd (Chat b t req w)) = waited w)
     \<and> (\<forall>d w. waited w \<le> waited (snd (wait_or_done ctx d w)))
     \<and> (\<forall>d w. waited (snd (wait_or_done ctx d w)) \<le> waited w + max 0 d)"

lemma call_meterD:
  assumes "call_meter calls ctx b"
  shows "Chat b t req w = (r, w1) \<Longrightarrow> calls w1 = Suc (calls w)"
    and "wait_or_done ctx d w = (e, w2) \<Longrightarrow> calls w2 = calls w"
  using assms by (metis call_meter_def snd_conv)+

lemma wait_meterD:
  assumes "wait_meter waited ctx b"
  shows "Chat b t req w = (r, w1) \<Longrightarrow> waited w1 = waited w"
    and "wait_or_done ctx d w = (e, w2) \<Longrightarrow> waited w \<le> waited w2 \<and> waited w2 \<le> waited w + max 0 d"
  using assms by (metis wait_meter_def snd_conv)+

text \<open>The four ways an iteration goes on.\<close>

lemma chat_loop_stop:
  "maxRetries p < i \<Longrightarrow> chat_loop ctx p outer req i e w = (Return (Inl (exhausted p e)), w)"
  by (subst chat_loop.simps) simp

lemma chat_loop_return:
  assumes "i \<le> maxRetries p" "Chat (base p) (attempt_deadline outer (timeout p)) req w = (r, w1)"
    "\<forall>err. r = Return (Inl err) \<longrightarrow> ctx_Err ctx w1 \<noteq> None"
  shows "chat_loop ctx p outer req i e w = (r, w1)"
  using assms by (subst chat_loop.simps) (auto split: outcome.split sum.split)

lemma chat_loop_retry:
  assumes "i < maxRetries p" "Chat (base p) (attempt_deadline outer (timeout p)) req w = (Return (Inl err), w1)"
    "ctx_Err ctx w1 = None" "wait_or_done ctx (backoff p i) w1 = (x, w2)"
  shows "chat_loop ctx p outer req i e w
       = (case x of None \<Rightarrow> chat_loop ctx p outer req (i + 1) (Some err) w2 | Some e' \<Rightarrow> (Return (Inl e'), w2))"
  using assms by (subst chat_loop.simps) (auto split: option.split)

lemma chat_loop_last:
  assumes "i = maxRetries p" "Chat (base p) (attempt_deadline outer (timeout p)) req w = (Return (Inl err), w1)"
    "ctx_Err ctx w1 = None"
  shows "chat_loop ctx p outer req i e w = (Return (Inl (exhausted p (Some err))), w1)"
  using assms by (subst chat_loop.simps) (simp add: chat_loop_stop)

lemma chat_loop_induct [case_names stop return last cancelled retry]:
  fixes ctx :: "'w context_ops" and p :: "'w ResilientProvider"
  assumes stop: "\<And>i e w. maxRetries p < i \<Longrightarrow> P i e w (Return (Inl (exhausted p e)), w)"
    and return: "\<And>i e w r w1. i \<le> maxRetries p \<Longrightarrow>
      Chat (base p) (attempt_deadline outer (timeout p)) req w = (r, w1) \<Longrightarrow>
      \<forall>err. r = Return (Inl err) \<longrightarrow> ctx_Err ctx w1 \<noteq> None \<Longrightarrow> P i e w (r, w1)"
    and last: "\<And>i e w err w1. i = maxRetries p \<Longrightarrow>
      Chat (base p) (attempt_deadline outer (timeout p)) req w = (Return (Inl err), w1) \<Longrightarrow>
      P i e w (Return (Inl (exhausted p (Some err))), w1)"
    and cancelled: "\<And>i e w err w1 e' w2. i < maxRetries p \<Longrightarrow>
      Chat (base p) (attempt_deadline outer (timeout p)) req w = (Return (Inl err), w1) \<Longrightarrow>
      wait_or_done ctx (backoff p i) w1 = (Some e', w2) \<Longrightarrow> P i e w (Return (Inl e'), w2)"
    and retry: "\<And>i e w err w1 w2. i < maxRetries p \<Longrightarrow>
      Chat (base p) (attempt_deadline outer (timeout p)) req w = (Return (Inl err), w1) \<Longrightarrow>
      ctx_Err ctx w1 = None \<Longrightarrow>
      wait_or_done ctx (backoff p i) w1 = (None, w2) \<Longrightarrow>
      P (i + 1) (Some err) w2 (chat_loop ctx p outer req (i + 1) (Some err) w2) \<Longrightarrow>
      P i e w (chat_loop ctx p outer req (i + 1) (Some err) w2)"
  shows "P i e w (chat_loop ctx p outer req i e w)"
proof (induction "nat (maxRetries p + 1 - i)" arbitrary: i e w)
  case 0
  then show ?case by (simp add: chat_loop_stop stop)
next
  case (Suc n)
  then have i: "i \<le> maxRetries p" by simp
  obtain r w1 where c: "Chat (base p) (attempt_deadline outer (timeout p)) req w = (r, w1)" by fastforce
  show ?case
  proof (cases "\<forall>err. r = Return (Inl err) \<longrightarrow> ctx_Err ctx w1 \<noteq> None")
    case True
    then show ?thesis using chat_loop_return [OF i c True] return [OF i c True] by simp
  next
    case False
    then obtain err where r: "r = Return (Inl err)" and x: "ctx_Err ctx w1 = None" by auto
    note c' = c [unfolded r]
    show ?thesis
    proof (cases "i < maxRetries p")
      case True
      obtain x' w2 where w: "wait_or_done ctx (backoff p i) w1 = (x', w2)" by fastforce
      have "n = nat (maxRetries p + 1 - (i + 1))" using Suc(2) by simp
      note IH = Suc(1) [OF this, of "Some err" w2]
      show ?thesis
        unfolding chat_loop_retry [OF True c' x w]
        using cancelled [OF True c'] retry [OF True c' x] IH w by (cases x') simp_all
    next
      case False
      with i have "i = maxRetries p" by simp
      then show ?thesis using chat_loop_last [OF _ c' x] last [OF _ c'] by simp
    qed
  qed
qed

lemma chat_loop_calls:
  assumes "call_meter calls ctx (base p)"
  shows "calls (snd (chat_loop ctx p outer req i e w)) \<le> calls w + nat (maxRetries p + 1 - i)
       \<and> (i \<le> maxRetries p \<longrightarrow> calls w < calls (snd (chat_loop ctx p outer req i e w)))"
  by (rule chat_loop_induct [where ctx = ctx and p = p and outer = outer and req = req and
        P = "\<lambda>i e w r. calls (snd r) \<le> calls w + nat (maxRetries p + 1 - i) \<and> (i \<le> maxRetries p \<longrightarrow> calls w < calls (snd r))"])
    (auto dest!: call_meterD [OF assms])

text \<open>The backoff is the power of two the comment promises while it fits a duration.\<close>

lemma f64_pow2:
  assumes "k \<le> 62" shows "f64 (2 ^ k) = Fin (2 ^ k)"
proof -
  have "(2 :: rat) ^ k \<le> 2 ^ 62" using assms by (intro power_increasing) auto
  then have "\<bar>(2 :: rat) ^ k\<bar> \<le> 10 ^ 30" by simp
  moreover have "rnd (2 powi int k) = 2 powi int k" by (rule rnd_two_powi) simp
  ultimately show ?thesis by (simp add: f64_Fin)
qed

lemma backoff_exact:
  assumes "0 \<le> i" "i \<le> 36" "0 \<le> retryDelay p" "retryDelay p \<le> 100 * Millisecond"
  shows "backoff p i = 2 ^ nat i * retryDelay p" "0 \<le> backoff p i"
proof -
  have k: "nat i \<le> 62" using assms by simp
  have p: "(2 :: int) ^ nat i \<le> 2 ^ 36" using assms by (intro power_increasing) auto
  then have "int_of_float64 (f64 (2 ^ nat i)) = 2 ^ nat i"
  proof -
    have "(2 :: rat) ^ nat i = of_int (2 ^ nat i)" by simp
    then have t: "trunc_rat (2 ^ nat i) = 2 ^ nat i" by (simp only: trunc_rat_def floor_of_int) simp
    have "is_int64 (2 ^ nat i)" using p by (simp add: is_int64_def order_trans [of _ 0])
    then show ?thesis using k by (simp add: f64_pow2 int_of_float64_def t)
  qed
  note conv = this
  have "2 ^ nat i * retryDelay p \<le> 2 ^ 36 * (100 * Millisecond)"
    using p assms by (intro mult_mono) auto
  then have "2 ^ nat i * retryDelay p \<le> 6871947673600000000" by (simp add: Millisecond_def)
  moreover have "0 \<le> 2 ^ nat i * retryDelay p" using assms(3) by simp
  ultimately have "is_int64 (2 ^ nat i * retryDelay p)"
    by (intro is_int64_nonnegI) linarith+
  then show "backoff p i = 2 ^ nat i * retryDelay p" "0 \<le> backoff p i"
    using assms(3) conv by (simp_all add: backoff_def)
qed

lemma backoff_step:
  assumes "0 \<le> i" "i < maxRetries p" "maxRetries p \<le> 37" "0 \<le> retryDelay p" "retryDelay p \<le> 100 * Millisecond"
  shows "0 \<le> backoff p i"
    and "max 0 (2 ^ nat (maxRetries p) - 2 ^ nat (i + 1)) * retryDelay p + backoff p i
       = max 0 (2 ^ nat (maxRetries p) - 2 ^ nat i) * retryDelay p"
proof -
  have b: "backoff p i = 2 ^ nat i * retryDelay p" "0 \<le> backoff p i"
    using assms by (auto intro: backoff_exact)
  have s: "nat (i + 1) = Suc (nat i)" using assms by simp
  have "(2 :: int) ^ Suc (nat i) \<le> 2 ^ nat (maxRetries p)"
    using assms by (intro power_increasing) auto
  then have M: "max 0 ((2 :: int) ^ nat (maxRetries p) - 2 ^ nat (i + 1)) = 2 ^ nat (maxRetries p) - 2 * 2 ^ nat i"
    and N: "max 0 ((2 :: int) ^ nat (maxRetries p) - 2 ^ nat i) = 2 ^ nat (maxRetries p) - 2 ^ nat i"
    using power_increasing [of "nat i" "nat (maxRetries p)" "2 :: int"] assms(1,2) by (simp_all add: s max_def)
  show "max 0 (2 ^ nat (maxRetries p) - 2 ^ nat (i + 1)) * retryDelay p + backoff p i
       = max 0 (2 ^ nat (maxRetries p) - 2 ^ nat i) * retryDelay p"
    unfolding b(1) M N by (simp add: left_diff_distrib)
  show "0 \<le> backoff p i" by (rule b(2))
qed

lemma chat_loop_waits:
  assumes "wait_meter waited ctx (base p)" "0 \<le> i" "maxRetries p \<le> 37" "0 \<le> retryDelay p" "retryDelay p \<le> 100 * Millisecond"
  shows "waited (snd (chat_loop ctx p outer req i e w)) \<le> waited w + max 0 (2 ^ nat (maxRetries p) - 2 ^ nat i) * retryDelay p"
proof -
  have nn: "0 \<le> max 0 (2 ^ nat (maxRetries p) - 2 ^ nat j) * retryDelay p" for j using assms(4) by simp
  note m = wait_meterD [OF assms(1)] and b = backoff_step [OF _ _ assms(3-5)]
  have "0 \<le> i \<longrightarrow> waited (snd (chat_loop ctx p outer req i e w))
      \<le> waited w + max 0 (2 ^ nat (maxRetries p) - 2 ^ nat i) * retryDelay p"
  proof (rule chat_loop_induct [where ctx = ctx and p = p and outer = outer and req = req and
      P = "\<lambda>i e w r. 0 \<le> i \<longrightarrow> waited (snd r) \<le> waited w + max 0 (2 ^ nat (maxRetries p) - 2 ^ nat i) * retryDelay p"],
      goal_cases)
    case (4 i e w err w1 e' w2)
    then show ?case using m(1) [of _ _ w] m(2) [of _ w1] b [of i] nn [of "i + 1"] by fastforce
  next
    case (5 i e w err w1 w2)
    then show ?case using m(1) [of _ _ w] m(2) [of _ w1] b [of i] by fastforce
  qed (use nn m(1) in \<open>auto simp: max_def\<close>)
  with assms(2) show ?thesis by simp
qed

end
