(* ===== verification/Resilient_Properties.thy ===== *)
theory Resilient_Properties
  imports Resilient
begin

text \<open>The properties of the retrying decorator.\<close>

section \<open>The world at the start of an attempt\<close>

text \<open>
  \<open>at_attempt k w\<close> is the world in which attempt \<open>k\<close> (from 0) starts, with the error of
  the attempt before it, if every earlier attempt failed, the caller's context was alive
  after each, and each backoff ran to its end.
\<close>

fun at_attempt ::
  "'w context_ops \<Rightarrow> 'w ResilientProvider \<Rightarrow> duration option \<Rightarrow> ChatRequest \<Rightarrow> nat \<Rightarrow> 'w
    \<Rightarrow> (go_error option \<times> 'w) option" where
  "at_attempt ctx p outer req 0 w = Some (None, w)"
| "at_attempt ctx p outer req (Suc k) w =
     (case at_attempt ctx p outer req k w of
        None \<Rightarrow> None
      | Some (_, wk) \<Rightarrow>
          (case Chat (base p) (attempt_deadline outer (timeout p)) req wk of
             (Return (Inl err), w1) \<Rightarrow>
               if ctx_Err ctx w1 \<noteq> None then None
               else (case wait_or_done ctx (backoff p (int k)) w1 of
                       (None, w2) \<Rightarrow> Some (Some err, w2)
                     | (Some _, _) \<Rightarrow> None)
           | _ \<Rightarrow> None))"

lemma chat_loop_at_attempt:
  assumes "at_attempt ctx p outer req k w = Some (e, wk)" "int k \<le> maxRetries p"
  shows "resilient_Chat ctx p outer req w = chat_loop ctx p outer req (int k) e wk"
  using assms
proof (induction k arbitrary: e wk)
  case 0
  then show ?case by (simp add: resilient_Chat_def)
next
  case (Suc k)
  then obtain e0 w0 err w1 where a: "at_attempt ctx p outer req k w = Some (e0, w0)"
    "Chat (base p) (attempt_deadline outer (timeout p)) req w0 = (Return (Inl err), w1)"
    "ctx_Err ctx w1 = None" "wait_or_done ctx (backoff p (int k)) w1 = (None, wk)" "e = Some err"
    by (auto split: option.splits prod.splits outcome.splits sum.splits if_splits)
  have "int k < maxRetries p" using Suc.prems(2) by simp
  from chat_loop_retry [OF this a(2-4), of e0] Suc.IH [OF a(1)] Suc.prems(2) a(5)
  show ?case by (simp add: add.commute)
qed

section \<open>Properties\<close>

text \<open>
  C30: a chat request reaches the upstream provider at least once and at most
  \<open>maxRetries + 1\<close> times, whatever the provider answers and however the context behaves.
\<close>
theorem retry_attempts_bounded:
  assumes "call_meter calls ctx (base p)" and "0 \<le> maxRetries p"
    and "resilient_Chat ctx p outer req w = (r, w')"
  shows "calls w < calls w' \<and> calls w' \<le> calls w + nat (maxRetries p) + 1"
  using chat_loop_calls [OF assms(1), of outer req 0 None w] assms(2,3)
  by (simp add: resilient_Chat_def nat_add_distrib)

definition no_stream :: "duration option \<Rightarrow> nat option \<Rightarrow> ChatRequest \<Rightarrow> 'w \<Rightarrow> stream outcome \<times> 'w" where
  "no_stream t c req w = (Return \<lparr>sent = [], ended = StreamError (GoError ''down'')\<rparr>, w)"

definition failing_provider :: "nat provider" where
  "failing_provider = \<lparr>Name = ''p'', Chat = (\<lambda>t req n. (Return (Inl (GoError ''down'')), Suc n)), ChatStream = no_stream\<rparr>"

definition idle_context :: "nat context_ops" where
  "idle_context = \<lparr>ctx_Err = (\<lambda>_. None), wait_or_done = (\<lambda>d n. (None, n)), sleep = (\<lambda>d n. n),
     first_of = (\<lambda>s n. (if sent s = [] then ChunksClosed else FirstChunk, n))\<rparr>"

theorem retry_attempts_bounded_witness:
  "snd (resilient_Chat idle_context (NewResilientProvider failing_provider 2 (30 * Second)) None
      \<lparr>ReqModel = ''m'', Messages = [], Stream = False\<rparr> 0) \<le> 3"
proof -
  obtain r w' where e: "resilient_Chat idle_context (NewResilientProvider failing_provider 2 (30 * Second)) None
      \<lparr>ReqModel = ''m'', Messages = [], Stream = False\<rparr> 0 = (r, w')" by fastforce
  have "call_meter (\<lambda>n. n) idle_context failing_provider"
    by (simp add: call_meter_def idle_context_def failing_provider_def)
  then show ?thesis using retry_attempts_bounded [OF _ _ e, of "\<lambda>n. n"] e by (simp add: NewResilientProvider_def)
qed

text \<open>
  The first attempt that succeeds decides: if the attempts before it failed while the
  caller still waited, and it is within the retry budget, the caller gets its response and
  nothing further is sent upstream.
\<close>
theorem first_success_returned:
  assumes "at_attempt ctx p outer req k w = Some (e, wk)" and "int k \<le> maxRetries p"
    and "Chat (base p) (attempt_deadline outer (timeout p)) req wk = (Return (Inr resp), w')"
  shows "resilient_Chat ctx p outer req w = (Return (Inr resp), w')"
  using chat_loop_at_attempt [OF assms(1,2)] chat_loop_return [OF assms(2,3)] by simp

definition flaky_provider :: "nat provider" where
  "flaky_provider = \<lparr>Name = ''p'', Chat = (\<lambda>t req n.
     (if n < 1 then Return (Inl (GoError ''down''))
      else Return (Inr \<lparr>RespContent = ''hi'', RespModel = ''m'', RespProvider = ''p'', PromptTokens = 1, CompletionTokens = 1\<rparr>), Suc n)), ChatStream = no_stream\<rparr>"

theorem first_success_returned_witness:
  "resilient_Chat idle_context (NewResilientProvider flaky_provider 2 (30 * Second)) None
      \<lparr>ReqModel = ''m'', Messages = [], Stream = False\<rparr> 0
   = (Return (Inr \<lparr>RespContent = ''hi'', RespModel = ''m'', RespProvider = ''p'', PromptTokens = 1, CompletionTokens = 1\<rparr>), 2)"
  by (rule first_success_returned [of _ _ _ _ 1 _ "Some (GoError ''down'')" 1])
    (simp_all add: idle_context_def flaky_provider_def NewResilientProvider_def)

text \<open>
  When the last permitted attempt fails too, the caller gets an error that names the
  provider and the retry count and wraps the last error; when the caller has gone away
  after an attempt, it gets that attempt's error at once.
\<close>
theorem exhausted_retries_reported:
  assumes "at_attempt ctx p outer req k w = Some (e, wk)" and "int k \<le> maxRetries p"
    and "Chat (base p) (attempt_deadline outer (timeout p)) req wk = (Return (Inl err), w')"
  shows "(ctx_Err ctx w' \<noteq> None \<longrightarrow> resilient_Chat ctx p outer req w = (Return (Inl err), w'))
       \<and> (ctx_Err ctx w' = None \<and> int k = maxRetries p \<longrightarrow>
            resilient_Chat ctx p outer req w = (Return (Inl (exhausted p (Some err))), w'))"
  using chat_loop_at_attempt [OF assms(1,2)] chat_loop_return [OF assms(2,3), where ctx = ctx]
    chat_loop_last [OF _ assms(3), where ctx = ctx] by auto

theorem exhausted_retries_reported_witness:
  "resilient_Chat idle_context (NewResilientProvider failing_provider 1 (30 * Second)) None
      \<lparr>ReqModel = ''m'', Messages = [], Stream = False\<rparr> 0
   = (Return (Inl (exhausted (NewResilientProvider failing_provider 1 (30 * Second)) (Some (GoError ''down'')))), 2)"
  using exhausted_retries_reported [of idle_context "NewResilientProvider failing_provider 1 (30 * Second)" None
      "\<lparr>ReqModel = ''m'', Messages = [], Stream = False\<rparr>" 1 0 "Some (GoError ''down'')" 1 "GoError ''down''" 2]
  by (simp add: idle_context_def failing_provider_def NewResilientProvider_def)

text \<open>
  The exponential backoff of a request adds up to at most \<open>(2 ^ maxRetries - 1)\<close>
  times the base delay, 300 milliseconds for the gateway's two retries; the arithmetic on
  durations does not wrap for up to 37 retries.
\<close>
theorem total_backoff_bounded:
  assumes "wait_meter waited ctx b" and "0 \<le> n" and "n \<le> 37"
    and "resilient_Chat ctx (NewResilientProvider b n t) outer req w = (r, w')"
  shows "waited w' \<le> waited w + (2 ^ nat n - 1) * (100 * Millisecond)"
proof -
  let ?p = "NewResilientProvider b n t"
  have d: "retryDelay ?p = 100 * Millisecond"
    by (simp add: NewResilientProvider_def Millisecond_def is_int64_def)
  have m: "wait_meter waited ctx (base ?p)" "maxRetries ?p = n" using assms(1) by (simp_all add: NewResilientProvider_def)
  have "max 0 ((2 :: int) ^ nat n - 2 ^ nat 0) = 2 ^ nat n - 1" by (simp add: max_def)
  with chat_loop_waits [OF m(1), of 0 outer req None w] assms(2-4)
  show ?thesis by (simp add: d m(2) resilient_Chat_def Millisecond_def)
qed

theorem total_backoff_bounded_witness:
  "snd (resilient_Chat \<lparr>ctx_Err = (\<lambda>_. None), wait_or_done = (\<lambda>d n. (None, n + max 0 d)), sleep = (\<lambda>d n. n), first_of = (\<lambda>s n. (ChunksClosed, n))\<rparr>
      (NewResilientProvider \<lparr>Name = ''p'', Chat = (\<lambda>t req n. (Return (Inl (GoError ''down'')), n)), ChatStream = no_stream\<rparr> 2 (30 * Second)) None
      \<lparr>ReqModel = ''m'', Messages = [], Stream = False\<rparr> (0 :: int)) \<le> 300 * Millisecond"
    (is "snd (resilient_Chat ?ctx (NewResilientProvider ?b 2 ?t) None ?req 0) \<le> _")
proof -
  obtain r w' where e: "resilient_Chat ?ctx (NewResilientProvider ?b 2 ?t) None ?req 0 = (r, w')" by fastforce
  have "wait_meter (\<lambda>n :: int. n) ?ctx ?b" by (simp add: wait_meter_def)
  from total_backoff_bounded [OF this _ _ e] e show ?thesis by simp
qed

section \<open>The attempts of a stream\<close>

text \<open>
  \<open>stream_attempt k w\<close> is the world in which attempt \<open>k\<close> (from 0) of a stream starts, with the
  error remembered so far, if no earlier attempt gave a chunk, brought the goroutine down or
  was given up by the caller.
\<close>

fun stream_attempt ::
  "'w context_ops \<Rightarrow> 'w ResilientProvider \<Rightarrow> duration option \<Rightarrow> ChatRequest \<Rightarrow> nat \<Rightarrow> 'w
    \<Rightarrow> (go_error option \<times> 'w) option" where
  "stream_attempt ctx p outer req 0 w = Some (None, w)"
| "stream_attempt ctx p outer req (Suc k) w =
     (case stream_attempt ctx p outer req k w of
        None \<Rightarrow> None
      | Some (e, wk) \<Rightarrow>
          (case ChatStream (base p) (attempt_deadline outer (timeout p)) (Some 1) req wk of
             (Return s, w1) \<Rightarrow>
               (let (ev, w2) = first_of ctx s w1
                in if ev = FirstChunk \<or> (\<exists>m. ended s = StreamCrash m) \<or> ctx_Err ctx w2 \<noteq> None then None
                   else Some (attempt_error ev e, if int k < maxRetries p then sleep ctx (backoff p (int k)) w2 else w2))
           | _ \<Rightarrow> None))"

text \<open>The first chunk comes in attempt \<open>k\<close>, from the stream \<open>b\<close> of the provider.\<close>

definition first_chunk_at ::
  "'w context_ops \<Rightarrow> 'w ResilientProvider \<Rightarrow> duration option \<Rightarrow> ChatRequest \<Rightarrow> 'w \<Rightarrow> nat \<Rightarrow> stream \<Rightarrow> 'w \<Rightarrow> bool" where
  "first_chunk_at ctx p outer req w k b w' \<longleftrightarrow>
     int k \<le> maxRetries p \<and>
     (\<exists>e wk w1. stream_attempt ctx p outer req k w = Some (e, wk)
        \<and> ChatStream (base p) (attempt_deadline outer (timeout p)) (Some 1) req wk = (Return b, w1)
        \<and> first_of ctx b w1 = (FirstChunk, w'))"

definition passed_on :: "stream \<Rightarrow> stream" where
  "passed_on b = \<lparr>sent = sent b, ended = (case ended b of StreamCrash m \<Rightarrow> StreamCrash m | _ \<Rightarrow> StreamClosed)\<rparr>"

lemma stream_loop_first:
  assumes "i \<le> maxRetries p" "ChatStream (base p) (attempt_deadline outer (timeout p)) (Some 1) req w = (Return b, w1)"
    and "first_of ctx b w1 = (FirstChunk, w2)"
  shows "stream_loop ctx p outer req i e w = (passed_on b, w2)"
  using assms by (simp add: stream_loop.simps [of ctx p outer req i] passed_on_def)

lemma stream_loop_next:
  assumes "int k \<le> maxRetries p" "stream_attempt ctx p outer req k w0 = Some (e, w)"
    and "stream_attempt ctx p outer req (Suc k) w0 = Some (e', w')"
  shows "stream_loop ctx p outer req (int k) e w = stream_loop ctx p outer req (int k + 1) e' w'"
proof -
  obtain b w1 ev w2 where a: "ChatStream (base p) (attempt_deadline outer (timeout p)) (Some 1) req w = (Return b, w1)"
    "first_of ctx b w1 = (ev, w2)" "ev \<noteq> FirstChunk" "\<And>m. ended b \<noteq> StreamCrash m" "ctx_Err ctx w2 = None"
    "e' = attempt_error ev e" "w' = (if int k < maxRetries p then sleep ctx (backoff p (int k)) w2 else w2)"
    using assms(2,3) by (auto split: prod.splits outcome.splits if_splits)
  with assms(1) show ?thesis
    by (simp add: stream_loop.simps [of ctx p outer req "int k"] split: stream_end.split first_event.split)
qed

lemma stream_loop_silent:
  assumes "i \<le> maxRetries p" "\<nexists>b w1 w2. ChatStream (base p) (attempt_deadline outer (timeout p)) (Some 1) req w = (Return b, w1)
      \<and> first_of ctx b w1 = (FirstChunk, w2)"
    and "stream_attempt ctx p outer req k w0 = Some (e, w)" "i = int k" "stream_attempt ctx p outer req (Suc k) w0 = None"
  shows "sent (fst (stream_loop ctx p outer req i e w)) = []"
proof -
  obtain r w1 where r: "ChatStream (base p) (attempt_deadline outer (timeout p)) (Some 1) req w = (r, w1)" by fastforce
  show ?thesis
  proof (cases r)
    case (Return b)
    obtain ev w2 where ev: "first_of ctx b w1 = (ev, w2)" by fastforce
    then have "ev \<noteq> FirstChunk" using assms(2) r Return by blast
    moreover from this have "(\<exists>m. ended b = StreamCrash m) \<or> ctx_Err ctx w2 \<noteq> None"
      using assms(3,5) r Return ev by (auto split: if_splits)
    ultimately show ?thesis using assms(1) r Return ev
      by (auto simp: stream_loop.simps [of ctx p outer req i] split: stream_end.split first_event.split option.split)
  qed (use assms(1) r in \<open>simp_all add: stream_loop.simps [of ctx p outer req i]\<close>)
qed

lemma stream_loop_attempt:
  "stream_attempt ctx p outer req k w = Some (e, wk) \<Longrightarrow> int k \<le> maxRetries p + 1 \<Longrightarrow>
     stream_loop ctx p outer req 0 None w = stream_loop ctx p outer req (int k) e wk"
proof (induction k arbitrary: e wk)
  case (Suc k)
  then obtain e0 w0 where a: "stream_attempt ctx p outer req k w = Some (e0, w0)" by (auto split: option.splits)
  have "int k \<le> maxRetries p" using Suc.prems(2) by simp
  from Suc.IH [OF a] stream_loop_next [OF this a Suc.prems(1)] Suc.prems(2) show ?case by (simp add: add.commute)
qed simp

lemma stream_loop_chunks:
  "stream_attempt ctx p outer req k w = Some (e, wk) \<Longrightarrow> sent (fst (stream_loop ctx p outer req (int k) e wk)) \<noteq> [] \<Longrightarrow>
     \<exists>k b w'. first_chunk_at ctx p outer req w k b w'"
proof (induction "nat (maxRetries p + 1 - int k)" arbitrary: k e wk rule: less_induct)
  case less
  have i: "int k \<le> maxRetries p"
    using less.prems(2) by (rule contrapos_np) (simp add: stream_loop.simps [of ctx p outer req "int k"])
  show ?case
  proof (cases "\<exists>b w1 w2. ChatStream (base p) (attempt_deadline outer (timeout p)) (Some 1) req wk = (Return b, w1)
      \<and> first_of ctx b w1 = (FirstChunk, w2)")
    case True
    then show ?thesis using i less.prems(1) unfolding first_chunk_at_def by blast
  next
    case False
    then obtain e' w' where n: "stream_attempt ctx p outer req (Suc k) w = Some (e', w')"
      using stream_loop_silent [OF i False less.prems(1) refl] less.prems(2)
      by (cases "stream_attempt ctx p outer req (Suc k) w") auto
    from less.hyps [OF _ n] less.prems(2) stream_loop_next [OF i less.prems(1) n] i show ?thesis by (simp add: add.commute)
  qed
qed

lemma first_chunk_decides:
  "first_chunk_at ctx p outer req w k b w' \<Longrightarrow> stream_loop ctx p outer req 0 None w = (passed_on b, w')"
  by (auto simp: first_chunk_at_def stream_loop_attempt stream_loop_first)

text \<open>
  C38: the stream of a client never ends with an error once it has a chunk, whatever the
  provider does and in whichever attempt the chunk came: it has chunks exactly if some
  attempt gave a first one; these are then the chunks of that attempt's stream, after whose
  first the provider was told to stop, and the client sees them end as a success when the
  provider ended them with an error.
\<close>
theorem stream_error_after_first_chunk_lost:
  assumes "ChatStream (as_provider ctx p) outer cancel req w = (Return s, w')"
    and "\<forall>b w. possible_first b (fst (first_of ctx b w))"
  shows "(sent s \<noteq> [] \<longleftrightarrow> (\<exists>k b. first_chunk_at ctx p outer req w k b w'))
    \<and> (first_chunk_at ctx p outer req w k b w'' \<longrightarrow>
         sent s = sent b \<and> w'' = w' \<and> (\<forall>e. ended b = StreamError e \<longrightarrow> ended s = StreamClosed))
    \<and> (sent s \<noteq> [] \<longrightarrow> (\<forall>e. ended s \<noteq> StreamError e))"
proof -
  have l: "stream_loop ctx p outer req 0 None w = (s, w')"
    using assms(1) by (auto simp: as_provider_def resilient_ChatStream_def split: prod.splits)
  have d: "s = passed_on b \<and> v = w'" if "first_chunk_at ctx p outer req w k b v" for k b v
    using first_chunk_decides [OF that] l by simp
  have c: "sent b \<noteq> []" if "first_chunk_at ctx p outer req w k b v" for k b v
    using that assms(2) unfolding first_chunk_at_def by (metis fst_conv possible_first.simps(1))
  have f: "\<exists>k b. first_chunk_at ctx p outer req w k b w' \<and> s = passed_on b" if sent: "sent s \<noteq> []"
  proof -
    obtain k b v where "first_chunk_at ctx p outer req w k b v"
      using stream_loop_chunks [of ctx p outer req 0 w None w] sent l by auto
    then show ?thesis using d by blast
  qed
  have e: "sent (passed_on b) = sent b" "ended (passed_on b) \<noteq> StreamError e"
    "ended b = StreamError e \<Longrightarrow> ended (passed_on b) = StreamClosed" for b e
    by (simp_all add: passed_on_def split: stream_end.split)
  show ?thesis
  proof (intro conjI impI)
    show "sent s \<noteq> [] \<longleftrightarrow> (\<exists>k b. first_chunk_at ctx p outer req w k b w')" using c d e(1) f by metis
    show "\<forall>e. ended s \<noteq> StreamError e" if "sent s \<noteq> []" using f [OF that] e(2) by blast
  qed (use d e in blast)+
qed

definition breaking_stream :: stream where
  "breaking_stream = \<lparr>sent = [\<lparr>ChunkContent = ''half'', FinishReason = [], ChunkPromptTokens = 0, ChunkCompletionTokens = 0\<rparr>],
     ended = StreamError (GoError ''connection reset'')\<rparr>"

text \<open>A provider whose second stream breaks after its chunk; the first gave nothing.\<close>

definition breaking_provider :: "nat provider" where
  "breaking_provider = failing_provider\<lparr>ChatStream := (\<lambda>t c req n.
     (Return (if n = 0 then \<lparr>sent = [], ended = StreamError (GoError ''down'')\<rparr> else breaking_stream), Suc n))\<rparr>"

theorem stream_error_after_first_chunk_lost_witness:
  "\<exists>s w'. ChatStream (as_provider idle_context (NewResilientProvider breaking_provider 2 (30 * Second))) None None
      \<lparr>ReqModel = ''m'', Messages = [], Stream = True\<rparr> 0 = (Return s, w')
    \<and> sent s = sent breaking_stream \<and> ended s = StreamClosed"
proof -
  let ?p = "NewResilientProvider breaking_provider 2 (30 * Second)" and ?req = "\<lparr>ReqModel = ''m'', Messages = [], Stream = True\<rparr>"
  obtain s w' where s: "ChatStream (as_provider idle_context ?p) None None ?req 0 = (Return s, w')"
    by (simp add: as_provider_def resilient_ChatStream_def split_beta)
  have "\<forall>b w. possible_first b (fst (first_of idle_context b w))" by (simp add: idle_context_def)
  moreover have "first_chunk_at idle_context ?p None ?req 0 1 breaking_stream 2"
    by (simp add: first_chunk_at_def NewResilientProvider_def breaking_provider_def idle_context_def breaking_stream_def)
  moreover have "ended breaking_stream = StreamError (GoError ''connection reset'')" by (simp add: breaking_stream_def)
  ultimately have "sent s = sent breaking_stream \<and> ended s = StreamClosed"
    using stream_error_after_first_chunk_lost [OF s, of 1 breaking_stream 2] by blast
  with s show ?thesis by blast
qed

end
