(* ===== verification/Selector.thy ===== *)
theory Selector
  imports Health_Monitor_Correct Provider
begin

text \<open>
  \<open>internal/router/selector.go\<close>: the provider selector. It filters the providers by the
  tenant's allowlist and the monitor's state, sorts what is left by latency average and
  takes the first. The monitor is the \<open>EWMAMonitor\<close>, the one implementation of its
  interface, so the type assertion of \<open>getLatency\<close> succeeds.

  Asking the monitor about a provider it has not seen creates an entry, stamped with the
  clock: \<open>clock name\<close> is the reading when the entry of that name is created, which
  happens at most once in a selection.
\<close>

section \<open>sort.Slice\<close>

text \<open>
  The interface of the library's sort: for a comparison that is a strict weak order, the
  result is a permutation in which no element is less than an earlier one.
\<close>

definition strict_weak :: "('a \<Rightarrow> 'a \<Rightarrow> bool) \<Rightarrow> bool" where
  "strict_weak lt \<longleftrightarrow>
     (\<forall>x. \<not> lt x x) \<and>
     (\<forall>x y z. lt x y \<longrightarrow> lt y z \<longrightarrow> lt x z) \<and>
     (\<forall>x y z. \<not> lt x y \<longrightarrow> \<not> lt y z \<longrightarrow> \<not> lt x z)"

locale slice_sort =
  fixes srt :: "('a \<Rightarrow> 'a \<Rightarrow> bool) \<Rightarrow> 'a list \<Rightarrow> 'a list"
  assumes permutes: "mset (srt lt xs) = mset xs"
    and ordered: "strict_weak lt \<Longrightarrow> sorted_wrt (\<lambda>x y. \<not> lt y x) (srt lt xs)"
begin

lemma srt_set: "set (srt lt xs) = set xs"
  by (rule mset_eq_setD [OF permutes])

lemma srt_empty: "srt lt xs = [] \<longleftrightarrow> xs = []"
  using mset_eq_length [OF permutes, of lt xs] by (simp flip: length_0_conv)

text \<open>The head is a minimum.\<close>

lemma hd_minimal:
  assumes "strict_weak lt" "x \<in> set xs"
  shows "\<not> lt x (hd (srt lt xs))"
proof (cases "srt lt xs")
  case Nil
  then show ?thesis using assms srt_empty by auto
next
  case (Cons y ys)
  then have "x = y \<or> x \<in> set ys" using assms(2) srt_set [of lt xs] by auto
  moreover have "\<not> lt x x" using assms(1) by (simp add: strict_weak_def)
  moreover have "\<forall>z \<in> set ys. \<not> lt z y" using ordered [OF assms(1), of xs] Cons by simp
  ultimately show ?thesis using Cons by auto
qed

end

text \<open>
  The library sorts up to twelve elements by insertion: element \<open>i\<close> moves left past every
  element it is less than. The sorted prefix is held reversed, its last element first.
\<close>

fun insert_left :: "('a \<Rightarrow> 'a \<Rightarrow> bool) \<Rightarrow> 'a \<Rightarrow> 'a list \<Rightarrow> 'a list" where
  "insert_left lt x [] = [x]"
| "insert_left lt x (y # prefix) = (if lt x y then y # insert_left lt x prefix else x # y # prefix)"

definition insertion_sort :: "('a \<Rightarrow> 'a \<Rightarrow> bool) \<Rightarrow> 'a list \<Rightarrow> 'a list" where
  "insertion_sort lt xs = rev (fold (insert_left lt) xs [])"

text \<open>Above twelve elements it is pattern-defeating quicksort, a parameter.\<close>

definition sort_Slice ::
  "(('a \<Rightarrow> 'a \<Rightarrow> bool) \<Rightarrow> 'a list \<Rightarrow> 'a list) \<Rightarrow> ('a \<Rightarrow> 'a \<Rightarrow> bool) \<Rightarrow> 'a list \<Rightarrow> 'a list" where
  "sort_Slice pdq lt xs = (if length xs \<le> 12 then insertion_sort lt xs else pdq lt xs)"

section \<open>The selector\<close>

fun in_allowlist :: "string list \<Rightarrow> string \<Rightarrow> bool" where
  "in_allowlist [] name = False"
| "in_allowlist (a # as) name = (if a = name then True else in_allowlist as name)"

definition allowed :: "string list \<Rightarrow> string \<Rightarrow> bool" where
  "allowed allowlist name = (if length allowlist = 0 then True else in_allowlist allowlist name)"

fun filter_candidates ::
  "string list \<Rightarrow> (string \<Rightarrow> instant) \<Rightarrow> 'w provider list \<Rightarrow> EWMAMonitor \<Rightarrow> 'w provider list \<times> EWMAMonitor" where
  "filter_candidates allowlist clock [] m = ([], m)"
| "filter_candidates allowlist clock (p # ps) m =
     (if allowed allowlist (Name p) then
        let (state, m1) = GetState m (Name p) (clock (Name p));
            (cs, m2) = filter_candidates allowlist clock ps m1
        in (if state \<noteq> StateUnhealthy then p # cs else cs, m2)
      else filter_candidates allowlist clock ps m)"

definition getLatency :: "EWMAMonitor \<Rightarrow> string \<Rightarrow> instant \<Rightarrow> float64 \<times> EWMAMonitor" where
  "getLatency m name now =
     (let (pm, m') = getMetrics m name now
      in (if latencyEWMA pm = 0 then max_float64 else latencyEWMA pm, m'))"

text \<open>
  The comparison asks the monitor again, which by then has an entry for every candidate:
  it reads only.
\<close>

definition faster :: "EWMAMonitor \<Rightarrow> (string \<Rightarrow> instant) \<Rightarrow> 'w provider \<Rightarrow> 'w provider \<Rightarrow> bool" where
  "faster m clock p q =
     (fst (getLatency m (Name p) (clock (Name p))) < fst (getLatency m (Name q) (clock (Name q))))"

definition Select ::
  "(('w provider \<Rightarrow> 'w provider \<Rightarrow> bool) \<Rightarrow> 'w provider list \<Rightarrow> 'w provider list) \<Rightarrow> (string \<Rightarrow> instant)
    \<Rightarrow> EWMAMonitor \<Rightarrow> 'w provider list \<Rightarrow> string list \<Rightarrow> 'w provider option \<times> EWMAMonitor" where
  "Select pdq clock m providers allowlist =
     (let (candidates, m') = filter_candidates allowlist clock providers m
      in if length candidates = 0 then (None, m')
         else (Some (hd (sort_Slice pdq (faster m' clock) candidates)), m'))"

section \<open>Insertion sort keeps the contract\<close>

lemma mset_insert_left [simp]: "mset (insert_left lt x ys) = add_mset x (mset ys)"
  by (induction ys) auto

lemma set_insert_left [simp]: "set (insert_left lt x ys) = insert x (set ys)"
  using mset_insert_left by (metis set_mset_add_mset_insert set_mset_mset)

lemma mset_fold_insert: "mset (fold (insert_left lt) xs acc) = mset xs + mset acc"
  by (induction xs arbitrary: acc) auto

lemma sorted_insert_left:
  assumes "strict_weak lt" "sorted_wrt (\<lambda>x y. \<not> lt x y) ys"
  shows "sorted_wrt (\<lambda>x y. \<not> lt x y) (insert_left lt x ys)"
  using assms(2)
proof (induction ys)
  case (Cons y ys)
  have "\<not> lt y x" if "lt x y" using assms(1) that by (metis strict_weak_def)
  moreover have "\<not> lt x z" if "\<not> lt x y" "z \<in> set ys" for z
    using assms(1) that Cons.prems by (metis strict_weak_def sorted_wrt.simps(2))
  ultimately show ?case using Cons by auto
qed simp

lemma sorted_fold_insert:
  assumes "strict_weak lt" "sorted_wrt (\<lambda>x y. \<not> lt x y) acc"
  shows "sorted_wrt (\<lambda>x y. \<not> lt x y) (fold (insert_left lt) xs acc)"
  using assms(2) by (induction xs arbitrary: acc) (auto intro: sorted_insert_left [OF assms(1)])

interpretation insertion: slice_sort insertion_sort
proof
  fix lt :: "'a \<Rightarrow> 'a \<Rightarrow> bool" and xs
  show "mset (insertion_sort lt xs) = mset xs"
    by (simp add: insertion_sort_def mset_fold_insert)
  assume "strict_weak lt"
  then show "sorted_wrt (\<lambda>x y. \<not> lt y x) (insertion_sort lt xs)"
    by (simp add: insertion_sort_def sorted_wrt_rev sorted_fold_insert)
qed

text \<open>A sort of long slices with the contract gives one of all slices.\<close>

lemma sort_Slice_contract:
  assumes "slice_sort pdq" shows "slice_sort (sort_Slice pdq)"
  using assms by (auto simp: slice_sort_def sort_Slice_def insertion.permutes insertion.ordered)

text \<open>Insertion is stable: the head is the first of the least elements.\<close>

lemma insert_left_nonempty [simp]: "insert_left lt x ys \<noteq> []"
  by (cases ys) auto

lemma last_insert_left:
  assumes "ys \<noteq> []"
  shows "last (insert_left lt x ys) = (if list_all (lt x) ys then x else last ys)"
  using assms by (induction ys) auto

fun leftmost_min :: "('a \<Rightarrow> 'a \<Rightarrow> bool) \<Rightarrow> 'a \<Rightarrow> 'a list \<Rightarrow> 'a" where
  "leftmost_min lt b [] = b"
| "leftmost_min lt b (x # xs) = leftmost_min lt (if lt x b then x else b) xs"

lemma sorted_last_all:
  assumes "strict_weak lt" "sorted_wrt (\<lambda>x y. \<not> lt x y) ys" "ys \<noteq> []"
  shows "list_all (lt x) ys \<longleftrightarrow> lt x (last ys)"
proof
  assume l: "lt x (last ys)"
  have "lt x y" if "y \<in> set ys" for y
  proof (cases "y = last ys")
    case False
    then have "y \<in> set (butlast ys)" using that by (metis assms(3) append_butlast_last_id in_set_conv_decomp UnE set_append singletonD list.set(2) empty_iff insert_iff list.set(1))
    moreover have "sorted_wrt (\<lambda>x y. \<not> lt x y) (butlast ys @ [last ys])" using assms(2,3) by simp
    ultimately have "\<not> lt y (last ys)" by (auto simp: sorted_wrt_append)
    then show ?thesis using assms(1) l by (metis strict_weak_def)
  qed (use l in simp)
  then show "list_all (lt x) ys" by (simp add: list_all_iff)
qed (use assms(3) in \<open>auto simp: list_all_iff\<close>)

lemma last_fold_insert:
  assumes "strict_weak lt" "sorted_wrt (\<lambda>x y. \<not> lt x y) acc" "acc \<noteq> []"
  shows "last (fold (insert_left lt) xs acc) = leftmost_min lt (last acc) xs"
  using assms(2,3)
proof (induction xs arbitrary: acc)
  case (Cons x xs)
  show ?case
    using Cons sorted_insert_left [OF assms(1) Cons.prems(1), of x]
    by (simp add: last_insert_left sorted_last_all [OF assms(1)])
qed simp

lemma hd_insertion_sort:
  assumes "strict_weak lt"
  shows "hd (insertion_sort lt (x # xs)) = leftmost_min lt x xs"
proof -
  have "fold (insert_left lt) (x # xs) [] \<noteq> []"
    using mset_fold_insert [of lt "x # xs" "[]"] by auto
  then show ?thesis
    using last_fold_insert [OF assms, of "[x]" xs] by (simp add: insertion_sort_def hd_rev)
qed

text \<open>What the leftmost minimum is.\<close>

lemma leftmost_min_split:
  assumes "strict_weak lt"
  shows "\<exists>before after. b # xs = before @ leftmost_min lt b xs # after
           \<and> (\<forall>y \<in> set before. lt (leftmost_min lt b xs) y)
           \<and> (\<forall>y \<in> set after. \<not> lt y (leftmost_min lt b xs))"
proof (induction xs arbitrary: b)
  case Nil
  have "[b] = [] @ leftmost_min lt b [] # []" by simp
  then show ?case by fastforce
next
  case (Cons x xs)
  note sw = assms [unfolded strict_weak_def]
  define r where "r = leftmost_min lt (if lt x b then x else b) xs"
  from Cons [of "if lt x b then x else b"]
  obtain before after where s: "(if lt x b then x else b) # xs = before @ r # after"
    "\<forall>y \<in> set before. lt r y" "\<forall>y \<in> set after. \<not> lt y r"
    by (auto simp: r_def)
  show ?case
  proof (cases "lt x b")
    case True
    have "lt r b"
    proof (cases before)
      case Nil
      then show ?thesis using s(1) True by simp
    next
      case (Cons z zs)
      then have "lt r x" using s(1,2) True by auto
      then show ?thesis using True sw by metis
    qed
    then have "b # x # xs = (b # before) @ r # after" "\<forall>y \<in> set (b # before). lt r y"
      using s(1,2) True by simp_all
    with s(3) show ?thesis unfolding leftmost_min.simps r_def [symmetric] by blast
  next
    case False
    show ?thesis
    proof (cases before)
      case Nil
      then have "r = b" "xs = after" using s(1) False by auto
      with s(3) False have "b # x # xs = [] @ r # (x # xs)" "\<forall>y \<in> set (x # xs). \<not> lt y r" by auto
      moreover have "\<forall>y \<in> set []. lt r y" by simp
      ultimately show ?thesis unfolding leftmost_min.simps r_def [symmetric] by blast
    next
      case (Cons z zs)
      then have z: "z = b" "xs = zs @ r # after" using s(1) False by auto
      then have "lt r b" using s(2) Cons by simp
      then have "lt r x" using False sw by metis
      have "b # x # xs = (b # x # zs) @ r # after" using z by simp
      moreover have "\<forall>y \<in> set (b # x # zs). lt r y" using \<open>lt r b\<close> \<open>lt r x\<close> s(2) Cons by simp
      ultimately show ?thesis using s(3) unfolding leftmost_min.simps r_def [symmetric] by blast
    qed
  qed
qed

end
