(* ===== verification/Selector_Properties.thy ===== *)
theory Selector_Properties
  imports Selector
begin

text \<open>The properties of the provider selector, over every monitor that satisfies its invariant.\<close>

section \<open>Eligibility and latency, as the tenant's configuration and the monitor give them\<close>

definition eligible :: "EWMAMonitor \<Rightarrow> string list \<Rightarrow> 'w provider \<Rightarrow> bool" where
  "eligible m allowlist p \<longleftrightarrow>
     (allowlist = [] \<or> Name p \<in> set allowlist) \<and> monitor_state m (Name p) \<noteq> StateUnhealthy"

definition latency_of :: "EWMAMonitor \<Rightarrow> string \<Rightarrow> float64" where
  "latency_of m name = (if fst (view m name) = 0 then max_float64 else fst (view m name))"

lemma less_float64_antisym: "(x :: float64) < y \<Longrightarrow> \<not> y < x"
  by (cases x; cases y) auto

lemma in_allowlist_iff: "in_allowlist al n \<longleftrightarrow> n \<in> set al"
  by (induction al) auto

lemma allowed_iff: "allowed al n \<longleftrightarrow> al = [] \<or> n \<in> set al"
  by (auto simp: allowed_def in_allowlist_iff)

lemma getLatency_latency: "fst (getLatency m n t) = latency_of m n"
  by (simp add: getLatency_def getMetrics_entry latency_of_def view_entry [of m n t] Let_def)

text \<open>The filter keeps the eligible providers and only asks the monitor.\<close>

lemma GetState_call: "snd (GetState m p t) = perform_call (CallGetState p t) m"
  by simp

definition asked :: "string list \<Rightarrow> (string \<Rightarrow> instant) \<Rightarrow> 'w provider list \<Rightarrow> monitor_call list" where
  "asked al clock ps = map (\<lambda>p. CallGetState (Name p) (clock (Name p))) (filter (\<lambda>p. allowed al (Name p)) ps)"

lemma filter_candidates_run:
  "snd (filter_candidates al clock ps m) = fold perform_call (asked al clock ps) m"
  by (induction ps arbitrary: m)
    (auto simp: asked_def split_beta Let_def)

lemma asked_ok: "list_all call_ok (asked al clock ps)"
  by (auto simp: asked_def list_all_iff)

lemma view_fold_asked: "view (fold perform_call (asked al clock ps) m) = view m"
  by (induction ps arbitrary: m) (auto simp: asked_def view_query)

lemma state_cong: "view m = view m' \<Longrightarrow> monitor_state m p = monitor_state m' p"
  by (simp add: monitor_state_view)

lemma filter_candidates_eligible:
  "fst (filter_candidates al clock ps m) = filter (eligible m al) ps"
proof (induction ps arbitrary: m)
  case (Cons p ps)
  have "monitor_state (snd (GetState m n t)) q = monitor_state m q" for n t q
    by (rule state_cong) (rule view_query)
  then show ?case
    using Cons [of m] Cons [of "snd (GetState m (Name p) (clock (Name p)))"]
    by (simp add: split_beta Let_def fst_GetState_state allowed_iff eligible_def)
qed simp

lemma latency_cong: "view m = view m' \<Longrightarrow> latency_of m = latency_of m'"
  by (simp add: latency_of_def fun_eq_iff)

lemma faster_latency:
  "view m' = view m \<Longrightarrow> faster m' clock p q \<longleftrightarrow> latency_of m (Name p) < latency_of m (Name q)"
  using latency_cong [of m' m] by (simp add: faster_def getLatency_latency)

lemma Select_parts:
  "Select pdq clock m ps al =
     (let cs = filter (eligible m al) ps; m' = fold perform_call (asked al clock ps) m
      in (if cs = [] then None else Some (hd (sort_Slice pdq (faster m' clock) cs)), m'))"
  by (simp add: Select_def split_beta Let_def filter_candidates_eligible filter_candidates_run
      del: perform_call.simps)

lemma strict_weak_key: "strict_weak (\<lambda>x y. Fin (f x) < Fin (f y))"
  unfolding strict_weak_def less_float64.simps by (meson less_irrefl less_trans not_less order_trans)

lemma strict_weak_faster:
  assumes "monitor_wf m" "view m' = view m"
  shows "strict_weak (faster m' clock :: 'w provider \<Rightarrow> 'w provider \<Rightarrow> bool)"
proof -
  have "\<exists>l. latency_of m n = Fin l" for n
    by (rule view_wf [OF assms(1), of n]) (auto simp: latency_of_def max_float64_def)
  then obtain lat where "\<And>n. latency_of m n = Fin (lat n)" by metis
  then have "(faster m' clock :: 'w provider \<Rightarrow> 'w provider \<Rightarrow> bool) = (\<lambda>p q. Fin (lat (Name p)) < Fin (lat (Name q)))"
    by (intro ext) (simp only: faster_latency [OF assms(2)])
  then show ?thesis using strict_weak_key [of "\<lambda>p :: 'w provider. lat (Name p)"] by (simp only:)
qed

lemma sort_Slice_head:
  assumes "strict_weak lt" "length cs \<le> 12" "cs \<noteq> []"
  shows "\<exists>before after. cs = before @ hd (sort_Slice pdq lt cs) # after
       \<and> (\<forall>y \<in> set before. lt (hd (sort_Slice pdq lt cs)) y)
       \<and> (\<forall>y \<in> set after. \<not> lt y (hd (sort_Slice pdq lt cs)))"
proof -
  obtain x xs where "cs = x # xs" using assms(3) by (cases cs) auto
  with assms(2) show ?thesis
    using leftmost_min_split [OF assms(1), of x xs] hd_insertion_sort [OF assms(1), of x xs]
    by (simp add: sort_Slice_def)
qed

lemma Select_split:
  assumes "monitor_wf m" "length ps \<le> 12" "Select pdq clock m ps al = (Some p, m')"
  shows "\<exists>before after. filter (eligible m al) ps = before @ p # after
       \<and> (\<forall>q \<in> set before. latency_of m (Name p) < latency_of m (Name q))
       \<and> (\<forall>q \<in> set after. \<not> latency_of m (Name q) < latency_of m (Name p))"
proof -
  let ?m = "fold perform_call (asked al clock ps) m" and ?cs = "filter (eligible m al) ps"
  have v: "view ?m = view m" by (rule view_fold_asked)
  have cs: "?cs \<noteq> []" and p: "p = hd (sort_Slice pdq (faster ?m clock) ?cs)"
    using assms(3) by (auto simp: Select_parts Let_def split: if_splits)
  have "length ?cs \<le> 12" using assms(2) length_filter_le le_trans by blast
  from sort_Slice_head [OF strict_weak_faster [OF assms(1) v] this cs, of pdq] p
  show ?thesis by (simp only: faster_latency [OF v])
qed

section \<open>Properties\<close>

text \<open>
  C14: the provider a request is routed to is the first, in configuration order, of those
  with the least latency average among the providers the tenant may use that are not out
  of service: every eligible provider before it is strictly slower, none after it is
  faster.
\<close>
theorem selected_is_first_fastest:
  assumes "monitor_wf m" and "length ps \<le> 12" and "Select pdq clock m ps al = (Some p, m')"
  shows "\<exists>before after. filter (eligible m al) ps = before @ p # after
       \<and> (\<forall>q \<in> set before. latency_of m (Name p) < latency_of m (Name q))
       \<and> (\<forall>q \<in> set after. \<not> latency_of m (Name q) < latency_of m (Name p))"
  using assms by (rule Select_split)

definition named :: "string \<Rightarrow> nat provider" where
  "named n = \<lparr>Name = n, Chat = (\<lambda>t req w. (Return (Inl (GoError ''none'')), w)),
     ChatStream = (\<lambda>t c req w. (Return \<lparr>sent = [], ended = StreamClosed\<rparr>, w))\<rparr>"

lemma Select_two:
  "length ps \<le> 12 \<Longrightarrow> filter (eligible m al) ps = [p] \<Longrightarrow>
     Select pdq clock m ps al = (Some p, fold perform_call (asked al clock ps) m)"
  by (simp add: Select_parts sort_Slice_def insertion_sort_def del: perform_call.simps)

theorem selected_is_first_fastest_witness:
  "\<exists>before after. filter (eligible NewEWMAMonitor [''b'']) [named ''a'', named ''b''] = before @ named ''b'' # after"
proof -
  have "filter (eligible NewEWMAMonitor [''b'']) [named ''a'', named ''b''] = [named ''b'']"
    by (simp add: eligible_def named_def monitor_state_view view_def NewEWMAMonitor_def thresholds zero_float64_def fifth64_val)
  then have "Select (\<lambda>_ xs. xs) (\<lambda>_. 0) NewEWMAMonitor [named ''a'', named ''b''] [''b''] =
     (Some (named ''b''), fold perform_call (asked [''b''] (\<lambda>_. 0) [named ''a'', named ''b'']) NewEWMAMonitor)"
    by (intro Select_two) simp_all
  from selected_is_first_fastest [OF NewEWMAMonitor_wf _ this] show ?thesis by fastforce
qed

text \<open>
  A request finds no provider exactly when every provider is either outside the
  tenant's allowlist or out of service; an empty allowlist admits them all.
\<close>
theorem no_provider_iff:
  "fst (Select pdq clock m ps al) = None \<longleftrightarrow>
     {p \<in> set ps. (al = [] \<or> Name p \<in> set al) \<and> fst (GetState m (Name p) now) \<noteq> StateUnhealthy} = {}"
  by (auto simp: Select_parts Let_def eligible_def filter_empty_conv fst_GetState_state)

text \<open>
  Routing observes the monitor without disturbing it: the averages of every provider,
  hence its state and its place in the order, are as before, and the invariant is kept.
\<close>
theorem routing_keeps_averages:
  assumes "monitor_wf m"
  shows "view (snd (Select pdq clock m ps al)) = view m \<and> monitor_wf (snd (Select pdq clock m ps al))"
  using ewma.inv_fold [OF assms asked_ok] by (simp add: Select_parts Let_def view_fold_asked)

theorem routing_keeps_averages_witness:
  "view (snd (Select (\<lambda>_ xs. xs) (\<lambda>_. 5) NewEWMAMonitor [named ''a'', named ''b''] [])) = view NewEWMAMonitor"
  using routing_keeps_averages [OF NewEWMAMonitor_wf] by blast

text \<open>
  A provider that is out of service receives no traffic until a success is recorded
  for it: after any run of errors, forced failures, queries and calls for other providers,
  no selection returns it.
\<close>
theorem unhealthy_gets_no_traffic:
  assumes "monitor_wf m" and "fst (GetState m (Name p) now) = StateUnhealthy"
    and "list_all call_ok es" and "list_all (\<lambda>c. \<not> is_success_for (Name p) c) es"
    and "length ps \<le> 12" and "Select pdq clock (fold perform_call es m) ps al = (Some q, m')"
  shows "Name q \<noteq> Name p"
proof
  assume n: "Name q = Name p"
  have wf: "monitor_wf (fold perform_call es m)" using assms(1,3) by (rule ewma.inv_fold)
  have "q \<in> set (filter (eligible (fold perform_call es m) al) ps)"
    using Select_split [OF wf assms(5,6)] by (metis in_set_conv_decomp)
  then have "monitor_state (fold perform_call es m) (Name p) \<noteq> StateUnhealthy" using n by (simp add: eligible_def)
  then show False
    using ewma.unhealthy_sticky [OF assms(1,3,4)] assms(2) by (simp add: fst_GetState_state)
qed

theorem unhealthy_gets_no_traffic_witness:
  "\<exists>q m'. Select (\<lambda>_ xs. xs) (\<lambda>_. 0) (perform_call (CallForceFailure ''a'' 1) NewEWMAMonitor)
       [named ''a'', named ''b''] [] = (Some q, m') \<and> Name q \<noteq> ''a''"
proof -
  let ?m = "perform_call (CallForceFailure ''a'' 1) NewEWMAMonitor"
  have wf: "monitor_wf ?m" by (rule perform_call_wf [OF NewEWMAMonitor_wf]) simp
  have a: "monitor_state ?m ''a'' = StateUnhealthy" by (rule ewma.state_failure [OF NewEWMAMonitor_wf])
  have "monitor_state ?m ''b'' = monitor_state NewEWMAMonitor ''b''"
    by (rule ewma.state_other [OF NewEWMAMonitor_wf]) simp_all
  then have b: "monitor_state ?m ''b'' = StateHealthy"
    by (simp add: monitor_state_view view_def NewEWMAMonitor_def thresholds zero_float64_def fifth64_val del: perform_call.simps)
  have "filter (eligible ?m []) [named ''a'', named ''b''] = [named ''b'']"
    using a b by (simp add: eligible_def named_def del: perform_call.simps)
  then have s: "Select (\<lambda>_ xs. xs) (\<lambda>_. 0) ?m [named ''a'', named ''b''] [] =
     (Some (named ''b''), fold perform_call (asked [] (\<lambda>_. 0) [named ''a'', named ''b'']) ?m)"
    by (intro Select_two) simp_all
  have "Name (named ''b'') \<noteq> Name (named ''a'')"
    by (rule unhealthy_gets_no_traffic [of ?m _ 0 "[]" "[named ''a'', named ''b'']"])
      (use wf a s in \<open>simp_all add: fst_GetState_state named_def del: perform_call.simps\<close>)
  with s show ?thesis by (simp add: named_def del: perform_call.simps)
qed

text \<open>
  A provider with no recorded latency is the last resort: as long as one eligible
  provider has a positive latency average, the selected provider has one too. Traffic never
  explores an untried provider while an explored one is in service.
\<close>
theorem unexplored_is_last_resort:
  assumes "monitor_wf m" and "length ps \<le> 12" and "Select pdq clock m ps al = (Some p, m')"
    and "q \<in> set ps" and "eligible m al q" and "fst (view m (Name q)) \<noteq> 0"
  shows "fst (view m (Name p)) \<noteq> 0"
proof
  assume p: "fst (view m (Name p)) = 0"
  obtain l e where v: "view m (Name q) = (Fin l, Fin e)" "within_latencies 0 max_latency l"
    using view_wf [OF assms(1)] by metis
  have "l \<le> 2 ^ 45" using v(2) by (simp add: within_latencies_def lat_slack_def max_latency_def)
  also have "\<dots> < (2 ^ 53 - 1) * 2 powi 971"
  proof -
    have "(2 :: rat) ^ 45 * 1 < (2 ^ 53 - 1) * 1" by simp
    also have "\<dots> \<le> (2 ^ 53 - 1) * 2 powi 971"
    proof (rule mult_left_mono)
      have "(2 :: rat) powi 0 \<le> 2 powi 971" by (subst two_powi_le_iff) simp
      then show "(1 :: rat) \<le> 2 powi 971" by (simp only: power_int_0_right)
    qed simp
    finally show ?thesis by (simp only: mult_1_right)
  qed
  finally have "latency_of m (Name q) < max_float64"
    using assms(6) v(1) by (simp add: latency_of_def max_float64_def)
  moreover have "latency_of m (Name p) = max_float64" using p by (simp add: latency_of_def)
  moreover have "q \<in> set (filter (eligible m al) ps)" using assms(4,5) by simp
  moreover obtain before after where s: "filter (eligible m al) ps = before @ p # after"
    "\<forall>q \<in> set before. latency_of m (Name p) < latency_of m (Name q)"
    "\<forall>q \<in> set after. \<not> latency_of m (Name q) < latency_of m (Name p)"
    using Select_split [OF assms(1-3)] by blast
  ultimately have "latency_of m (Name p) < latency_of m (Name q)" "latency_of m (Name q) < latency_of m (Name p)"
    by auto
  then show False by (metis less_float64_antisym)
qed

lemma view_fresh: "view NewEWMAMonitor p = (0, 0)"
  by (simp add: view_def NewEWMAMonitor_def)

theorem unexplored_is_last_resort_witness:
  "\<exists>p m'. Select (\<lambda>_ xs. xs) (\<lambda>_. 0) (RecordSuccess NewEWMAMonitor ''b'' (100 * Millisecond) 3)
       [named ''a'', named ''b''] [] = (Some p, m') \<and> Name p = ''b''"
proof -
  let ?m = "perform_call (CallSuccess ''b'' (100 * Millisecond) 3) NewEWMAMonitor"
  have ok: "call_ok (CallSuccess ''b'' (100 * Millisecond) 3)" by (simp add: is_int64_def Millisecond_def)
  have wf: "monitor_wf ?m" by (rule perform_call_wf [OF NewEWMAMonitor_wf ok])
  have "Milliseconds (100 * Millisecond) = 100" by (simp add: Milliseconds_def Millisecond_def quot_def)
  then have v: "view ?m ''b'' = (Fin 100, Fin 0)" "view ?m ''a'' = (Fin 0, Fin 0)"
    using view_perform [OF NewEWMAMonitor_wf, of "CallSuccess ''b'' (100 * Millisecond) 3"]
    by (simp_all add: view_fresh zero_float64_def float64_of_int_def
        f64_Fin rnd_numeral decay_def alpha_float one_minus_alpha_float del: perform_call.simps)
  have s: "monitor_state ?m n = StateHealthy" if "n = ''a'' \<or> n = ''b''" for n
    using that v by (auto simp: monitor_state_view state_of_averages_Fin fifth64_val
        simp del: perform_call.simps state_of_averages.simps)
  have cs: "filter (eligible ?m []) [named ''a'', named ''b''] = [named ''a'', named ''b'']"
    using s by (simp add: eligible_def named_def del: perform_call.simps)
  obtain p m' where sel: "Select (\<lambda>_ xs. xs) (\<lambda>_. 0) ?m [named ''a'', named ''b''] [] = (Some p, m')"
    using cs by (auto simp: Select_parts Let_def simp del: perform_call.simps)
  have "fst (view ?m (Name p)) \<noteq> 0"
    by (rule unexplored_is_last_resort [OF wf _ sel, of "named ''b''"])
      (use v cs in \<open>auto simp: named_def zero_float64_def eligible_def s simp del: perform_call.simps\<close>)
  moreover have "p \<in> {named ''a'', named ''b''}"
    using Select_split [OF wf _ sel] unfolding cs by (auto simp: Cons_eq_append_conv)
  ultimately have "Name p = ''b''" using v by (auto simp: named_def zero_float64_def simp del: perform_call.simps)
  with sel show ?thesis by auto
qed

end
