(* ===== verification/Cache.thy ===== *)
theory Cache
  imports Go_Time
begin

text \<open>
  \<open>internal/cache\<close>: the cache interface, the in-memory cache of \<open>memory.go\<close> and the
  two-tier cache of \<open>cache.go\<close>. A byte slice is \<open>bytes\<close>; Go's nil slice, the answer
  for an absent key, is \<open>None\<close>.

  The in-process cache library and the Redis client are parameters: operations over a world
  in which time passes. What the two-tier cache relies on is stated in
  \<open>honest_backend\<close>.
\<close>

section \<open>The interface\<close>

record 'c cache_ops =
  cache_Get :: "string \<Rightarrow> 'c \<Rightarrow> bytes option go_result \<times> 'c"
  cache_Set :: "string \<Rightarrow> bytes \<Rightarrow> duration \<Rightarrow> 'c \<Rightarrow> go_error option \<times> 'c"

text \<open>
  What every client may rely on: \<open>holds c k v\<close> says that the cache may still answer
  \<open>v\<close> for \<open>k\<close>. A hit is held; only a \<open>Set\<close> adds to what is held, under its own key.
\<close>

locale byte_cache =
  fixes ops :: "'c cache_ops"
    and holds :: "'c \<Rightarrow> string \<Rightarrow> bytes \<Rightarrow> bool"
  assumes hit_held: "cache_Get ops k c = (Inr (Some v), c') \<Longrightarrow> holds c k v"
    and get_keeps: "cache_Get ops k c = (r, c') \<Longrightarrow> holds c' k' v' \<Longrightarrow> holds c k' v'"
    and set_adds: "cache_Set ops k v ttl c = (e, c') \<Longrightarrow> holds c' k' v' \<Longrightarrow>
      holds c k' v' \<or> (k' = k \<and> v' = v)"
begin

text \<open>A predicate on keys and values that every \<open>Set\<close> respects holds of every hit.\<close>

definition guarded :: "(string \<Rightarrow> bytes \<Rightarrow> bool) \<Rightarrow> 'c \<Rightarrow> bool" where
  "guarded P c \<longleftrightarrow> (\<forall>k v. holds c k v \<longrightarrow> P k v)"

lemma guarded_hit: "guarded P c \<Longrightarrow> cache_Get ops k c = (Inr (Some v), c') \<Longrightarrow> P k v"
  using hit_held by (auto simp: guarded_def)

lemma guarded_get: "guarded P c \<Longrightarrow> guarded P (snd (cache_Get ops k c))"
  unfolding guarded_def by (metis get_keeps prod.collapse)

lemma guarded_set: "guarded P c \<Longrightarrow> P k v \<Longrightarrow> guarded P (snd (cache_Set ops k v ttl c))"
  unfolding guarded_def by (metis set_adds prod.collapse)

end

section \<open>The in-memory cache\<close>

record MemoryCache =
  data :: "string \<rightharpoonup> bytes"

definition NewMemoryCache :: MemoryCache where
  "NewMemoryCache = \<lparr>data = Map.empty\<rparr>"

definition memory_Get :: "string \<Rightarrow> MemoryCache \<Rightarrow> bytes option go_result \<times> MemoryCache" where
  "memory_Get key m = (case data m key of None \<Rightarrow> (Inr None, m) | Some val \<Rightarrow> (Inr (Some val), m))"

text \<open>The time to live is not read.\<close>

definition memory_Set :: "string \<Rightarrow> bytes \<Rightarrow> duration \<Rightarrow> MemoryCache \<Rightarrow> go_error option \<times> MemoryCache" where
  "memory_Set key value ttl m = (None, m\<lparr>data := (data m)(key \<mapsto> value)\<rparr>)"

definition memory_cache :: "MemoryCache cache_ops" where
  "memory_cache = \<lparr>cache_Get = memory_Get, cache_Set = memory_Set\<rparr>"

interpretation memory: byte_cache memory_cache "\<lambda>m k v. data m k = Some v"
  by unfold_locales
    (auto simp: memory_cache_def memory_Get_def memory_Set_def split: option.splits if_splits)

section \<open>The two-tier cache\<close>

datatype redis_reply = RedisNil | RedisError string | RedisBytes bytes

record ristretto_config =
  NumCounters :: int
  MaxCost :: int
  BufferItems :: int

text \<open>The operations of the two clients that the cache calls.\<close>

record 'w cache_backend =
  l1_Get :: "string \<Rightarrow> 'w \<Rightarrow> bytes option \<times> 'w"
  l1_SetWithTTL :: "string \<Rightarrow> bytes \<Rightarrow> int \<Rightarrow> duration \<Rightarrow> 'w \<Rightarrow> 'w"
  redis_Get :: "string \<Rightarrow> 'w \<Rightarrow> redis_reply \<times> 'w"
  redis_Set :: "string \<Rightarrow> bytes \<Rightarrow> duration \<Rightarrow> 'w \<Rightarrow> go_error option \<times> 'w"

definition l1_config :: ristretto_config where
  "l1_config = \<lparr>NumCounters = 10 ^ 7, MaxCost = push_bit 30 1, BufferItems = 64\<rparr>"

definition two_tier_Get :: "'w cache_backend \<Rightarrow> string \<Rightarrow> 'w \<Rightarrow> bytes option go_result \<times> 'w" where
  "two_tier_Get c key w =
     (case l1_Get c key w of
        (Some val, w1) \<Rightarrow> (Inr (Some val), w1)
      | (None, w1) \<Rightarrow>
          (case redis_Get c key w1 of
             (RedisNil, w2) \<Rightarrow> (Inr None, w2)
           | (RedisError e, w2) \<Rightarrow> (Inl (GoError e), w2)
           | (RedisBytes val, w2) \<Rightarrow> (Inr (Some val), l1_SetWithTTL c key val 1 (Minute * 10) w2)))"

definition two_tier_Set ::
  "'w cache_backend \<Rightarrow> string \<Rightarrow> bytes \<Rightarrow> duration \<Rightarrow> 'w \<Rightarrow> go_error option \<times> 'w" where
  "two_tier_Set c key value ttl w =
     (let w1 = l1_SetWithTTL c key value 1 ttl w in redis_Set c key value ttl w1)"

definition TwoTierCache :: "'w cache_backend \<Rightarrow> 'w cache_ops" where
  "TwoTierCache c = \<lparr>cache_Get = two_tier_Get c, cache_Set = two_tier_Set c\<rparr>"

text \<open>The constructor fails when the in-process cache cannot be built.\<close>

definition NewTwoTierCache ::
  "(ristretto_config \<Rightarrow> go_error option) \<Rightarrow> 'w cache_backend \<Rightarrow> 'w cache_ops go_result" where
  "NewTwoTierCache new_l1 c =
     (case new_l1 l1_config of Some err \<Rightarrow> Inl err | None \<Rightarrow> Inr (TwoTierCache c))"

section \<open>What the two-tier cache relies on\<close>

text \<open>
  An entry of a tier is a key, a value and the time it expires. The clock of the world never
  goes back. A read returns a live entry (the reply of Redis may be \<open>lag\<close> on its way), a
  write adds its own entry and nothing else adds any; tiers may forget entries at any time.
\<close>

type_synonym stored = "string \<times> bytes \<times> instant"

record 'w tiers =
  now :: "'w \<Rightarrow> instant"
  l1_entries :: "'w \<Rightarrow> stored set"
  redis_entries :: "'w \<Rightarrow> stored set"

definition same_or_fewer :: "'w tiers \<Rightarrow> 'w \<Rightarrow> 'w \<Rightarrow> bool" where
  "same_or_fewer T w w' \<longleftrightarrow>
     now T w \<le> now T w' \<and> l1_entries T w' \<subseteq> l1_entries T w \<and> redis_entries T w' \<subseteq> redis_entries T w"

definition honest_l1 :: "'w tiers \<Rightarrow> 'w cache_backend \<Rightarrow> bool" where
  "honest_l1 T c \<longleftrightarrow>
     (\<forall>k w. same_or_fewer T w (snd (l1_Get c k w)) \<and>
        (\<forall>v. fst (l1_Get c k w) = Some v \<longrightarrow>
           (\<exists>x. (k, v, x) \<in> l1_entries T w \<and> now T (snd (l1_Get c k w)) < x))) \<and>
     (\<forall>k v cost ttl w. now T w \<le> now T (l1_SetWithTTL c k v cost ttl w) \<and>
        redis_entries T (l1_SetWithTTL c k v cost ttl w) \<subseteq> redis_entries T w \<and>
        l1_entries T (l1_SetWithTTL c k v cost ttl w) \<subseteq> insert (k, v, now T w + ttl) (l1_entries T w))"

definition honest_redis :: "duration \<Rightarrow> 'w tiers \<Rightarrow> 'w cache_backend \<Rightarrow> bool" where
  "honest_redis lag T c \<longleftrightarrow>
     (\<forall>k w. same_or_fewer T w (snd (redis_Get c k w)) \<and>
        (\<forall>v. fst (redis_Get c k w) = RedisBytes v \<longrightarrow>
           (\<exists>x. (k, v, x) \<in> redis_entries T w \<and> now T (snd (redis_Get c k w)) < x + lag))) \<and>
     (\<forall>k v ttl w. let w' = snd (redis_Set c k v ttl w) in now T w \<le> now T w' \<and>
        l1_entries T w' \<subseteq> l1_entries T w \<and>
        redis_entries T w' \<subseteq> insert (k, v, now T w' + ttl) (redis_entries T w))"

definition honest_backend :: "duration \<Rightarrow> 'w tiers \<Rightarrow> 'w cache_backend \<Rightarrow> bool" where
  "honest_backend lag T c \<longleftrightarrow> 0 \<le> lag \<and> honest_l1 T c \<and> honest_redis lag T c"

lemma honest_l1_Get:
  assumes "honest_backend lag T c" "l1_Get c k w = (r, w')"
  shows "same_or_fewer T w w'" "r = Some v \<Longrightarrow> \<exists>x. (k, v, x) \<in> l1_entries T w \<and> now T w' < x"
proof -
  have "\<forall>k w. same_or_fewer T w (snd (l1_Get c k w)) \<and> (\<forall>v. fst (l1_Get c k w) = Some v \<longrightarrow>
      (\<exists>x. (k, v, x) \<in> l1_entries T w \<and> now T (snd (l1_Get c k w)) < x))"
    using assms(1) unfolding honest_backend_def honest_l1_def by (elim conjE)
  from this [THEN spec [of _ k], THEN spec [of _ w]] assms(2)
  show "same_or_fewer T w w'" "r = Some v \<Longrightarrow> \<exists>x. (k, v, x) \<in> l1_entries T w \<and> now T w' < x" by simp_all
qed

lemma honest_l1_Set:
  assumes "honest_backend lag T c"
  shows "now T w \<le> now T (l1_SetWithTTL c k v cost ttl w)"
    and "redis_entries T (l1_SetWithTTL c k v cost ttl w) \<subseteq> redis_entries T w"
    and "l1_entries T (l1_SetWithTTL c k v cost ttl w) \<subseteq> insert (k, v, now T w + ttl) (l1_entries T w)"
  using assms by (simp_all only: honest_backend_def honest_l1_def)

lemma honest_redis_Get:
  assumes "honest_backend lag T c" "redis_Get c k w = (r, w')"
  shows "same_or_fewer T w w'" "r = RedisBytes v \<Longrightarrow> \<exists>x. (k, v, x) \<in> redis_entries T w \<and> now T w' < x + lag"
proof -
  have "\<forall>k w. same_or_fewer T w (snd (redis_Get c k w)) \<and> (\<forall>v. fst (redis_Get c k w) = RedisBytes v \<longrightarrow>
      (\<exists>x. (k, v, x) \<in> redis_entries T w \<and> now T (snd (redis_Get c k w)) < x + lag))"
    using assms(1) unfolding honest_backend_def honest_redis_def by (elim conjE)
  from this [THEN spec [of _ k], THEN spec [of _ w]] assms(2)
  show "same_or_fewer T w w'" "r = RedisBytes v \<Longrightarrow> \<exists>x. (k, v, x) \<in> redis_entries T w \<and> now T w' < x + lag" by simp_all
qed

lemma honest_redis_Set:
  assumes "honest_backend lag T c" "redis_Set c k v ttl w = (e, w')"
  shows "now T w \<le> now T w'" "l1_entries T w' \<subseteq> l1_entries T w"
    and "redis_entries T w' \<subseteq> insert (k, v, now T w' + ttl) (redis_entries T w)"
proof -
  have "\<forall>k v ttl w. let w' = snd (redis_Set c k v ttl w) in now T w \<le> now T w' \<and>
      l1_entries T w' \<subseteq> l1_entries T w \<and> redis_entries T w' \<subseteq> insert (k, v, now T w' + ttl) (redis_entries T w)"
    using assms(1) unfolding honest_backend_def honest_redis_def by (elim conjE)
  from this [THEN spec [of _ k], THEN spec [of _ v], THEN spec [of _ ttl], THEN spec [of _ w]] assms(2)
  show "now T w \<le> now T w'" "l1_entries T w' \<subseteq> l1_entries T w"
    "redis_entries T w' \<subseteq> insert (k, v, now T w' + ttl) (redis_entries T w)" by (simp_all add: Let_def)
qed

text \<open>On an honest backend the two-tier cache gives its clients the contract.\<close>

definition tier_holds :: "'w tiers \<Rightarrow> 'w \<Rightarrow> string \<Rightarrow> bytes \<Rightarrow> bool" where
  "tier_holds T w k v \<longleftrightarrow> (\<exists>x. (k, v, x) \<in> l1_entries T w \<union> redis_entries T w)"

lemma two_tier_contract:
  assumes h: "honest_backend lag T c"
  shows "byte_cache (TwoTierCache c) (tier_holds T)"
proof
  fix k w v w'
  assume "cache_Get (TwoTierCache c) k w = (Inr (Some v), w')"
  then show "tier_holds T w k v"
    using honest_l1_Get [OF h, of k w] honest_redis_Get [OF h, of k]
    by (fastforce simp: TwoTierCache_def two_tier_Get_def tier_holds_def same_or_fewer_def
        split: prod.splits option.splits redis_reply.splits)
next
  fix k w r w' k' v'
  assume g: "cache_Get (TwoTierCache c) k w = (r, w')" and t: "tier_holds T w' k' v'"
  obtain r1 w1 where l: "l1_Get c k w = (r1, w1)" by fastforce
  show "tier_holds T w k' v'"
  proof (cases r1)
    case (Some v)
    then have "w' = w1" using g l by (simp add: TwoTierCache_def two_tier_Get_def)
    then show ?thesis using t honest_l1_Get(1) [OF h l] by (auto simp: tier_holds_def same_or_fewer_def)
  next
    case None
    obtain r2 w2 where r: "redis_Get c k w1 = (r2, w2)" by fastforce
    have sub: "l1_entries T w2 \<subseteq> l1_entries T w" "redis_entries T w2 \<subseteq> redis_entries T w"
      using honest_l1_Get(1) [OF h l] honest_redis_Get(1) [OF h r] by (auto simp: same_or_fewer_def)
    show ?thesis
    proof (cases r2)
      case (RedisBytes v)
      then have w': "w' = l1_SetWithTTL c k v 1 (Minute * 10) w2"
        using g l r None by (simp add: TwoTierCache_def two_tier_Get_def)
      have "\<exists>x. (k, v, x) \<in> redis_entries T w1" using honest_redis_Get(2) [OF h r RedisBytes] by blast
      then have "tier_holds T w k v" using honest_l1_Get(1) [OF h l] by (auto simp: tier_holds_def same_or_fewer_def)
      then show ?thesis
        using t sub honest_l1_Set(2,3) [OF h, of k v 1 "Minute * 10" w2] unfolding w' tier_holds_def by fast
    qed (use g l r None t sub in \<open>auto simp: TwoTierCache_def two_tier_Get_def tier_holds_def\<close>)
  qed
next
  fix k v ttl w e w' k' v'
  assume s: "cache_Set (TwoTierCache c) k v ttl w = (e, w')" and t: "tier_holds T w' k' v'"
  let ?w1 = "l1_SetWithTTL c k v 1 ttl w"
  have r: "redis_Set c k v ttl ?w1 = (e, w')" using s by (simp add: TwoTierCache_def two_tier_Set_def)
  show "tier_holds T w k' v' \<or> (k' = k \<and> v' = v)"
    using t honest_l1_Set(2,3) [OF h, of k v 1 ttl w] honest_redis_Set(2,3) [OF h r]
    unfolding tier_holds_def by fast
qed

end
