(* ===== verification/Cache_Properties.thy ===== *)
theory Cache_Properties
  imports Cache
begin

text \<open>
  The properties of the caches: what a run of operations leaves in the in-memory cache, and
  how old an answer of the two-tier cache can be.
\<close>

section \<open>Runs of the in-memory cache\<close>

datatype cache_op = OpGet string | OpSet string bytes duration

fun memory_step :: "cache_op \<Rightarrow> MemoryCache \<Rightarrow> MemoryCache" where
  "memory_step (OpGet k) m = snd (cache_Get memory_cache k m)"
| "memory_step (OpSet k v ttl) m = snd (cache_Set memory_cache k v ttl m)"

text \<open>The abstract cache: the value of the last write to a key.\<close>

fun written :: "cache_op \<Rightarrow> (string \<times> bytes) list" where
  "written (OpGet k) = []"
| "written (OpSet k v ttl) = [(k, v)]"

definition last_write :: "cache_op list \<Rightarrow> string \<Rightarrow> bytes option" where
  "last_write os k = map_of (rev (concat (map written os))) k"

lemma memory_run: "data (fold memory_step os m) k = (case last_write os k of None \<Rightarrow> data m k | Some v \<Rightarrow> Some v)"
proof (induction os arbitrary: m)
  case (Cons x xs)
  then show ?case
    by (cases x)
      (auto simp: last_write_def map_add_def memory_cache_def memory_Get_def memory_Set_def split: option.split)
qed (simp add: last_write_def)

text \<open>
  The in-memory cache is a map with last-write-wins: after any run of operations a key
  answers the value last written under it, or nothing if it was never written. No entry
  ever expires, whatever its time to live.
\<close>
theorem memory_cache_last_write:
  "fst (cache_Get memory_cache k (fold memory_step os NewMemoryCache)) = Inr (last_write os k)"
  using memory_run [of os NewMemoryCache k]
  by (simp add: memory_cache_def memory_Get_def NewMemoryCache_def split: option.splits)

section \<open>Staleness of the two-tier cache\<close>

text \<open>
  What can happen to the tiers of one gateway instance: its own operations, and writes of
  the other instances, which reach the shared tier only.
\<close>

datatype tier_op = LocalGet string | LocalSet string bytes duration | RemoteSet string bytes duration

fun tier_step :: "'w cache_backend \<Rightarrow> tier_op \<Rightarrow> 'w \<Rightarrow> 'w" where
  "tier_step c (LocalGet k) w = snd (cache_Get (TwoTierCache c) k w)"
| "tier_step c (LocalSet k v ttl) w = snd (cache_Set (TwoTierCache c) k v ttl w)"
| "tier_step c (RemoteSet k v ttl) w = snd (redis_Set c k v ttl w)"

text \<open>The writes of a run, each with the time it completed and its time to live.\<close>

type_synonym write_record = "string \<times> bytes \<times> instant \<times> duration"

fun write_of :: "'w tiers \<Rightarrow> tier_op \<Rightarrow> 'w \<Rightarrow> write_record list" where
  "write_of T (LocalGet k) w' = []"
| "write_of T (LocalSet k v ttl) w' = [(k, v, now T w', ttl)]"
| "write_of T (RemoteSet k v ttl) w' = [(k, v, now T w', ttl)]"

fun tier_run :: "'w tiers \<Rightarrow> 'w cache_backend \<Rightarrow> tier_op list \<Rightarrow> write_record list \<times> 'w \<Rightarrow> write_record list \<times> 'w" where
  "tier_run T c [] s = s"
| "tier_run T c (op # os) (H, w) = (let w' = tier_step c op w in tier_run T c os (write_of T op w' @ H, w'))"

definition dated :: "write_record list \<Rightarrow> duration \<Rightarrow> stored \<Rightarrow> bool" where
  "dated H extra e = (case e of (k, v, x) \<Rightarrow> \<exists>s ttl. (k, v, s, ttl) \<in> set H \<and> x \<le> s + ttl + extra)"

definition tiers_dated :: "duration \<Rightarrow> 'w tiers \<Rightarrow> write_record list \<Rightarrow> 'w \<Rightarrow> bool" where
  "tiers_dated lag T H w \<longleftrightarrow>
     (\<forall>e \<in> redis_entries T w. dated H 0 e) \<and> (\<forall>e \<in> l1_entries T w. dated H (lag + 10 * Minute) e)"

lemma dated_more: "dated H d e \<Longrightarrow> d \<le> d' \<Longrightarrow> dated (H' @ H) d' e"
  unfolding dated_def by (auto split: prod.splits) (metis add_left_mono order_trans)

lemma tiers_dated_fewer:
  assumes "tiers_dated lag T H w" "same_or_fewer T w w'" shows "tiers_dated lag T H w'"
  using assms unfolding tiers_dated_def same_or_fewer_def by blast

lemma tiers_dated_more: "tiers_dated lag T H w \<Longrightarrow> tiers_dated lag T (H' @ H) w"
  unfolding tiers_dated_def by (meson dated_more order_refl)

lemma minute_nonneg: "0 \<le> 10 * Minute"
  by (simp add: duration_defs)

lemma dated_hit:
  assumes h: "honest_backend lag T c" and d: "tiers_dated lag T H w"
    and g: "cache_Get (TwoTierCache c) k w = (Inr (Some v), w')"
  shows "\<exists>s ttl. (k, v, s, ttl) \<in> set H \<and> now T w < s + ttl + lag + 10 * Minute"
proof -
  have lag: "0 \<le> lag" using h by (simp add: honest_backend_def)
  obtain r1 w1 where l: "l1_Get c k w = (r1, w1)" by fastforce
  note l1 = honest_l1_Get [OF h l]
  show ?thesis
  proof (cases r1)
    case (Some v1)
    then have "v1 = v" using g l by (simp add: TwoTierCache_def two_tier_Get_def)
    with l1(2) [of v] Some obtain x where "(k, v, x) \<in> l1_entries T w" "now T w1 < x" by auto
    moreover from this(1) d have "dated H (lag + 10 * Minute) (k, v, x)" by (simp add: tiers_dated_def)
    moreover have "now T w \<le> now T w1" using l1(1) by (simp add: same_or_fewer_def)
    ultimately show ?thesis by (force simp: dated_def)
  next
    case None
    obtain r2 w2 where r: "redis_Get c k w1 = (r2, w2)" by fastforce
    have "r2 = RedisBytes v"
      using g l r None by (cases r2) (simp_all add: TwoTierCache_def two_tier_Get_def)
    with honest_redis_Get(2) [OF h r] obtain x where x: "(k, v, x) \<in> redis_entries T w1" "now T w2 < x + lag" by auto
    have "dated H 0 (k, v, x)" using tiers_dated_fewer [OF d l1(1)] x(1) by (simp add: tiers_dated_def)
    then obtain s ttl where st: "(k, v, s, ttl) \<in> set H" "x \<le> s + ttl" by (auto simp: dated_def)
    have "now T w \<le> now T w2"
      using l1(1) honest_redis_Get(1) [OF h r] by (simp add: same_or_fewer_def)
    then have "now T w < s + ttl + lag + 10 * Minute" using x(2) st(2) minute_nonneg by linarith
    with st(1) show ?thesis by blast
  qed
qed

lemma dated_get:
  assumes h: "honest_backend lag T c" and d: "tiers_dated lag T H w"
  shows "tiers_dated lag T H (snd (cache_Get (TwoTierCache c) k w))"
proof -
  obtain r1 w1 where l: "l1_Get c k w = (r1, w1)" by fastforce
  obtain r2 w2 where r: "redis_Get c k w1 = (r2, w2)" by fastforce
  have d1: "tiers_dated lag T H w1" using tiers_dated_fewer [OF d honest_l1_Get(1) [OF h l]] .
  then have d2: "tiers_dated lag T H w2" by (rule tiers_dated_fewer [OF _ honest_redis_Get(1) [OF h r]])
  have "tiers_dated lag T H (l1_SetWithTTL c k v 1 (Minute * 10) w2)" if v: "r2 = RedisBytes v" for v
  proof -
    obtain x where x: "(k, v, x) \<in> redis_entries T w1" "now T w2 < x + lag"
      using honest_redis_Get(2) [OF h r v] by auto
    then have "dated H 0 (k, v, x)" using d1 by (simp add: tiers_dated_def)
    then have "dated H (lag + 10 * Minute) (k, v, now T w2 + Minute * 10)"
      using x(2) by (force simp: dated_def)
    then show ?thesis
      using d2 honest_l1_Set(2,3) [OF h, of k v 1 "Minute * 10" w2] unfolding tiers_dated_def by blast
  qed
  then show ?thesis
    using l r d1 d2 by (simp add: TwoTierCache_def two_tier_Get_def split: option.split redis_reply.split)
qed

lemma dated_redis_Set:
  assumes h: "honest_backend lag T c" and d: "tiers_dated lag T H w"
    and s: "redis_Set c k v ttl w = (e, w')"
  shows "tiers_dated lag T ((k, v, now T w', ttl) # H) w'"
proof -
  have "dated ((k, v, now T w', ttl) # H) 0 (k, v, now T w' + ttl)" by (auto simp: dated_def)
  moreover have "tiers_dated lag T ((k, v, now T w', ttl) # H) w"
    using tiers_dated_more [OF d, of "[(k, v, now T w', ttl)]"] by simp
  ultimately show ?thesis
    using honest_redis_Set(2,3) [OF h s] unfolding tiers_dated_def by blast
qed

lemma dated_set:
  assumes h: "honest_backend lag T c" and d: "tiers_dated lag T H w"
    and s: "cache_Set (TwoTierCache c) k v ttl w = (e, w')"
  shows "tiers_dated lag T ((k, v, now T w', ttl) # H) w'"
proof -
  let ?w1 = "l1_SetWithTTL c k v 1 ttl w" and ?H = "(k, v, now T w', ttl) # H"
  have lag: "0 \<le> lag" using h by (simp add: honest_backend_def)
  have r: "redis_Set c k v ttl ?w1 = (e, w')" using s by (simp add: TwoTierCache_def two_tier_Set_def)
  have t: "now T w \<le> now T w'" using honest_l1_Set(1) [OF h] honest_redis_Set(1) [OF h r] order_trans by blast
  then have "dated ?H (lag + 10 * Minute) (k, v, now T w + ttl)"
    using lag minute_nonneg by (force simp: dated_def)
  moreover have "tiers_dated lag T ?H w" using tiers_dated_more [OF d, of "[(k, v, now T w', ttl)]"] by simp
  ultimately have d1: "tiers_dated lag T ?H ?w1"
    using honest_l1_Set(2,3) [OF h, of k v 1 ttl w] unfolding tiers_dated_def by blast
  have "dated ?H 0 (k, v, now T w' + ttl)" by (auto simp: dated_def)
  then show ?thesis
    using d1 honest_redis_Set(2,3) [OF h r] unfolding tiers_dated_def by blast
qed

lemma dated_run:
  assumes h: "honest_backend lag T c" and "tiers_dated lag T H w" "tier_run T c os (H, w) = (H', w')"
  shows "tiers_dated lag T H' w'"
  using assms(2,3)
proof (induction os arbitrary: H w)
  case (Cons op os)
  let ?w = "tier_step c op w"
  have "tiers_dated lag T (write_of T op ?w @ H) ?w"
  proof (cases op)
    case (LocalGet k)
    then show ?thesis using dated_get [OF h Cons.prems(1)] by simp
  next
    case (LocalSet k v ttl)
    then show ?thesis
      using dated_set [OF h Cons.prems(1)] by (cases "cache_Set (TwoTierCache c) k v ttl w") simp
  next
    case (RemoteSet k v ttl)
    then show ?thesis
      using dated_redis_Set [OF h Cons.prems(1)] by (cases "redis_Set c k v ttl w") simp
  qed
  then show ?case using Cons by (simp add: Let_def)
qed simp

text \<open>
  C24: an answer of the two-tier cache is a value some instance wrote under that key, and it
  is served for at most ten minutes, plus the time a reply of Redis is on its way, beyond
  the time to live of that write: the backfill of the first tier starts a lifetime of its
  own.
\<close>
theorem two_tier_staleness_bounded:
  assumes "honest_backend lag T c" and "l1_entries T w0 = {}" and "redis_entries T w0 = {}"
    and "tier_run T c os ([], w0) = (H, w)" and "cache_Get (TwoTierCache c) k w = (Inr (Some v), w')"
  shows "\<exists>s ttl. (k, v, s, ttl) \<in> set H \<and> now T w < s + ttl + lag + 10 * Minute"
proof -
  have "tiers_dated lag T [] w0" using assms(2,3) by (simp add: tiers_dated_def)
  from dated_hit [OF assms(1) dated_run [OF assms(1) this assms(4)] assms(5)] show ?thesis .
qed

text \<open>A backend whose every Redis call takes four minutes, with lists as tiers.\<close>

record slow_world =
  clock :: instant
  near :: "stored list"
  shared :: "stored list"

definition live :: "stored list \<Rightarrow> instant \<Rightarrow> string \<Rightarrow> bytes option" where
  "live es t k = map_option (\<lambda>(_, v, _). v) (find (\<lambda>(k', v, x). k' = k \<and> t < x) es)"

definition slow_tiers :: "slow_world tiers" where
  "slow_tiers = \<lparr>now = clock, l1_entries = (\<lambda>w. set (near w)), redis_entries = (\<lambda>w. set (shared w))\<rparr>"

definition slow_backend :: "slow_world cache_backend" where
  "slow_backend =
     \<lparr>l1_Get = (\<lambda>k w. (live (near w) (clock w) k, w)),
      l1_SetWithTTL = (\<lambda>k v cost ttl w. w\<lparr>near := (k, v, clock w + ttl) # near w\<rparr>),
      redis_Get = (\<lambda>k w. (case live (shared w) (clock w) k of None \<Rightarrow> RedisNil | Some v \<Rightarrow> RedisBytes v,
                         w\<lparr>clock := clock w + 4 * Minute\<rparr>)),
      redis_Set = (\<lambda>k v ttl w. (None, w\<lparr>clock := clock w + 4 * Minute,
                         shared := (k, v, clock w + 4 * Minute + ttl) # shared w\<rparr>))\<rparr>"

lemma live_entry: "live es t k = Some v \<Longrightarrow> \<exists>x. (k, v, x) \<in> set es \<and> t < x"
  by (auto simp: live_def find_Some_iff) (metis nth_mem)

lemma slow_honest: "honest_backend (4 * Minute) slow_tiers slow_backend"
  by (auto simp: honest_backend_def honest_l1_def honest_redis_def same_or_fewer_def slow_tiers_def
      slow_backend_def Let_def duration_defs dest!: live_entry split: option.splits)

definition slow_start :: slow_world where "slow_start = \<lparr>clock = 0, near = [], shared = []\<rparr>"

text \<open>A value with five minutes to live is still served after eight.\<close>

theorem two_tier_staleness_bounded_witness:
  "\<exists>w w'. tier_run slow_tiers slow_backend
        [RemoteSet ''k'' ''v'' (5 * Minute), LocalGet ''k'', RemoteSet ''j'' ''u'' Minute] ([], slow_start)
      = ([(''j'', ''u'', 12 * Minute, Minute), (''k'', ''v'', 4 * Minute, 5 * Minute)], w)
    \<and> cache_Get (TwoTierCache slow_backend) ''k'' w = (Inr (Some ''v''), w') \<and> clock w = 12 * Minute
    \<and> clock w < 4 * Minute + 5 * Minute + 4 * Minute + 10 * Minute"
proof -
  let ?H = "[(''j'', ''u'', 12 * Minute, Minute), (''k'', ''v'', 4 * Minute, 5 * Minute)]"
  obtain w w' where r: "tier_run slow_tiers slow_backend
        [RemoteSet ''k'' ''v'' (5 * Minute), LocalGet ''k'', RemoteSet ''j'' ''u'' Minute] ([], slow_start) = (?H, w)"
    and g: "cache_Get (TwoTierCache slow_backend) ''k'' w = (Inr (Some ''v''), w')" and c: "clock w = 12 * Minute"
    by (simp add: slow_start_def slow_tiers_def slow_backend_def TwoTierCache_def two_tier_Get_def Let_def
        live_def duration_defs)
  have e: "l1_entries slow_tiers slow_start = {}" "redis_entries slow_tiers slow_start = {}"
    by (simp_all add: slow_start_def slow_tiers_def)
  from two_tier_staleness_bounded [OF slow_honest e r g]
  have "clock w < 4 * Minute + 5 * Minute + 4 * Minute + 10 * Minute"
    by (auto simp: slow_tiers_def)
  with r g c show ?thesis by blast
qed

end
