(* ===== verification/Json.thy ===== *)
theory Json
  imports Go_Strings
begin

text \<open>
  \<open>encoding/json\<close> as the gateway uses it, on byte strings: the compact encoder with its
  HTML-safe string escapes, and the parser of the decoder, with the nesting limit.
\<close>

section \<open>Values\<close>

text \<open>A number is kept as its literal; what it means depends on the field it is read into.\<close>

datatype json =
    JNull
  | JBool bool
  | JNum string
  | JStr bytes
  | JArr "json list"
  | JObj "(bytes \<times> json) list"

section \<open>The encoder\<close>

definition escape_ascii :: "char \<Rightarrow> bytes" where
  "escape_ascii c =
     (let b = byte c in
      if b = 34 \<or> b = 92 then [CHR 0x5C, c]
      else if b = 8 then [CHR 0x5C, CHR ''b'']
      else if b = 12 then [CHR 0x5C, CHR ''f'']
      else if b = 10 then [CHR 0x5C, CHR ''n'']
      else if b = 13 then [CHR 0x5C, CHR ''r'']
      else if b = 9 then [CHR 0x5C, CHR ''t'']
      else if b < 32 \<or> b = 60 \<or> b = 62 \<or> b = 38 then
        [CHR 0x5C, CHR ''u'', CHR ''0'', CHR ''0'', hex_digit (b div 16), hex_digit (b mod 16)]
      else [c])"

definition escaped_error :: bytes where
  "escaped_error = CHR 0x5C # ''ufffd''"

text \<open>The line separators U+2028 and U+2029.\<close>

definition is_separator :: "bytes \<Rightarrow> bool" where
  "is_separator s \<longleftrightarrow> map byte (take 2 s) = [226, 128] \<and> (byte (s ! 2) = 168 \<or> byte (s ! 2) = 169)"

function escape :: "bytes \<Rightarrow> bytes" where
  "escape s =
     (if s = [] then []
      else let n = rune_length s in
        if n = 0 then escaped_error @ escape (tl s)
        else if n = 1 then escape_ascii (hd s) @ escape (tl s)
        else if n = 3 \<and> is_separator s then
          CHR 0x5C # ''u202'' @ [hex_digit (byte (s ! 2) mod 16)] @ escape (drop 3 s)
        else take n s @ escape (drop n s))"
  by pat_completeness auto
termination
  by (relation "measure length") auto

declare escape.simps [simp del]

fun commas :: "bytes list \<Rightarrow> bytes" where
  "commas [] = []"
| "commas [x] = x"
| "commas (x # y # ys) = x @ CHR '','' # commas (y # ys)"

definition quoted :: "bytes \<Rightarrow> bytes" where
  "quoted s = CHR 0x22 # escape s @ [CHR 0x22]"

fun encode :: "json \<Rightarrow> bytes" where
  "encode JNull = ''null''"
| "encode (JBool b) = (if b then ''true'' else ''false'')"
| "encode (JNum l) = l"
| "encode (JStr s) = quoted s"
| "encode (JArr vs) = CHR ''['' # commas (map encode vs) @ [CHR '']'']"
| "encode (JObj ms) = CHR ''{'' # commas (map (\<lambda>(k, v). quoted k @ CHR '':'' # encode v) ms) @ [CHR ''}'']"

section \<open>The parser\<close>

definition is_space :: "char \<Rightarrow> bool" where
  "is_space c \<longleftrightarrow> byte c = 32 \<or> byte c = 9 \<or> byte c = 13 \<or> byte c = 10"

definition skip :: "bytes \<Rightarrow> bytes" where
  "skip s = dropWhile is_space s"

subsection \<open>Strings\<close>

definition unescape :: "char \<Rightarrow> char option" where
  "unescape c =
     (let b = byte c in
      if b = 34 \<or> b = 92 \<or> b = 47 then Some c
      else if b = 98 then Some (char_of (8 :: nat))
      else if b = 102 then Some (char_of (12 :: nat))
      else if b = 110 then Some (char_of (10 :: nat))
      else if b = 114 then Some (char_of (13 :: nat))
      else if b = 116 then Some (char_of (9 :: nat))
      else None)"

definition hex4 :: "bytes \<Rightarrow> nat option" where
  "hex4 s =
     (case s of
        a # b # c # d # _ \<Rightarrow>
          (case (unhex a, unhex b, unhex c, unhex d) of
             (Some w, Some x, Some y, Some z) \<Rightarrow> Some (((w * 16 + x) * 16 + y) * 16 + z)
           | _ \<Rightarrow> None)
      | _ \<Rightarrow> None)"

definition is_surrogate :: "nat \<Rightarrow> bool" where
  "is_surrogate r \<longleftrightarrow> 55296 \<le> r \<and> r < 57344"

text \<open>The second half of a surrogate pair, if the bytes begin with a matching one.\<close>

definition low_half :: "nat \<Rightarrow> bytes \<Rightarrow> nat option" where
  "low_half r s =
     (case s of
        b # u # s' \<Rightarrow>
          if byte b = 92 \<and> byte u = 117 then
            (case hex4 s' of
               Some r2 \<Rightarrow> if r < 56320 \<and> 56320 \<le> r2 \<and> r2 < 57344 then Some r2 else None
             | None \<Rightarrow> None)
          else None
      | _ \<Rightarrow> None)"

definition prepend :: "bytes \<Rightarrow> (bytes \<times> bytes) option \<Rightarrow> (bytes \<times> bytes) option" where
  "prepend p x = map_option (\<lambda>(t, r). (p @ t, r)) x"

function string_body :: "bytes \<Rightarrow> (bytes \<times> bytes) option" where
  "string_body s =
     (case s of
        [] \<Rightarrow> None
      | c # s1 \<Rightarrow>
          if byte c = 34 then Some ([], s1)
          else if byte c = 92 then
            (case s1 of
               [] \<Rightarrow> None
             | e # s2 \<Rightarrow>
                 if byte e = 117 then
                   (case hex4 s2 of
                      None \<Rightarrow> None
                    | Some r \<Rightarrow>
                        if is_surrogate r then
                          (case low_half r (drop 4 s2) of
                             Some r2 \<Rightarrow> prepend (encode_rune ((r - 55296) * 1024 + (r2 - 56320) + 65536)) (string_body (drop 10 s2))
                           | None \<Rightarrow> prepend RuneError (string_body (drop 4 s2)))
                        else prepend (encode_rune r) (string_body (drop 4 s2)))
                 else (case unescape e of None \<Rightarrow> None | Some x \<Rightarrow> prepend [x] (string_body s2)))
          else if byte c < 32 then None
          else
            let n = rune_length s in
            if n = 0 then prepend RuneError (string_body s1)
            else prepend (take n s) (string_body (drop n s)))"
  by pat_completeness auto
termination
  by (relation "measure length") auto

declare string_body.simps [simp del]

lemma prepend_Some [simp]: "prepend p (Some (t, r)) = Some (p @ t, r)"
  by (simp add: prepend_def)

lemma prepend_eq_Some: "prepend p x = Some (t, r) \<longleftrightarrow> (\<exists>t'. x = Some (t', r) \<and> t = p @ t')"
  by (auto simp: prepend_def)

lemma string_body_shorter: "string_body s = Some (t, r) \<Longrightarrow> length r < length s"
proof (induction s arbitrary: t r rule: length_induct)
  case (1 s)
  have IH: "length r' < length s" if "string_body u = Some (t', r')" "length u < length s" for u t' r'
    using 1(1) that less_trans by blast
  have tail: "s = c # s1 \<Longrightarrow> rune_length s \<noteq> 0 \<Longrightarrow> length (drop (rune_length s) s) < length s" for c s1
    by simp
  from 1(2) show ?case
    by (subst (asm) string_body.simps)
      (auto simp: prepend_eq_Some Let_def dest: IH split: list.splits if_splits option.splits)
qed

subsection \<open>Numbers\<close>

definition digits_of :: "bytes \<Rightarrow> bytes" where "digits_of s = takeWhile is_digit s"

text \<open>Each part is the literal read and what follows it.\<close>

definition scan_int :: "bytes \<Rightarrow> (bytes \<times> bytes) option" where
  "scan_int s =
     (case s of
        [] \<Rightarrow> None
      | c # r \<Rightarrow>
          if c = CHR ''0'' then Some ([c], r)
          else if is_digit c then Some (digits_of s, dropWhile is_digit s)
          else None)"

definition scan_frac :: "bytes \<Rightarrow> (bytes \<times> bytes) option" where
  "scan_frac s =
     (case s of
        [] \<Rightarrow> Some ([], s)
      | c # r \<Rightarrow>
          if c = CHR ''.'' then
            (if digits_of r = [] then None else Some (c # digits_of r, dropWhile is_digit r))
          else Some ([], s))"

definition scan_exp :: "bytes \<Rightarrow> (bytes \<times> bytes) option" where
  "scan_exp s =
     (case s of
        [] \<Rightarrow> Some ([], s)
      | c # r \<Rightarrow>
          if c = CHR ''e'' \<or> c = CHR ''E'' then
            let (sign, r') = (case r of [] \<Rightarrow> ([], r) | d # r1 \<Rightarrow> if d = CHR ''+'' \<or> d = CHR ''-'' then ([d], r1) else ([], r))
            in if digits_of r' = [] then None else Some (c # sign @ digits_of r', dropWhile is_digit r')
          else Some ([], s))"

definition scan_number :: "bytes \<Rightarrow> (bytes \<times> bytes) option" where
  "scan_number s =
     (let (sign, s0) = (case s of [] \<Rightarrow> ([], s) | c # r \<Rightarrow> if c = CHR ''-'' then ([c], r) else ([], s))
      in (case scan_int s0 of
            None \<Rightarrow> None
          | Some (i, s1) \<Rightarrow>
              (case scan_frac s1 of
                 None \<Rightarrow> None
               | Some (f, s2) \<Rightarrow>
                   (case scan_exp s2 of
                      None \<Rightarrow> None
                    | Some (e, s3) \<Rightarrow> Some (sign @ i @ f @ e, s3)))))"

subsection \<open>Values\<close>

definition max_depth :: nat where "max_depth = 10000"

text \<open>
  \<open>parse_value d s\<close> reads one value inside \<open>d\<close> open brackets. The tests on the lengths
  only serve the termination proof: what a value leaves is always shorter.
\<close>

definition literal :: "bytes \<Rightarrow> json \<Rightarrow> bytes \<Rightarrow> (json \<times> bytes) option" where
  "literal word v s = (if take (length word) s = word then Some (v, drop (length word) s) else None)"

lemma length_skip: "length (skip s) \<le> length s"
  by (simp add: skip_def length_dropWhile_le)

lemma skip_Cons_length: "skip s = c # r \<Longrightarrow> length r < length s"
  using length_skip [of s] by simp

function parse_value :: "nat \<Rightarrow> bytes \<Rightarrow> (json \<times> bytes) option"
  and parse_elems :: "nat \<Rightarrow> bytes \<Rightarrow> (json list \<times> bytes) option"
  and parse_members :: "nat \<Rightarrow> bytes \<Rightarrow> ((bytes \<times> json) list \<times> bytes) option" where
  "parse_value d s =
     (case skip s of
        [] \<Rightarrow> None
      | c # r \<Rightarrow>
          if c = CHR ''{'' then
            (if max_depth \<le> d then None
             else if skip r \<noteq> [] \<and> hd (skip r) = CHR ''}'' then Some (JObj [], tl (skip r))
             else map_option (\<lambda>(ms, r'). (JObj ms, r')) (parse_members (Suc d) r))
          else if c = CHR ''['' then
            (if max_depth \<le> d then None
             else if skip r \<noteq> [] \<and> hd (skip r) = CHR '']'' then Some (JArr [], tl (skip r))
             else map_option (\<lambda>(vs, r'). (JArr vs, r')) (parse_elems (Suc d) r))
          else if byte c = 34 then map_option (\<lambda>(t, r'). (JStr t, r')) (string_body r)
          else if c = CHR ''t'' then literal ''true'' (JBool True) (c # r)
          else if c = CHR ''f'' then literal ''false'' (JBool False) (c # r)
          else if c = CHR ''n'' then literal ''null'' JNull (c # r)
          else map_option (\<lambda>(l, r'). (JNum l, r')) (scan_number (c # r)))"
| "parse_elems d s =
     (case parse_value d s of
        None \<Rightarrow> None
      | Some (v, s1) \<Rightarrow>
          if length s1 < length s then
            (case skip s1 of
               [] \<Rightarrow> None
             | c # r \<Rightarrow>
                 if c = CHR '','' then map_option (\<lambda>(vs, r'). (v # vs, r')) (parse_elems d r)
                 else if c = CHR '']'' then Some ([v], r)
                 else None)
          else None)"
| "parse_members d s =
     (case skip s of
        [] \<Rightarrow> None
      | c # r \<Rightarrow>
          if byte c = 34 then
            (case string_body r of
               None \<Rightarrow> None
             | Some (k, s1) \<Rightarrow>
                 (case skip s1 of
                    [] \<Rightarrow> None
                  | c1 # r1 \<Rightarrow>
                      if c1 = CHR '':'' then
                        (case parse_value d r1 of
                           None \<Rightarrow> None
                         | Some (v, s2) \<Rightarrow>
                             if length s2 < length s then
                               (case skip s2 of
                                  [] \<Rightarrow> None
                                | c2 # r2 \<Rightarrow>
                                    if c2 = CHR '','' then
                                      map_option (\<lambda>(ms, r'). ((k, v) # ms, r')) (parse_members d r2)
                                    else if c2 = CHR ''}'' then Some ([(k, v)], r2)
                                    else None)
                             else None)
                      else None))
          else None)"
  by pat_completeness auto
termination
  by (relation "measure (\<lambda>x. case x of Inl (d, s) \<Rightarrow> 2 * length s | Inr (Inl (d, s)) \<Rightarrow> 2 * length s + 1
        | Inr (Inr (d, s)) \<Rightarrow> 2 * length s + 1)")
    (auto dest!: skip_Cons_length string_body_shorter)

declare parse_value.simps [simp del] parse_elems.simps [simp del] parse_members.simps [simp del]

text \<open>\<open>json.Unmarshal\<close> reads one value and nothing after it; a \<open>json.Decoder\<close> leaves the
  rest of its input alone.\<close>

definition unmarshal_value :: "bytes \<Rightarrow> json option" where
  "unmarshal_value s =
     (case parse_value 0 s of
        Some (v, r) \<Rightarrow> if skip r = [] then Some v else None
      | None \<Rightarrow> None)"

definition decode_value :: "bytes \<Rightarrow> json option" where
  "decode_value s = map_option fst (parse_value 0 s)"

end
