(* ===== verification/Json_Correct.thy ===== *)
theory Json_Correct
  imports Json
begin

text \<open>
  The parser inverts the encoder: a value that was encoded is read back with its strings
  made valid UTF-8, whatever follows it.
\<close>

section \<open>Strings\<close>

lemma hex4_digits:
  assumes "a < 16" "b < 16" "c < 16" "d < 16"
  shows "hex4 (hex_digit a # hex_digit b # hex_digit c # hex_digit d # s) = Some (((a * 16 + b) * 16 + c) * 16 + d)"
  using assms by (simp add: hex4_def)

lemma hex_digits:
  "CHR ''0'' = hex_digit 0" "CHR ''2'' = hex_digit 2" "CHR ''d'' = hex_digit 13" "CHR ''f'' = hex_digit 15"
  by code_simp+

lemma string_body_u:
  assumes "hex4 s = Some r" "\<not> is_surrogate r"
  shows "string_body (CHR 0x5C # CHR ''u'' # s) = prepend (encode_rune r) (string_body (drop 4 s))"
  using assms by (subst string_body.simps) (simp add: byte_def)

lemma string_body_escape:
  assumes "unescape e = Some x"
  shows "string_body (CHR 0x5C # e # s) = prepend [x] (string_body s)"
proof -
  have "byte e \<noteq> 117" using assms by (auto simp: unescape_def Let_def)
  then show ?thesis using assms by (subst string_body.simps) (simp add: byte_def)
qed

lemma string_body_rune:
  assumes "rune_length s = n" "n \<noteq> 0" "byte (hd s) \<noteq> 34" "byte (hd s) \<noteq> 92" "\<not> byte (hd s) < 32"
  shows "string_body s = prepend (take n s) (string_body (drop n s))"
proof -
  obtain c cs where "s = c # cs" using assms(1,2) by (cases s) (auto simp: rune_length_def)
  with assms show ?thesis by (subst string_body.simps) (simp add: Let_def)
qed

lemma byte_eq_iff: "byte c = n \<Longrightarrow> n < 256 \<Longrightarrow> c = char_of n"
  by (metis byte_def char_of_char)

lemma encode_rune_ascii: "byte c < 128 \<Longrightarrow> encode_rune (byte c) = [c]"
  by (simp add: encode_rune_def byte_def)

lemma string_body_ascii:
  assumes "byte c < 128"
  shows "string_body (escape_ascii c @ s) = prepend [c] (string_body s)"
proof -
  let ?b = "byte c"
  consider (quote) "?b = 34 \<or> ?b = 92" | (letter) "?b \<in> {8, 9, 10, 12, 13}"
    | (hex) "?b \<notin> {8, 9, 10, 12, 13, 34, 92}" "?b < 32 \<or> ?b = 60 \<or> ?b = 62 \<or> ?b = 38"
    | (plain) "?b \<noteq> 34" "?b \<noteq> 92" "\<not> ?b < 32" "?b \<noteq> 60" "?b \<noteq> 62" "?b \<noteq> 38" by fastforce
  then show ?thesis
  proof cases
    case quote
    then have "unescape c = Some c" by (auto simp: unescape_def)
    then show ?thesis using quote string_body_escape by (auto simp: escape_ascii_def)
  next
    case letter
    then consider "c = char_of (8 :: nat)" | "c = char_of (9 :: nat)" | "c = char_of (10 :: nat)"
      | "c = char_of (12 :: nat)" | "c = char_of (13 :: nat)" using byte_eq_iff by fastforce
    then show ?thesis
      by cases (simp_all add: escape_ascii_def byte_char_of string_body_escape unescape_def byte_def)
  next
    case hex
    have d: "?b div 16 < 16" "?b mod 16 < 16" by (simp_all add: less_mult_imp_div_less)
    have "((0 * 16 + 0) * 16 + ?b div 16) * 16 + ?b mod 16 = ?b" by simp
    with hex4_digits [OF _ _ d, of 0 0 s]
    have h: "hex4 (hex_digit 0 # hex_digit 0 # hex_digit (?b div 16) # hex_digit (?b mod 16) # s) = Some ?b" by simp
    have "\<not> is_surrogate ?b" using assms by (simp add: is_surrogate_def)
    from string_body_u [OF h this] encode_rune_ascii [OF assms] hex
    show ?thesis by (auto simp: escape_ascii_def Let_def hex_digits)
  next
    case plain
    then have "escape_ascii c = [c]" by (auto simp: escape_ascii_def Let_def split: if_splits)
    moreover have "rune_length (c # s) = 1" using assms by (simp add: rune_length_def lead_length_def)
    ultimately show ?thesis using string_body_rune [of "c # s" 1] plain by simp
  qed
qed

lemma rune_length_cases:
  "rune_length s = 0 \<or> rune_length s = 1 \<or>
     (rune_length s = lead_length (byte (hd s)) \<and> 2 \<le> rune_length s \<and> 128 \<le> byte (hd s) \<and> s \<noteq> [])"
  by (auto simp: rune_length_def lead_length_def Let_def split: list.split)

lemma rune_length_one: "rune_length s = 1 \<Longrightarrow> \<exists>c cs. s = c # cs \<and> byte c < 128"
  by (auto simp: rune_length_def lead_length_def Let_def split: list.splits if_splits)

lemma rune_length_take:
  assumes "rune_length s = n" "2 \<le> n"
  shows "rune_length (take n s @ r) = n"
proof -
  obtain c cs where s: "s = c # cs" using assms by (cases s) (auto simp: rune_length_def)
  have n: "n = lead_length (byte c)" "n \<le> length s" "second_ok (byte c) (byte (s ! 1))"
    "list_all cont (take (n - 2) (drop 2 s))"
    using assms unfolding s by (auto simp: rune_length_def Let_def split: if_splits)
  let ?t = "take n s @ r"
  have t: "?t = c # take (n - 1) cs @ r" using assms(2) s by (cases n) auto
  have "?t ! 1 = s ! 1" using assms(2) n(2) by (simp add: nth_append)
  moreover have "take (n - 2) (drop 2 ?t) = take (n - 2) (drop 2 s)"
    using assms(2) n(2) by (simp add: take_drop min_def)
  moreover have "n \<le> length ?t" using n(2) by simp
  ultimately show ?thesis
    using n assms(2) unfolding rune_length_def t list.case by (simp add: Let_def t [symmetric])
qed

lemma separator_rune:
  assumes "rune_length s = 3" "is_separator s"
  shows "take 3 s = encode_rune (8192 + 32 + byte (s ! 2) mod 16)"
    and "hex4 (''202'' @ hex_digit (byte (s ! 2) mod 16) # r) = Some (8192 + 32 + byte (s ! 2) mod 16)"
proof -
  obtain a b c u where s: "s = a # b # c # u"
    using assms(1) rune_length_le [of s] by (cases s; cases "tl s"; cases "tl (tl s)") auto
  have v: "a = char_of (226 :: nat)" "b = char_of (128 :: nat)" "c = char_of (168 :: nat) \<or> c = char_of (169 :: nat)"
    using assms(2) byte_eq_iff [of a 226] byte_eq_iff [of b 128] byte_eq_iff [of c 168] byte_eq_iff [of c 169]
    by (auto simp: s is_separator_def)
  then show "take 3 s = encode_rune (8192 + 32 + byte (s ! 2) mod 16)"
    by (auto simp: s encode_rune_def byte_char_of)
  show "hex4 (''202'' @ hex_digit (byte (s ! 2) mod 16) # r) = Some (8192 + 32 + byte (s ! 2) mod 16)"
    using hex4_digits [of 2 0 2 "byte (s ! 2) mod 16" r] by (simp add: hex_digits)
qed

lemma string_body_encoded: "string_body (escape s @ CHR 0x22 # rest) = Some (sanitize s, rest)"
proof (induction s rule: length_induct)
  case (1 s)
  show ?case
  proof (cases "s = []")
    case True
    then show ?thesis by (subst escape.simps) (subst string_body.simps, simp add: byte_def)
  next
    case False
    then have tl: "length (tl s) < length s" by simp
    let ?n = "rune_length s"
    consider (error) "?n = 0" | (ascii) "?n = 1" | (multi) "2 \<le> ?n" by linarith
    then show ?thesis
    proof cases
      case error
      have "hex4 (''fffd'' @ escape (tl s) @ CHR 0x22 # rest) = Some 65533"
        using hex4_digits [of 15 15 15 13 "escape (tl s) @ CHR 0x22 # rest"] by (simp add: hex_digits)
      from string_body_u [OF this] 1 tl
      have "string_body (escaped_error @ escape (tl s) @ CHR 0x22 # rest) = Some (RuneError @ sanitize (tl s), rest)"
        by (simp add: escaped_error_def is_surrogate_def RuneError_def)
      with error False show ?thesis by (subst escape.simps, subst sanitize.simps) simp
    next
      case ascii
      then obtain c cs where "s = c # cs" "byte c < 128" using rune_length_one by blast
      with 1 ascii show ?thesis
        by (subst escape.simps, subst sanitize.simps) (simp add: string_body_ascii)
    next
      case multi
      then have h: "128 \<le> byte (hd s)" "?n \<le> length s" using rune_length_cases [of s] rune_length_le [of s] by auto
      then have IH: "string_body (escape (drop ?n s) @ CHR 0x22 # rest) = Some (sanitize (drop ?n s), rest)"
        using 1 False multi by simp
      show ?thesis
      proof (cases "?n = 3 \<and> is_separator s")
        case True
        then have "rune_length s = 3" "is_separator s" by auto
        note sep = separator_rune [OF this]
        have "\<not> is_surrogate (8192 + 32 + byte (s ! 2) mod 16)" by (simp add: is_surrogate_def)
        from string_body_u [OF sep(2) this, of "escape (drop 3 s) @ CHR 0x22 # rest"] IH True sep(1) [symmetric]
        have "string_body (CHR 0x5C # ''u202'' @ [hex_digit (byte (s ! 2) mod 16)] @ escape (drop 3 s) @ CHR 0x22 # rest)
            = Some (take 3 s @ sanitize (drop 3 s), rest)" by simp
        with True False show ?thesis by (subst escape.simps, subst sanitize.simps) simp
      next
        case False
        let ?r = "escape (drop ?n s) @ CHR 0x22 # rest"
        have "hd (take ?n s @ ?r) = hd s" using \<open>s \<noteq> []\<close> multi by (cases s; cases "rune_length s") auto
        then have "string_body (take ?n s @ ?r) = prepend (take ?n s) (string_body ?r)"
          using string_body_rune [OF rune_length_take [OF refl multi, of ?r]] h multi by simp
        with False \<open>s \<noteq> []\<close> multi IH show ?thesis
          by (subst escape.simps, subst sanitize.simps) (auto simp: Let_def)
      qed
    qed
  qed
qed


section \<open>Numbers\<close>

text \<open>What may follow a number for its literal to end there.\<close>

definition number_ends :: "bytes \<Rightarrow> bool" where
  "number_ends r \<longleftrightarrow> r = [] \<or> hd r \<in> {CHR '','', CHR '']'', CHR ''}'', CHR 0x0A}"

lemma number_ends_chars:
  assumes "number_ends r" "r = c # cs"
  shows "\<not> is_digit c" "c \<noteq> CHR ''.''" "c \<noteq> CHR ''e''" "c \<noteq> CHR ''E''"
proof -
  have "c = CHR '','' \<or> c = CHR '']'' \<or> c = CHR ''}'' \<or> c = CHR 0x0A"
    using assms by (auto simp: number_ends_def)
  then show "\<not> is_digit c" "c \<noteq> CHR ''.''" "c \<noteq> CHR ''e''" "c \<noteq> CHR ''E''"
    by (auto simp: is_digit_def byte_def)
qed

lemma number_ends_scan:
  assumes "number_ends r" shows "scan_frac r = Some ([], r)" "scan_exp r = Some ([], r)"
  using number_ends_chars [OF assms] by (auto simp: scan_frac_def scan_exp_def split: list.split)

text \<open>The leading digit of a printed natural number is zero only for zero.\<close>

lemma nat_digits_leading:
  "\<exists>c cs. nat_digits n = c # cs \<and> is_digit c \<and> (c = CHR ''0'' \<longrightarrow> cs = [] \<and> n = 0)"
proof (induction n rule: nat_digits.induct)
  case (1 n)
  have zero: "CHR ''0'' = char_of (48 + (0 :: nat))" by code_simp
  show ?case
  proof (cases "n < 10")
    case True
    have "char_of (48 + n) = char_of (48 + (0 :: nat)) \<longleftrightarrow> n = 0"
    proof
      assume "char_of (48 + n) = (char_of (48 + (0 :: nat)) :: char)"
      then have "byte (char_of (48 + n)) = byte (char_of (48 + (0 :: nat)))" by (rule arg_cong)
      then show "n = 0" using True by (simp add: byte_def)
    qed simp
    with True zero show ?thesis by (subst nat_digits.simps) (simp add: is_digit_char_of)
  next
    case False
    from 1 [OF False] obtain c cs where "nat_digits (n div 10) = c # cs" "is_digit c"
      "c = CHR ''0'' \<longrightarrow> cs = [] \<and> n div 10 = 0" by blast
    with False show ?thesis by (subst nat_digits.simps) (auto simp: div_eq_0_iff)
  qed
qed

lemma digits_then:
  assumes "list_all is_digit ds" "number_ends r"
  shows "takeWhile is_digit (ds @ r) = ds" "dropWhile is_digit (ds @ r) = r"
proof -
  have "takeWhile is_digit r = []" "dropWhile is_digit r = r"
    using number_ends_chars [OF assms(2)] by (cases r; simp)+
  then show "takeWhile is_digit (ds @ r) = ds" "dropWhile is_digit (ds @ r) = r"
    using assms(1) by (simp_all add: takeWhile_append list_all_iff)
qed

lemma scan_int_nat_digits:
  assumes "number_ends r" shows "scan_int (nat_digits n @ r) = Some (nat_digits n, r)"
proof -
  obtain c cs where c: "nat_digits n = c # cs" "is_digit c" "c = CHR ''0'' \<longrightarrow> cs = []"
    using nat_digits_leading [of n] by blast
  have "list_all is_digit (c # cs)" using nat_digits_are_digits [of n] c by simp
  from digits_then [OF this assms] c show ?thesis
    by (auto simp: scan_int_def digits_of_def)
qed

lemma scan_number_itoa:
  assumes "number_ends r" shows "scan_number (itoa n @ r) = Some (itoa n, r)"
proof (cases "n < 0")
  case True
  then show ?thesis
    using scan_int_nat_digits [OF assms, of "nat (- n)"] number_ends_scan [OF assms]
    by (simp add: scan_number_def itoa_def)
next
  case False
  obtain c cs where "nat_digits (nat n) = c # cs" "is_digit c" using nat_digits_hd by blast
  moreover from this have "c \<noteq> CHR ''-''" by auto
  ultimately show ?thesis
    using False scan_int_nat_digits [OF assms, of "nat n"] number_ends_scan [OF assms]
    by (simp add: scan_number_def itoa_def)
qed

text \<open>A literal the encoder may emit.\<close>

definition number_literal :: "string \<Rightarrow> bool" where
  "number_literal l \<longleftrightarrow> (\<forall>r. number_ends r \<longrightarrow> scan_number (l @ r) = Some (l, r))
     \<and> l \<noteq> [] \<and> (is_digit (hd l) \<or> hd l = CHR ''-'')"

lemma number_literal_itoa: "number_literal (itoa n)"
proof -
  obtain c cs where "nat_digits (nat n) = c # cs" "is_digit c" using nat_digits_hd by blast
  then have "itoa n \<noteq> [] \<and> (is_digit (hd (itoa n)) \<or> hd (itoa n) = CHR ''-'')" by (simp add: itoa_def)
  then show ?thesis by (simp add: number_literal_def scan_number_itoa)
qed

section \<open>Values\<close>

fun nesting :: "json \<Rightarrow> nat" where
  "nesting (JArr vs) = Suc (Max (insert 0 (set (map nesting vs))))"
| "nesting (JObj ms) = Suc (Max (insert 0 (set (map (\<lambda>(k, v). nesting v) ms))))"
| "nesting _ = 0"

text \<open>The value with its strings and keys made valid UTF-8.\<close>

fun cleaned :: "json \<Rightarrow> json" where
  "cleaned (JStr s) = JStr (sanitize s)"
| "cleaned (JArr vs) = JArr (map cleaned vs)"
| "cleaned (JObj ms) = JObj (map (\<lambda>(k, v). (sanitize k, cleaned v)) ms)"
| "cleaned v = v"

fun printable :: "json \<Rightarrow> bool" where
  "printable (JNum l) = number_literal l"
| "printable (JArr vs) = list_all printable vs"
| "printable (JObj ms) = list_all (\<lambda>(k, v). printable v) ms"
| "printable _ = True"

lemma skip_start [simp]: "\<not> is_space c \<Longrightarrow> skip (c # s) = c # s"
  by (simp add: skip_def)

lemma not_space [simp]:
  "\<not> is_space (CHR '','')" "\<not> is_space (CHR '']'')" "\<not> is_space (CHR ''}'')" "\<not> is_space (CHR '':'')"
  "\<not> is_space (CHR ''['')" "\<not> is_space (CHR ''{'')" "\<not> is_space (CHR 0x22)" "\<not> is_space (CHR ''-'')"
  "\<not> is_space (CHR ''t'')" "\<not> is_space (CHR ''f'')" "\<not> is_space (CHR ''n'')"
  by (simp_all add: is_space_def byte_def)

lemma digit_not_space [simp]: "is_digit c \<Longrightarrow> \<not> is_space c"
  by (auto simp: is_space_def is_digit_def)

lemma number_ends_close [simp]:
  "number_ends (CHR '','' # s)" "number_ends (CHR '']'' # s)" "number_ends (CHR ''}'' # s)"
  by (simp_all add: number_ends_def)

lemma parse_string:
  "parse_value d (quoted t @ r) = Some (JStr (sanitize t), r)"
  by (subst parse_value.simps) (simp add: quoted_def byte_def string_body_encoded)

lemma parse_number:
  assumes "number_literal l" "number_ends r"
  shows "parse_value d (l @ r) = Some (JNum l, r)"
proof -
  obtain c cs where l: "l = c # cs" "is_digit c \<or> c = CHR ''-''" using assms(1) by (cases l) (auto simp: number_literal_def)
  then have "c \<noteq> CHR ''{''" "c \<noteq> CHR ''[''" "byte c \<noteq> 34" "c \<noteq> CHR ''t''" "c \<noteq> CHR ''f''" "c \<noteq> CHR ''n''" "\<not> is_space c"
    by (auto simp: is_digit_def byte_def)
  moreover have "scan_number (c # cs @ r) = Some (c # cs, r)" using assms l by (simp add: number_literal_def)
  ultimately show ?thesis unfolding l(1) by (subst parse_value.simps) simp
qed

lemma digit_not_bracket [simp]: "\<not> is_digit (CHR '']'')"
  by (simp add: is_digit_def byte_def)

lemma encode_start:
  assumes "printable v"
  shows "\<exists>c cs. encode v = c # cs \<and> \<not> is_space c \<and> c \<noteq> CHR '']''"
proof (cases v)
  case (JBool b)
  then show ?thesis by (cases b) auto
next
  case (JNum l)
  then have l: "l \<noteq> []" "is_digit (hd l) \<or> hd l = CHR ''-''" using assms by (auto simp: number_literal_def)
  then have "\<not> is_space (hd l) \<and> hd l \<noteq> CHR '']''" by auto
  with JNum l(1) show ?thesis by (cases l) auto
qed (auto simp: quoted_def)

lemma parse_elems_encoded:
  assumes "vs \<noteq> []" "list_all printable vs"
    and "\<And>v r. v \<in> set vs \<Longrightarrow> number_ends r \<Longrightarrow> parse_value d (encode v @ r) = Some (cleaned v, r)"
  shows "parse_elems d (commas (map encode vs) @ CHR '']'' # r) = Some (map cleaned vs, r)"
  using assms
proof (induction vs)
  case (Cons v vs)
  obtain c cs where c: "encode v = c # cs" using encode_start Cons.prems(2) by fastforce
  show ?case
  proof (cases vs)
    case Nil
    then show ?thesis using Cons.prems(3) [of v] c by (subst parse_elems.simps) simp
  next
    case (Cons u us)
    then have "parse_elems d (commas (map encode vs) @ CHR '']'' # r) = Some (map cleaned vs, r)"
      using Cons.IH Cons.prems by simp
    then show ?thesis using Cons Cons.prems(3) [of v] c by (subst parse_elems.simps) simp
  qed
qed simp

definition member :: "bytes \<times> json \<Rightarrow> bytes" where
  "member m = (case m of (k, v) \<Rightarrow> quoted k @ CHR '':'' # encode v)"

lemma parse_members_encoded:
  assumes "ms \<noteq> []"
    and "\<And>k v r. (k, v) \<in> set ms \<Longrightarrow> number_ends r \<Longrightarrow> parse_value d (encode v @ r) = Some (cleaned v, r)"
  shows "parse_members d (commas (map member ms) @ CHR ''}'' # r)
       = Some (map (\<lambda>(k, v). (sanitize k, cleaned v)) ms, r)"
  using assms
proof (induction ms)
  case (Cons m ms)
  obtain k v where m: "m = (k, v)" by fastforce
  have v: "number_ends r' \<Longrightarrow> parse_value d (encode v @ r') = Some (cleaned v, r')" for r'
    using Cons.prems(2) [of k v] m by simp
  have k: "string_body (escape k @ CHR 0x22 # r') = Some (sanitize k, r')" for r' by (rule string_body_encoded)
  have q: "byte (CHR 0x22) = 34" by code_simp
  show ?case
  proof (cases ms)
    case Nil
    then show ?thesis using v [of "CHR ''}'' # r"]
      by (subst parse_members.simps) (simp add: m member_def quoted_def q k)
  next
    case (Cons u us)
    then have "parse_members d (commas (map member ms) @ CHR ''}'' # r)
        = Some (map (\<lambda>(k, v). (sanitize k, cleaned v)) ms, r)"
      using Cons.IH Cons.prems by fastforce
    then show ?thesis using Cons v [of "CHR '','' # commas (map member ms) @ CHR ''}'' # r"]
      by (subst parse_members.simps) (simp add: m member_def quoted_def q k)
  qed
qed simp

text \<open>The parser reads back what the encoder wrote, and leaves what follows.\<close>

lemma parse_encode:
  assumes "printable v" "d + nesting v \<le> max_depth" "number_ends r"
  shows "parse_value d (encode v @ r) = Some (cleaned v, r)"
  using assms
proof (induction v arbitrary: d r)
  case JNull
  show ?case by (subst parse_value.simps) (simp add: literal_def byte_def)
next
  case (JBool b)
  show ?case by (subst parse_value.simps) (simp add: literal_def byte_def)
next
  case (JNum l)
  then show ?case by (simp add: parse_number)
next
  case (JStr s)
  show ?case by (simp add: parse_string)
next
  case (JArr vs)
  have d: "d < max_depth" using JArr.prems(2) by simp
  show ?case
  proof (cases "vs = []")
    case True
    then show ?thesis using d by (subst parse_value.simps) (simp add: byte_def)
  next
    case False
    have "Suc d + nesting v \<le> max_depth" if "v \<in> set vs" for v
    proof -
      have "nesting v \<le> Max (insert 0 (set (map nesting vs)))" using that by (intro Max_ge) auto
      then show ?thesis using JArr.prems(2) by simp
    qed
    then have p: "parse_elems (Suc d) (commas (map encode vs) @ CHR '']'' # r) = Some (map cleaned vs, r)"
      using JArr.IH JArr.prems(1) False by (intro parse_elems_encoded) (auto simp: list_all_iff)
    obtain u us where "vs = u # us" using False by (cases vs) auto
    moreover obtain c cs where "encode u = c # cs" "\<not> is_space c" "c \<noteq> CHR '']''"
      using encode_start [of u] JArr.prems(1) calculation by auto
    ultimately obtain cs' where "commas (map encode vs) @ CHR '']'' # r = c # cs'" "\<not> is_space c" "c \<noteq> CHR '']''"
      by (cases us) auto
    with p d show ?thesis by (subst parse_value.simps) (simp add: byte_def)
  qed
next
  case (JObj ms)
  have d: "d < max_depth" using JObj.prems(2) by simp
  have enc: "encode (JObj ms) = CHR ''{'' # commas (map member ms) @ [CHR ''}'']"
    by (simp add: member_def [abs_def] split_def)
  show ?case
  proof (cases "ms = []")
    case True
    then show ?thesis using d by (subst parse_value.simps) (simp add: byte_def)
  next
    case False
    have n: "Suc d + nesting v \<le> max_depth" if "(k, v) \<in> set ms" for k v
    proof -
      have "nesting v \<le> Max (insert 0 (set (map (\<lambda>(k, v). nesting v) ms)))"
        using that by (intro Max_ge) force+
      then show ?thesis using JObj.prems(2) by simp
    qed
    have p: "parse_members (Suc d) (commas (map member ms) @ CHR ''}'' # r)
        = Some (map (\<lambda>(k, v). (sanitize k, cleaned v)) ms, r)"
      using False
    proof (rule parse_members_encoded)
      fix k v r'
      assume kv: "(k, v) \<in> set ms" and r': "number_ends r'"
      have "printable v" using JObj.prems(1) kv by (auto simp: list_all_iff)
      then show "parse_value (Suc d) (encode v @ r') = Some (cleaned v, r')"
        using JObj.IH [OF kv] n [OF kv] r' by (auto simp: snds.simps)
    qed
    obtain k v us where "ms = (k, v) # us" using False by (cases ms) auto
    then obtain cs' where "commas (map member ms) @ CHR ''}'' # r = CHR 0x22 # cs'"
      by (cases us) (auto simp: member_def quoted_def)
    with p d show ?thesis unfolding enc by (subst parse_value.simps) (simp add: byte_def)
  qed
qed

lemma unmarshal_encode:
  assumes "printable v" "nesting v \<le> max_depth"
  shows "unmarshal_value (encode v) = Some (cleaned v)"
  using parse_encode [of v 0 "[]"] assms by (simp add: unmarshal_value_def number_ends_def skip_def)

lemma decode_encode:
  assumes "printable v" "nesting v \<le> max_depth" "number_ends r"
  shows "decode_value (encode v @ r) = Some (cleaned v)"
  using parse_encode [of v 0 r] assms by (simp add: decode_value_def)

end
