(* ===== verification/Json_Struct.thy ===== *)
theory Json_Struct
  imports Json_Correct Float64
begin

text \<open>
  How \<open>encoding/json\<close> fills a Go struct: the lookup of a key among the field names, exact
  first and then with letter case folded; the conversion of each value to the field's type;
  and the error policy, by which a value of the wrong type leaves its field alone, the first
  such error is reported at the end and the other fields are still filled.
\<close>

datatype json_error = JsonSyntax | JsonEOF | JsonType bytes

section \<open>Field names\<close>

text \<open>
  \<open>foldName\<close>: ASCII letters are raised, and the two other characters that fold to an ASCII
  letter, the long s and the Kelvin sign, become that letter. The gateway's field names are
  ASCII, so the rest of Unicode cannot match them and is left as it is.
\<close>

definition raise_letter :: "char \<Rightarrow> char" where
  "raise_letter c = (if 97 \<le> byte c \<and> byte c \<le> 122 then char_of (byte c - 32) else c)"

fun fold_name :: "bytes \<Rightarrow> bytes" where
  "fold_name [] = []"
| "fold_name (c # s) =
     (case s of
        [] \<Rightarrow> [raise_letter c]
      | d # s' \<Rightarrow>
          if byte c = 197 \<and> byte d = 191 then CHR ''S'' # fold_name s'
          else (case s' of
                  [] \<Rightarrow> raise_letter c # fold_name s
                | e # s'' \<Rightarrow>
                    if byte c = 226 \<and> byte d = 132 \<and> byte e = 170 then CHR ''K'' # fold_name s''
                    else raise_letter c # fold_name s))"

type_synonym 'a setter = "json \<Rightarrow> 'a \<Rightarrow> 'a \<times> json_error option"

definition find_field :: "(bytes \<times> 'a setter) list \<Rightarrow> bytes \<Rightarrow> 'a setter option" where
  "find_field fields key =
     (case map_of fields key of
        Some set_it \<Rightarrow> Some set_it
      | None \<Rightarrow> map_of (map (\<lambda>(n, set_it). (fold_name n, set_it)) fields) (fold_name key))"

section \<open>Filling a struct\<close>

definition first_error :: "json_error option \<Rightarrow> json_error option \<Rightarrow> json_error option" where
  "first_error e e' = (case e of None \<Rightarrow> e' | Some _ \<Rightarrow> e)"

fun decode_members ::
  "(bytes \<times> 'a setter) list \<Rightarrow> (bytes \<times> json) list \<Rightarrow> 'a \<times> json_error option \<Rightarrow> 'a \<times> json_error option" where
  "decode_members fields [] (x, e) = (x, e)"
| "decode_members fields ((k, v) # ms) (x, e) =
     (case find_field fields k of
        None \<Rightarrow> decode_members fields ms (x, e)
      | Some set_it \<Rightarrow>
          let (x', e') = set_it v x in decode_members fields ms (x', first_error e e'))"

definition decode_struct :: "(bytes \<times> 'a setter) list \<Rightarrow> 'a setter" where
  "decode_struct fields v x =
     (case v of
        JObj ms \<Rightarrow> decode_members fields ms (x, None)
      | JNull \<Rightarrow> (x, None)
      | _ \<Rightarrow> (x, Some (JsonType ''object'')))"

subsection \<open>Scalars\<close>

definition set_string :: "(string \<Rightarrow> 'a \<Rightarrow> 'a) \<Rightarrow> 'a setter" where
  "set_string upd v x =
     (case v of JStr s \<Rightarrow> (upd s x, None) | JNull \<Rightarrow> (x, None) | _ \<Rightarrow> (x, Some (JsonType ''string'')))"

definition set_bool :: "(bool \<Rightarrow> 'a \<Rightarrow> 'a) \<Rightarrow> 'a setter" where
  "set_bool upd v x =
     (case v of JBool b \<Rightarrow> (upd b x, None) | JNull \<Rightarrow> (x, None) | _ \<Rightarrow> (x, Some (JsonType ''bool'')))"

definition set_int :: "(int \<Rightarrow> 'a \<Rightarrow> 'a) \<Rightarrow> 'a setter" where
  "set_int upd v x =
     (case v of
        JNum l \<Rightarrow> (case Atoi l of Some n \<Rightarrow> (upd n x, None) | None \<Rightarrow> (x, Some (JsonType ''int'')))
      | JNull \<Rightarrow> (x, None)
      | _ \<Rightarrow> (x, Some (JsonType ''int'')))"

text \<open>\<open>strconv.ParseFloat\<close> on a number literal: the exact value, rounded once.\<close>

definition literal_value :: "string \<Rightarrow> rat" where
  "literal_value l =
     (let (s, u) = (case l of [] \<Rightarrow> (1, l) | c # r \<Rightarrow> if c = CHR ''-'' then (- 1, r) else (1, l));
          i = takeWhile is_digit u;
          r1 = dropWhile is_digit u;
          f = (case r1 of [] \<Rightarrow> [] | c # r \<Rightarrow> if c = CHR ''.'' then takeWhile is_digit r else []);
          r2 = (case r1 of [] \<Rightarrow> [] | c # r \<Rightarrow> if c = CHR ''.'' then dropWhile is_digit r else r1);
          x = (case r2 of [] \<Rightarrow> 0 | _ # r \<Rightarrow>
                 (case r of [] \<Rightarrow> 0 | c # r' \<Rightarrow>
                    let d = value_or 0 (digits_value 0 (if is_digit c then r else r'))
                    in if c = CHR ''-'' then - int d else int d))
      in s * of_nat (value_or 0 (digits_value 0 (i @ f))) * 10 powi (x - int (length f)))"

definition set_float :: "(float64 \<Rightarrow> 'a \<Rightarrow> 'a) \<Rightarrow> 'a setter" where
  "set_float upd v x =
     (case v of
        JNum l \<Rightarrow>
          (case f64 (literal_value l) of
             Fin q \<Rightarrow> (upd (Fin q) x, None)
           | _ \<Rightarrow> (x, Some (JsonType ''float64'')))
      | JNull \<Rightarrow> (x, None)
      | _ \<Rightarrow> (x, Some (JsonType ''float64'')))"

subsection \<open>Slices\<close>

text \<open>
  An array fills a slice element by element, over the elements the slice already has (a key
  that comes twice) and over zero values after them. A nil slice is \<open>None\<close>.
\<close>

fun decode_elems :: "'b setter \<Rightarrow> 'b \<Rightarrow> json list \<Rightarrow> 'b list \<Rightarrow> 'b list \<times> json_error option" where
  "decode_elems set_it zero [] old = ([], None)"
| "decode_elems set_it zero (v # vs) old =
     (let (y, e) = set_it v (case old of [] \<Rightarrow> zero | o' # _ \<Rightarrow> o');
          (ys, e') = decode_elems set_it zero vs (drop 1 old)
      in (y # ys, first_error e e'))"

definition decode_slice :: "'b setter \<Rightarrow> 'b \<Rightarrow> 'b list option setter" where
  "decode_slice set_it zero v old =
     (case v of
        JArr vs \<Rightarrow> let (ys, e) = decode_elems set_it zero vs (value_or [] old) in (Some ys, e)
      | JNull \<Rightarrow> (None, None)
      | _ \<Rightarrow> (old, Some (JsonType ''array'')))"

definition set_slice :: "('a \<Rightarrow> 'b list option) \<Rightarrow> ('b list option \<Rightarrow> 'a \<Rightarrow> 'a) \<Rightarrow> 'b setter \<Rightarrow> 'b \<Rightarrow> 'a setter" where
  "set_slice sel upd set_it zero v x = (let (ys, e) = decode_slice set_it zero v (sel x) in (upd ys x, e))"

text \<open>A nested struct is filled in place.\<close>

definition set_struct :: "('a \<Rightarrow> 'b) \<Rightarrow> ('b \<Rightarrow> 'a \<Rightarrow> 'a) \<Rightarrow> (bytes \<times> 'b setter) list \<Rightarrow> 'a setter" where
  "set_struct sel upd fields v x = (let (y, e) = decode_struct fields v (sel x) in (upd y x, e))"

section \<open>Unmarshal and Decode\<close>

text \<open>
  \<open>json.Unmarshal\<close> into a struct that exists: invalid input changes nothing. A
  \<open>json.Decoder\<close> reports the end of the input when it holds nothing but space.
\<close>

definition Unmarshal :: "(bytes \<times> 'a setter) list \<Rightarrow> bytes \<Rightarrow> 'a \<Rightarrow> 'a \<times> json_error option" where
  "Unmarshal fields s x =
     (case unmarshal_value s of None \<Rightarrow> (x, Some JsonSyntax) | Some v \<Rightarrow> decode_struct fields v x)"

definition Decode :: "(bytes \<times> 'a setter) list \<Rightarrow> bytes \<Rightarrow> 'a \<Rightarrow> 'a \<times> json_error option" where
  "Decode fields s x =
     (if skip s = [] then (x, Some JsonEOF)
      else (case decode_value s of None \<Rightarrow> (x, Some JsonSyntax) | Some v \<Rightarrow> decode_struct fields v x))"

text \<open>\<open>json.Unmarshal\<close> into a nil pointer to a struct: \<open>null\<close> leaves it nil.\<close>

definition UnmarshalPtr :: "(bytes \<times> 'a setter) list \<Rightarrow> 'a \<Rightarrow> bytes \<Rightarrow> 'a option \<times> json_error option" where
  "UnmarshalPtr fields zero s =
     (case unmarshal_value s of
        None \<Rightarrow> (None, Some JsonSyntax)
      | Some JNull \<Rightarrow> (None, None)
      | Some v \<Rightarrow> let (x, e) = decode_struct fields v zero in (Some x, e))"

text \<open>Slices of strings, the only ones beside messages.\<close>

definition string_setter :: "string setter" where
  "string_setter = set_string (\<lambda>s _. s)"

definition json_strings :: "string list option \<Rightarrow> json" where
  "json_strings xs = (case xs of None \<Rightarrow> JNull | Some ss \<Rightarrow> JArr (map JStr ss))"

definition json_int :: "int \<Rightarrow> json" where
  "json_int n = JNum (itoa n)"

section \<open>Reading back what was written\<close>

lemma set_int_json [simp]: "is_int64 n \<Longrightarrow> set_int upd (json_int n) x = (upd n x, None)"
  by (simp add: set_int_def json_int_def Atoi_itoa)

lemma set_string_json [simp]: "set_string upd (JStr s) x = (upd s x, None)"
  by (simp add: set_string_def)

lemma set_bool_json [simp]: "set_bool upd (JBool b) x = (upd b x, None)"
  by (simp add: set_bool_def)

lemma first_error_None [simp]: "first_error None e = e"
  by (simp add: first_error_def)

lemma decode_strings:
  "decode_elems string_setter [] (map JStr ss) old = (ss, None)"
  by (induction ss arbitrary: old) (auto simp: string_setter_def)

lemma set_slice_strings [simp]:
  "set_slice sel upd string_setter [] (json_strings xs) x = (upd xs x, None)"
  by (cases xs) (auto simp: set_slice_def decode_slice_def json_strings_def decode_strings)

lemma cleaned_int [simp]: "cleaned (json_int n) = json_int n"
  and printable_int [simp]: "printable (json_int n)"
  and nesting_int [simp]: "nesting (json_int n) = 0"
  by (simp_all add: json_int_def number_literal_itoa)

definition all_valid :: "string list option \<Rightarrow> bool" where
  "all_valid xs = (case xs of None \<Rightarrow> True | Some ss \<Rightarrow> list_all valid_utf8 ss)"

lemma cleaned_strings:
  "all_valid xs \<Longrightarrow> cleaned (json_strings xs) = json_strings xs"
  by (cases xs) (auto simp: json_strings_def all_valid_def list_all_iff valid_utf8_def)

lemma printable_strings [simp]: "printable (json_strings xs)"
  by (cases xs) (auto simp: json_strings_def list_all_iff)

lemma nesting_strings: "nesting (json_strings xs) \<le> 1"
  by (cases xs) (auto simp: json_strings_def image_constant_conv)

section \<open>Predicates that every field keeps\<close>

definition keeps :: "('a \<Rightarrow> bool) \<Rightarrow> 'a setter \<Rightarrow> bool" where
  "keeps P set_it \<longleftrightarrow> (\<forall>v x. P x \<longrightarrow> P (fst (set_it v x)))"

lemma find_field_mem: "find_field fields k = Some s \<Longrightarrow> s \<in> snd ` set fields"
proof -
  assume "find_field fields k = Some s"
  then consider "(k, s) \<in> set fields" | "(fold_name k, s) \<in> set (map (\<lambda>(n, f). (fold_name n, f)) fields)"
    by (auto simp: find_field_def dest!: map_of_SomeD split: option.splits)
  then show ?thesis by cases force+
qed

lemma keeps_members:
  assumes "\<forall>s \<in> snd ` set fields. keeps P s" "P (fst x)"
  shows "P (fst (decode_members fields ms x))"
  using assms(2)
proof (induction ms arbitrary: x)
  case (Cons m ms)
  obtain k v where m: "m = (k, v)" by fastforce
  obtain y e where x: "x = (y, e)" by fastforce
  show ?case
  proof (cases "find_field fields k")
    case (Some s)
    then have "P (fst (s v y))" using assms(1) Cons.prems find_field_mem [OF Some] x by (auto simp: keeps_def)
    then show ?thesis using Cons.IH Some by (simp add: m x Let_def split_beta)
  qed (use Cons m x in simp)
qed (metis decode_members.simps(1) surj_pair)

lemma keeps_struct:
  assumes "\<forall>s \<in> snd ` set fields. keeps P s" shows "keeps P (decode_struct fields)"
  using keeps_members [OF assms] by (auto simp: keeps_def decode_struct_def split: json.split)

lemma keeps_string: "(\<And>s x. P x \<Longrightarrow> P (upd s x)) \<Longrightarrow> keeps P (set_string upd)"
  by (auto simp: keeps_def set_string_def split: json.split)

lemma keeps_bool: "(\<And>s x. P x \<Longrightarrow> P (upd s x)) \<Longrightarrow> keeps P (set_bool upd)"
  by (auto simp: keeps_def set_bool_def split: json.split)

lemma keeps_int: "(\<And>n x. is_int64 n \<Longrightarrow> P x \<Longrightarrow> P (upd n x)) \<Longrightarrow> keeps P (set_int upd)"
  by (auto simp: keeps_def set_int_def Atoi_def Let_def split: json.split option.splits if_splits)

lemma f64_FinD: "f64 y = Fin q \<Longrightarrow> rnd q = q"
  by (auto simp: f64_def Let_def split: if_splits)

lemma keeps_float: "(\<And>q x. rnd q = q \<Longrightarrow> P x \<Longrightarrow> P (upd (Fin q) x)) \<Longrightarrow> keeps P (set_float upd)"
  by (auto simp: keeps_def set_float_def dest: f64_FinD split: json.split float64.split)

lemmas keeps_setters = keeps_string keeps_bool keeps_int keeps_float

end
