(* ===== verification/Tenant_Store.thy ===== *)
theory Tenant_Store
  imports Json_Struct Go_Time
begin

text \<open>
  \<open>internal/db/db.go\<close>: the tenant record, its JSON form, and the four queries of the
  repository against the \<open>tenants\<close> table of \<open>scripts/postgres-init.sql\<close>.

  The table is a list of rows; an SQL statement acts on it as its text says: the unique hash,
  the 32-bit integer columns, the order by creation time. The server and the network are
  parameters: a statement may be lost before it takes effect or its answer may be lost after.
\<close>

section \<open>The tenant\<close>

record Tenant =
  ID :: string
  TenantName :: string
  APIKeyHash :: string
  RateLimitRPM :: int
  BudgetCents :: int
  SpentCents :: int
  ProviderAllowlist :: "string list option"
  IsActive :: bool

definition zero_tenant :: Tenant where
  "zero_tenant = \<lparr>ID = [], TenantName = [], APIKeyHash = [], RateLimitRPM = 0, BudgetCents = 0,
     SpentCents = 0, ProviderAllowlist = None, IsActive = False\<rparr>"

definition tenant_fields :: "(bytes \<times> Tenant setter) list" where
  "tenant_fields =
     [(''id'', set_string (\<lambda>s t. t\<lparr>ID := s\<rparr>)),
      (''name'', set_string (\<lambda>s t. t\<lparr>TenantName := s\<rparr>)),
      (''api_key_hash'', set_string (\<lambda>s t. t\<lparr>APIKeyHash := s\<rparr>)),
      (''rate_limit_rpm'', set_int (\<lambda>n t. t\<lparr>RateLimitRPM := n\<rparr>)),
      (''budget_cents'', set_int (\<lambda>n t. t\<lparr>BudgetCents := n\<rparr>)),
      (''spent_cents'', set_int (\<lambda>n t. t\<lparr>SpentCents := n\<rparr>)),
      (''provider_allowlist'', set_slice ProviderAllowlist (\<lambda>l t. t\<lparr>ProviderAllowlist := l\<rparr>) string_setter []),
      (''is_active'', set_bool (\<lambda>b t. t\<lparr>IsActive := b\<rparr>))]"

definition tenant_json :: "Tenant \<Rightarrow> json" where
  "tenant_json t = JObj
     [(''id'', JStr (ID t)), (''name'', JStr (TenantName t)), (''api_key_hash'', JStr (APIKeyHash t)),
      (''rate_limit_rpm'', json_int (RateLimitRPM t)), (''budget_cents'', json_int (BudgetCents t)),
      (''spent_cents'', json_int (SpentCents t)), (''provider_allowlist'', json_strings (ProviderAllowlist t)),
      (''is_active'', JBool (IsActive t))]"

text \<open>\<open>json.Marshal\<close> of a pointer to a tenant.\<close>

definition marshal_tenant :: "Tenant \<Rightarrow> bytes" where
  "marshal_tenant t = encode (tenant_json t)"

definition unmarshal_tenant :: "bytes \<Rightarrow> Tenant option \<times> json_error option" where
  "unmarshal_tenant s = UnmarshalPtr tenant_fields zero_tenant s"

section \<open>The table\<close>

record row =
  row_tenant :: Tenant
  row_created_at :: instant

type_synonym tenants_table = "row list"

datatype pg_fault = Delivered | LostBefore string | LostAfter string

definition int4 :: "int \<Rightarrow> bool" where
  "int4 n \<longleftrightarrow> - (2 ^ 31) \<le> n \<and> n < 2 ^ 31"

text \<open>A statement that returns its answer and the new table, or fails and leaves it.\<close>

definition deliver :: "pg_fault \<Rightarrow> tenants_table \<Rightarrow> 'a go_result \<times> tenants_table \<Rightarrow> 'a go_result \<times> tenants_table" where
  "deliver f before res =
     (case f of
        Delivered \<Rightarrow> res
      | LostBefore e \<Rightarrow> (Inl (GoError e), before)
      | LostAfter e \<Rightarrow> (Inl (GoError e), snd res))"

section \<open>The operations\<close>

text \<open>
  \<open>canon\<close> reads the text of a UUID: its canonical form, or nothing when it is not one.
\<close>

definition spend_row :: "int \<Rightarrow> row \<Rightarrow> row" where
  "spend_row cents r = r\<lparr>row_tenant := (row_tenant r)\<lparr>SpentCents := SpentCents (row_tenant r) + cents\<rparr>\<rparr>"

definition update_spend :: "(string \<Rightarrow> string option) \<Rightarrow> string \<Rightarrow> int \<Rightarrow> tenants_table \<Rightarrow> unit go_result \<times> tenants_table" where
  "update_spend canon tenantID cents tbl =
     (case canon tenantID of
        None \<Rightarrow> (Inl (GoError ''invalid input syntax for type uuid''), tbl)
      | Some u \<Rightarrow>
          if \<not> int4 cents then (Inl (GoError ''unable to encode into int4''), tbl)
          else if \<exists>r \<in> set tbl. ID (row_tenant r) = u \<and> \<not> int4 (SpentCents (row_tenant r) + cents)
          then (Inl (GoError ''integer out of range''), tbl)
          else (Inr (), map (\<lambda>r. if ID (row_tenant r) = u then spend_row cents r else r) tbl))"

definition UpdateTenantSpend ::
  "(string \<Rightarrow> string option) \<Rightarrow> pg_fault \<Rightarrow> string \<Rightarrow> int \<Rightarrow> tenants_table \<Rightarrow> go_error option \<times> tenants_table" where
  "UpdateTenantSpend canon f tenantID cents tbl =
     (case deliver f tbl (update_spend canon tenantID cents tbl) of
        (Inl e, tbl') \<Rightarrow> (Some e, tbl')
      | (Inr _, tbl') \<Rightarrow> (None, tbl'))"

definition no_rows :: go_error where "no_rows = GoError ''no rows in result set''"

definition GetTenantByAPIKeyHash :: "pg_fault \<Rightarrow> string \<Rightarrow> tenants_table \<Rightarrow> Tenant go_result \<times> tenants_table" where
  "GetTenantByAPIKeyHash f hash tbl =
     deliver f tbl
       (case find (\<lambda>r. APIKeyHash (row_tenant r) = hash) tbl of
          None \<Rightarrow> (Inl no_rows, tbl)
        | Some r \<Rightarrow> (Inr (row_tenant r), tbl))"

text \<open>
  The rows come newest first. \<open>rows.Next\<close> says no more both at the end and when the
  connection breaks: \<open>broken = Some n\<close> is a break after \<open>n\<close> rows, which the loop does
  not tell apart.
\<close>

definition newest_first :: "tenants_table \<Rightarrow> tenants_table" where
  "newest_first tbl = rev (sort_key row_created_at tbl)"

definition GetAllTenants :: "pg_fault \<Rightarrow> nat option \<Rightarrow> tenants_table \<Rightarrow> Tenant list go_result \<times> tenants_table" where
  "GetAllTenants f broken tbl =
     deliver f tbl
       (let rows = newest_first tbl;
            seen = (case broken of None \<Rightarrow> rows | Some n \<Rightarrow> take n rows)
        in (Inr (map row_tenant seen), tbl))"

text \<open>\<open>new_id\<close> and \<open>now\<close> are the defaults of the columns.\<close>

definition CreateTenant ::
  "pg_fault \<Rightarrow> string \<Rightarrow> instant \<Rightarrow> string \<Rightarrow> string \<Rightarrow> int \<Rightarrow> int \<Rightarrow> string list option \<Rightarrow> tenants_table
    \<Rightarrow> Tenant go_result \<times> tenants_table" where
  "CreateTenant f new_id now name keyHash rpm budget allowlist tbl =
     deliver f tbl
       (if \<not> int4 rpm \<or> \<not> int4 budget then (Inl (GoError ''unable to encode into int4''), tbl)
        else if \<exists>r \<in> set tbl. APIKeyHash (row_tenant r) = keyHash then
          (Inl (GoError ''duplicate key value violates unique constraint''), tbl)
        else
          let t = \<lparr>ID = new_id, TenantName = name, APIKeyHash = keyHash, RateLimitRPM = rpm, BudgetCents = budget,
                   SpentCents = 0, ProviderAllowlist = allowlist, IsActive = True\<rparr>
          in (Inr t, tbl @ [\<lparr>row_tenant = t, row_created_at = now\<rparr>]))"

section \<open>The table's invariant\<close>

definition table_wf :: "(string \<Rightarrow> string option) \<Rightarrow> tenants_table \<Rightarrow> bool" where
  "table_wf canon tbl \<longleftrightarrow>
     distinct (map (ID \<circ> row_tenant) tbl) \<and>
     distinct (map (APIKeyHash \<circ> row_tenant) tbl) \<and>
     (\<forall>r \<in> set tbl. canon (ID (row_tenant r)) = Some (ID (row_tenant r))) \<and>
     (\<forall>r \<in> set tbl. int4 (SpentCents (row_tenant r)) \<and> int4 (RateLimitRPM (row_tenant r)) \<and> int4 (BudgetCents (row_tenant r)))"

definition spent :: "tenants_table \<Rightarrow> string \<Rightarrow> int option" where
  "spent tbl u = map_option (SpentCents \<circ> row_tenant) (find (\<lambda>r. ID (row_tenant r) = u) tbl)"

lemma spend_row_same [simp]:
  "ID (row_tenant (spend_row c r)) = ID (row_tenant r)"
  "APIKeyHash (row_tenant (spend_row c r)) = APIKeyHash (row_tenant r)"
  "RateLimitRPM (row_tenant (spend_row c r)) = RateLimitRPM (row_tenant r)"
  "BudgetCents (row_tenant (spend_row c r)) = BudgetCents (row_tenant r)"
  "SpentCents (row_tenant (spend_row c r)) = SpentCents (row_tenant r) + c"
  by (simp_all add: spend_row_def)

definition spend_rows :: "string \<Rightarrow> int \<Rightarrow> tenants_table \<Rightarrow> tenants_table" where
  "spend_rows u c tbl = map (\<lambda>r. if ID (row_tenant r) = u then spend_row c r else r) tbl"

lemma spend_rows_columns:
  "map (ID \<circ> row_tenant) (spend_rows u c tbl) = map (ID \<circ> row_tenant) tbl"
  "map (APIKeyHash \<circ> row_tenant) (spend_rows u c tbl) = map (APIKeyHash \<circ> row_tenant) tbl"
  by (induction tbl) (auto simp: spend_rows_def)

lemma spent_spend_rows:
  "spent (spend_rows u c tbl) v = (if v = u then map_option (\<lambda>s. s + c) (spent tbl v) else spent tbl v)"
  by (induction tbl) (auto simp: spend_rows_def spent_def)

lemma spend_rows_wf:
  assumes "table_wf canon tbl" "\<forall>r \<in> set tbl. ID (row_tenant r) = u \<longrightarrow> int4 (SpentCents (row_tenant r) + c)"
  shows "table_wf canon (spend_rows u c tbl)"
proof -
  have "canon (ID (row_tenant r)) = Some (ID (row_tenant r)) \<and> int4 (SpentCents (row_tenant r))
      \<and> int4 (RateLimitRPM (row_tenant r)) \<and> int4 (BudgetCents (row_tenant r))"
    if r: "r \<in> set (spend_rows u c tbl)" for r
  proof -
    obtain r0 where r0: "r0 \<in> set tbl" "r = (if ID (row_tenant r0) = u then spend_row c r0 else r0)"
      using r unfolding spend_rows_def set_map by blast
    with assms show ?thesis by (auto simp: table_wf_def)
  qed
  then show ?thesis using assms(1) by (simp add: table_wf_def spend_rows_columns)
qed

lemma update_spend_cases:
  "(\<exists>e. update_spend canon t c tbl = (Inl e, tbl)) \<or>
   (\<exists>u. canon t = Some u \<and> int4 c \<and>
      (\<forall>r \<in> set tbl. ID (row_tenant r) = u \<longrightarrow> int4 (SpentCents (row_tenant r) + c)) \<and>
      update_spend canon t c tbl = (Inr (), spend_rows u c tbl))"
  by (auto simp: update_spend_def spend_rows_def split: option.split)

text \<open>A tenant survives the cache: its JSON form reads back as the same tenant.\<close>

definition tenant_valid :: "Tenant \<Rightarrow> bool" where
  "tenant_valid t \<longleftrightarrow> valid_utf8 (ID t) \<and> valid_utf8 (TenantName t) \<and> valid_utf8 (APIKeyHash t)
     \<and> all_valid (ProviderAllowlist t) \<and> is_int64 (RateLimitRPM t) \<and> is_int64 (BudgetCents t) \<and> is_int64 (SpentCents t)"

lemma ascii_literal [simp]:
  "sanitize ''id'' = ''id''" "sanitize ''name'' = ''name''" "sanitize ''api_key_hash'' = ''api_key_hash''"
  "sanitize ''rate_limit_rpm'' = ''rate_limit_rpm''" "sanitize ''budget_cents'' = ''budget_cents''"
  "sanitize ''spent_cents'' = ''spent_cents''" "sanitize ''provider_allowlist'' = ''provider_allowlist''"
  "sanitize ''is_active'' = ''is_active''"
  by (simp_all add: sanitize_ascii byte_def)

lemma decode_tenant:
  assumes "is_int64 (RateLimitRPM t)" "is_int64 (BudgetCents t)" "is_int64 (SpentCents t)"
  shows "decode_struct tenant_fields (tenant_json t) t0 = (t, None)"
  using assms by (simp add: decode_struct_def tenant_json_def find_field_def tenant_fields_def)

lemma unmarshal_marshal_tenant:
  assumes "tenant_valid t"
  shows "unmarshal_tenant (marshal_tenant t) = (Some t, None)"
proof -
  have "nesting (tenant_json t) \<le> 2"
    using nesting_strings [of "ProviderAllowlist t"] by (simp add: tenant_json_def)
  then have n: "nesting (tenant_json t) \<le> max_depth" by (simp add: max_depth_def)
  have p: "printable (tenant_json t)" by (simp add: tenant_json_def)
  have c: "cleaned (tenant_json t) = tenant_json t"
    using assms by (simp add: tenant_json_def tenant_valid_def valid_utf8_def cleaned_strings)
  have "unmarshal_value (marshal_tenant t) = Some (tenant_json t)"
    unfolding marshal_tenant_def unmarshal_encode [OF p n] c ..
  moreover have "tenant_json t \<noteq> JNull" by (simp add: tenant_json_def)
  ultimately show ?thesis
    using assms decode_tenant [of t zero_tenant]
    by (auto simp: unmarshal_tenant_def UnmarshalPtr_def tenant_valid_def split: json.split)
qed

end
