(* ===== verification/Log_Event.thy ===== *)
theory Log_Event
  imports Json_Struct
begin

text \<open>
  \<open>internal/logging/logging.go\<close>: the log record of a request, how it is read from the
  topic, and the logger interface.
\<close>

record LogEvent =
  RequestID :: string
  TenantID :: string
  LogProvider :: string
  LogModel :: string
  LogPromptTokens :: int
  LogCompletionTokens :: int
  CostCents :: float64
  LatencyMs :: int
  Status :: int
  Cached :: bool
  Timestamp :: int

definition zero_event :: LogEvent where
  "zero_event = \<lparr>RequestID = [], TenantID = [], LogProvider = [], LogModel = [], LogPromptTokens = 0,
     LogCompletionTokens = 0, CostCents = 0, LatencyMs = 0, Status = 0, Cached = False, Timestamp = 0\<rparr>"

definition event_fields :: "(bytes \<times> LogEvent setter) list" where
  "event_fields =
     [(''request_id'', set_string (\<lambda>s e. e\<lparr>RequestID := s\<rparr>)),
      (''tenant_id'', set_string (\<lambda>s e. e\<lparr>TenantID := s\<rparr>)),
      (''provider'', set_string (\<lambda>s e. e\<lparr>LogProvider := s\<rparr>)),
      (''model'', set_string (\<lambda>s e. e\<lparr>LogModel := s\<rparr>)),
      (''prompt_tokens'', set_int (\<lambda>n e. e\<lparr>LogPromptTokens := n\<rparr>)),
      (''completion_tokens'', set_int (\<lambda>n e. e\<lparr>LogCompletionTokens := n\<rparr>)),
      (''cost_cents'', set_float (\<lambda>x e. e\<lparr>CostCents := x\<rparr>)),
      (''latency_ms'', set_int (\<lambda>n e. e\<lparr>LatencyMs := n\<rparr>)),
      (''status'', set_int (\<lambda>n e. e\<lparr>Status := n\<rparr>)),
      (''cached'', set_bool (\<lambda>b e. e\<lparr>Cached := b\<rparr>)),
      (''timestamp'', set_int (\<lambda>n e. e\<lparr>Timestamp := n\<rparr>))]"

text \<open>A message that does not decode without error yields no event.\<close>

definition unmarshal_event :: "bytes \<Rightarrow> LogEvent option" where
  "unmarshal_event s =
     (case Unmarshal event_fields s zero_event of (e, None) \<Rightarrow> Some e | (e, Some err) \<Rightarrow> None)"

text \<open>What the decoder puts into a cost field is a finite binary64 value.\<close>

definition finite_cost :: "LogEvent \<Rightarrow> bool" where
  "finite_cost e \<longleftrightarrow> (\<exists>q. CostCents e = Fin q \<and> rnd q = q)"

lemma event_setters_finite: "\<forall>s \<in> snd ` set event_fields. keeps finite_cost s"
  by (auto simp: event_fields_def finite_cost_def intro!: keeps_setters)

lemma unmarshal_event_finite:
  assumes "unmarshal_event s = Some e" shows "finite_cost e"
proof -
  obtain v where v: "decode_struct event_fields v zero_event = (e, None)"
    using assms by (auto simp: unmarshal_event_def Unmarshal_def split: option.splits prod.splits)
  have "finite_cost zero_event" by (simp add: finite_cost_def zero_event_def zero_float64_def)
  then have "finite_cost (fst (decode_struct event_fields v zero_event))"
    using keeps_struct [OF event_setters_finite] by (simp add: keeps_def)
  with v show ?thesis by simp
qed

end
