(* ===== verification/Budget_Processor.thy ===== *)
theory Budget_Processor
  imports Tenant_Store Log_Event
begin

text \<open>
  \<open>internal/db/processor.go\<close>: the worker that reads log records from the topic, sums their
  cost per tenant in binary64, and at every tick, when a thousand tenants are pending and at
  shutdown adds the sums, as whole cents, to the tenants' spending.

  \<open>upd\<close> is \<open>UpdateTenantSpend\<close> of the repository, under a fault. The order in which a
  flush ranges over the map, with the fault each update meets, is an argument.
\<close>

section \<open>State\<close>

record BudgetProcessor =
  pending :: "string \<rightharpoonup> float64"
  flushInterval :: duration
  batchSize :: nat
  running :: bool

definition NewBudgetProcessor :: BudgetProcessor where
  "NewBudgetProcessor = \<lparr>pending = Map.empty, flushInterval = 1 * Second, batchSize = 1000, running = True\<rparr>"

type_synonym ('f, 'd) updater = "'f \<Rightarrow> string \<Rightarrow> int \<Rightarrow> 'd \<Rightarrow> go_error option \<times> 'd"

type_synonym 'f flush_order = "(string \<times> 'f) list"

section \<open>Operations\<close>

text \<open>A failed update is reported on the console and not repeated.\<close>

fun apply_updates :: "('f, 'd) updater \<Rightarrow> 'f flush_order \<Rightarrow> (string \<rightharpoonup> float64) \<Rightarrow> 'd \<Rightarrow> 'd" where
  "apply_updates upd [] updates d = d"
| "apply_updates upd ((tenantID, f) # rest) updates d =
     apply_updates upd rest updates (snd (upd f tenantID (int_of_float64 (value_or 0 (updates tenantID))) d))"

definition flush :: "('f, 'd) updater \<Rightarrow> 'f flush_order \<Rightarrow> BudgetProcessor \<times> 'd \<Rightarrow> BudgetProcessor \<times> 'd" where
  "flush upd order s =
     (case s of (p, d) \<Rightarrow>
        if card (dom (pending p)) = 0 then (p, d)
        else (p\<lparr>pending := Map.empty\<rparr>, apply_updates upd order (pending p) d))"

definition add_event :: "LogEvent \<Rightarrow> BudgetProcessor \<Rightarrow> BudgetProcessor" where
  "add_event e p =
     p\<lparr>pending := (pending p)(TenantID e \<mapsto> value_or 0 (pending p (TenantID e)) + CostCents e)\<rparr>"

definition should_flush :: "BudgetProcessor \<Rightarrow> bool" where
  "should_flush p \<longleftrightarrow> batchSize p \<le> card (dom (pending p))"

section \<open>The loop\<close>

text \<open>What one turn of the loop sees: the context's end, a tick, or the outcome of a read.\<close>

datatype loop_event = Cancelled | Ticked | ReadFailed | Received bytes

definition order_for :: "'f set \<Rightarrow> 'f flush_order \<Rightarrow> BudgetProcessor \<Rightarrow> bool" where
  "order_for F order p \<longleftrightarrow> enumerates (map fst order) (pending p) \<and> snd ` set order \<subseteq> F"

inductive processor_step ::
  "('f, 'd) updater \<Rightarrow> 'f set \<Rightarrow> loop_event \<Rightarrow> BudgetProcessor \<times> 'd \<Rightarrow> BudgetProcessor \<times> 'd \<Rightarrow> bool"
  for upd F where
  cancelled: "running p \<Longrightarrow> order_for F order p \<Longrightarrow> flush upd order (p, d) = (p', d') \<Longrightarrow>
     processor_step upd F Cancelled (p, d) (p'\<lparr>running := False\<rparr>, d')"
| ticked: "running p \<Longrightarrow> order_for F order p \<Longrightarrow>
     processor_step upd F Ticked (p, d) (flush upd order (p, d))"
| read_failed: "running p \<Longrightarrow> processor_step upd F ReadFailed (p, d) (p, d)"
| undecodable: "running p \<Longrightarrow> unmarshal_event m = None \<Longrightarrow>
     processor_step upd F (Received m) (p, d) (p, d)"
| added: "running p \<Longrightarrow> unmarshal_event m = Some e \<Longrightarrow> \<not> should_flush (add_event e p) \<Longrightarrow>
     processor_step upd F (Received m) (p, d) (add_event e p, d)"
| added_and_flushed: "running p \<Longrightarrow> unmarshal_event m = Some e \<Longrightarrow> should_flush (add_event e p) \<Longrightarrow>
     order_for F order (add_event e p) \<Longrightarrow>
     processor_step upd F (Received m) (p, d) (flush upd order (add_event e p, d))"

inductive_cases step_cancelled: "processor_step upd F Cancelled s s'"
inductive_cases step_ticked: "processor_step upd F Ticked s s'"
inductive_cases step_received: "processor_step upd F (Received m) s s'"
inductive_simps step_read_failed [simp]: "processor_step upd F ReadFailed s s'"

inductive processor_run ::
  "('f, 'd) updater \<Rightarrow> 'f set \<Rightarrow> BudgetProcessor \<times> 'd \<Rightarrow> loop_event list \<Rightarrow> BudgetProcessor \<times> 'd \<Rightarrow> bool"
  for upd F s0 where
  start: "processor_run upd F s0 [] s0"
| turn: "processor_run upd F s0 es s \<Longrightarrow> processor_step upd F e s s' \<Longrightarrow> processor_run upd F s0 (es @ [e]) s'"

inductive_simps processor_run_Nil [simp]: "processor_run upd F s0 [] s"

lemma processor_run_snoc:
  "processor_run upd F s0 (es @ [e]) s' \<longleftrightarrow> (\<exists>s. processor_run upd F s0 es s \<and> processor_step upd F e s s')"
  by (subst processor_run.simps) auto

section \<open>The repository the processor writes to\<close>

text \<open>
  The laws of the interface: an update touches the spending of the tenant it names and no
  other, adds the amount or, when it fails, nothing, and does not fail when it is delivered
  and the numbers fit.
\<close>

locale spend_repository =
  fixes upd :: "('f, 'd) updater"
    and spent_of :: "'d \<Rightarrow> string \<Rightarrow> int option"
    and inv :: "'d \<Rightarrow> bool"
    and canon :: "string \<Rightarrow> string option"
    and good :: 'f
  assumes inv_upd: "inv d \<Longrightarrow> inv (snd (upd f t c d))"
    and other: "inv d \<Longrightarrow> canon t \<noteq> Some u \<Longrightarrow> spent_of (snd (upd f t c d)) u = spent_of d u"
    and own: "inv d \<Longrightarrow> canon t = Some u \<Longrightarrow> spent_of d u = Some s \<Longrightarrow>
      spent_of (snd (upd f t c d)) u = Some s \<or> spent_of (snd (upd f t c d)) u = Some (s + c)"
    and effective: "inv d \<Longrightarrow> canon t = Some u \<Longrightarrow> spent_of d u = Some s \<Longrightarrow> int4 c \<Longrightarrow> int4 (s + c) \<Longrightarrow>
      spent_of (snd (upd good t c d)) u = Some (s + c)"
begin

text \<open>Names of a tenant are canonical where this holds: nothing else reads as its id.\<close>

definition only_name :: "string \<Rightarrow> string set \<Rightarrow> bool" where
  "only_name u ts \<longleftrightarrow> canon u = Some u \<and> (\<forall>t \<in> ts. canon t = Some u \<longrightarrow> t = u)"

lemma inv_apply: "inv d \<Longrightarrow> inv (apply_updates upd order m d)"
proof (induction order arbitrary: d)
  case (Cons x xs)
  then show ?case by (cases x) (simp add: inv_upd)
qed simp

lemma apply_other:
  "inv d \<Longrightarrow> only_name u (fst ` set order) \<Longrightarrow> u \<notin> fst ` set order \<Longrightarrow>
     spent_of (apply_updates upd order m d) u = spent_of d u"
proof (induction order arbitrary: d)
  case (Cons x xs)
  obtain t f where x: "x = (t, f)" by fastforce
  have "canon t \<noteq> Some u" using Cons.prems x by (auto simp: only_name_def)
  then show ?case using Cons inv_upd by (simp add: x other only_name_def)
qed simp

lemma apply_own:
  assumes "inv d" "only_name u (fst ` set order)" "distinct (map fst order)" "spent_of d u = Some s"
  shows "spent_of (apply_updates upd order m d) u \<in>
      {Some s, Some (s + (if u \<in> fst ` set order then int_of_float64 (value_or 0 (m u)) else 0))}"
  using assms
proof (induction order arbitrary: d)
  case (Cons x xs)
  obtain t f where x: "x = (t, f)" by fastforce
  let ?d = "snd (upd f t (int_of_float64 (value_or 0 (m t))) d)"
  have i: "inv ?d" using Cons.prems(1) by (rule inv_upd)
  show ?case
  proof (cases "t = u")
    case True
    then have "u \<notin> fst ` set xs" using Cons.prems(3) x by auto
    then have "spent_of (apply_updates upd xs m ?d) u = spent_of ?d u"
      using Cons.prems(2) i by (intro apply_other) (auto simp: only_name_def x)
    then show ?thesis
      using own [OF Cons.prems(1) _ Cons.prems(4), of t f] Cons.prems(2) True by (auto simp: x only_name_def)
  next
    case False
    then have "canon t \<noteq> Some u" using Cons.prems(2) x by (auto simp: only_name_def)
    then have "spent_of ?d u = Some s" using other [OF Cons.prems(1)] Cons.prems(4) by simp
    then show ?thesis using Cons.IH [OF i] Cons.prems False by (auto simp: x only_name_def)
  qed
qed simp

lemma apply_effective:
  assumes "inv d" "only_name u (fst ` set order)" "distinct (map fst order)" "spent_of d u = Some s"
    and "snd ` set order \<subseteq> {good}" "u \<in> fst ` set order"
    and "int4 (int_of_float64 (value_or 0 (m u)))" "int4 (s + int_of_float64 (value_or 0 (m u)))"
  shows "spent_of (apply_updates upd order m d) u = Some (s + int_of_float64 (value_or 0 (m u)))"
  using assms
proof (induction order arbitrary: d)
  case (Cons x xs)
  obtain t where x: "x = (t, good)" using Cons.prems(5) by (cases x) auto
  let ?d = "snd (upd good t (int_of_float64 (value_or 0 (m t))) d)"
  have i: "inv ?d" using Cons.prems(1) by (rule inv_upd)
  show ?case
  proof (cases "t = u")
    case True
    then have "u \<notin> fst ` set xs" using Cons.prems(3) x by auto
    then have "spent_of (apply_updates upd xs m ?d) u = spent_of ?d u"
      using Cons.prems(2) i by (intro apply_other) (auto simp: only_name_def x)
    then show ?thesis
      using effective [OF Cons.prems(1) _ Cons.prems(4)] Cons.prems True by (auto simp: x only_name_def)
  next
    case False
    then have "canon t \<noteq> Some u" using Cons.prems(2) x by (auto simp: only_name_def)
    then have "spent_of ?d u = Some s" using other [OF Cons.prems(1)] Cons.prems(4) by simp
    then show ?thesis using Cons.IH [OF i] Cons.prems False by (auto simp: x only_name_def)
  qed
qed simp

end

section \<open>PostgreSQL provides it\<close>

lemma spent_out_of_table:
  assumes "table_wf canon tbl" "spent tbl u = Some s"
  shows "\<exists>r \<in> set tbl. ID (row_tenant r) = u \<and> SpentCents (row_tenant r) = s"
proof -
  obtain r where r: "find (\<lambda>r. ID (row_tenant r) = u) tbl = Some r" "SpentCents (row_tenant r) = s"
    using assms(2) by (auto simp: spent_def)
  then have "r \<in> set tbl" "ID (row_tenant r) = u" by (auto simp: find_Some_iff)
  with r(2) show ?thesis by blast
qed

lemma table_unique:
  assumes "table_wf canon tbl" "r \<in> set tbl" "r' \<in> set tbl" "ID (row_tenant r) = ID (row_tenant r')"
  shows "r = r'"
  using assms by (auto simp: table_wf_def distinct_map inj_on_def)

lemma UpdateTenantSpend_cases:
  "snd (UpdateTenantSpend canon f t c tbl) = tbl \<or>
   (\<exists>u. canon t = Some u \<and> (\<forall>r \<in> set tbl. ID (row_tenant r) = u \<longrightarrow> int4 (SpentCents (row_tenant r) + c)) \<and>
      snd (UpdateTenantSpend canon f t c tbl) = spend_rows u c tbl)"
  using update_spend_cases [of canon t c tbl]
  by (auto simp: UpdateTenantSpend_def deliver_def split: pg_fault.split)

interpretation postgres: spend_repository "UpdateTenantSpend canon" spent "table_wf canon" canon Delivered
  for canon
proof
  fix tbl f t c u s
  assume wf: "table_wf canon tbl"
  note cases = UpdateTenantSpend_cases [of canon f t c tbl]
  show "table_wf canon (snd (UpdateTenantSpend canon f t c tbl))"
    using cases wf spend_rows_wf by metis
  show "canon t \<noteq> Some u \<Longrightarrow> spent (snd (UpdateTenantSpend canon f t c tbl)) u = spent tbl u"
    using cases by (auto simp: spent_spend_rows)
  assume t: "canon t = Some u" "spent tbl u = Some s"
  then show "spent (snd (UpdateTenantSpend canon f t c tbl)) u = Some s \<or>
      spent (snd (UpdateTenantSpend canon f t c tbl)) u = Some (s + c)"
    using cases by (auto simp: spent_spend_rows)
  assume "int4 c" "int4 (s + c)"
  moreover have "int4 (SpentCents (row_tenant r) + c)" if "r \<in> set tbl" "ID (row_tenant r) = u" for r
    using spent_out_of_table [OF wf t(2)] table_unique [OF wf that(1)] that(2) \<open>int4 (s + c)\<close> by metis
  ultimately have "update_spend canon t c tbl = (Inr (), spend_rows u c tbl)"
    using t(1) by (auto simp: update_spend_def spend_rows_def)
  then show "spent (snd (UpdateTenantSpend canon Delivered t c tbl)) u = Some (s + c)"
    using t by (simp add: UpdateTenantSpend_def deliver_def spent_spend_rows)
qed

end
