(* ===== verification/Budget_Correct.thy ===== *)
theory Budget_Correct
  imports Budget_Processor
begin

text \<open>
  The books of the budget processor: how the spending of a tenant in the repository and the
  sum still pending relate to the cost of the records read.
\<close>

section \<open>What a run has read\<close>

fun event_of :: "loop_event \<Rightarrow> LogEvent option" where
  "event_of (Received m) = unmarshal_event m"
| "event_of _ = None"

definition tenant_events :: "loop_event list \<Rightarrow> LogEvent list" where
  "tenant_events es = List.map_filter event_of es"

definition cost_rat :: "LogEvent \<Rightarrow> rat" where
  "cost_rat e = (case CostCents e of Fin q \<Rightarrow> q | _ \<Rightarrow> 0)"

definition cost_of :: "string \<Rightarrow> LogEvent \<Rightarrow> rat" where
  "cost_of u e = (if TenantID e = u then cost_rat e else 0)"

text \<open>The exact cost of everything read for a tenant.\<close>

definition total_cost :: "string \<Rightarrow> loop_event list \<Rightarrow> rat" where
  "total_cost u es = sum_list (map (cost_of u) (tenant_events es))"

definition named_tenants :: "loop_event list \<Rightarrow> string set" where
  "named_tenants es = TenantID ` set (tenant_events es)"

definition ticks :: "loop_event list \<Rightarrow> nat" where
  "ticks es = length (filter (\<lambda>e. e = Ticked \<or> e = Cancelled) es)"

definition costs_nonneg :: "loop_event list \<Rightarrow> bool" where
  "costs_nonneg es \<longleftrightarrow> (\<forall>e \<in> set (tenant_events es). 0 \<le> cost_rat e)"

lemma tenant_events_snoc [simp]:
  "tenant_events (es @ [e]) = tenant_events es @ (case event_of e of None \<Rightarrow> [] | Some x \<Rightarrow> [x])"
  by (simp add: tenant_events_def map_filter_def split: option.split)

lemma tenant_events_Nil [simp]: "tenant_events [] = []"
  by (simp add: tenant_events_def map_filter_def)

lemma total_cost_snoc:
  "total_cost u (es @ [e]) = total_cost u es + (case event_of e of None \<Rightarrow> 0 | Some x \<Rightarrow> cost_of u x)"
  by (simp add: total_cost_def split: option.split)

lemma ticks_snoc: "ticks (es @ [e]) = ticks es + (if e = Ticked \<or> e = Cancelled then 1 else 0)"
  by (simp add: ticks_def)

lemma costs_nonneg_snoc: "costs_nonneg (es @ [e]) \<Longrightarrow> costs_nonneg es"
  by (auto simp: costs_nonneg_def)

lemma cost_of_nonneg: "costs_nonneg (es @ [e]) \<Longrightarrow> event_of e = Some x \<Longrightarrow> 0 \<le> cost_of u x"
  by (auto simp: costs_nonneg_def cost_of_def)

lemma total_cost_mono: "costs_nonneg (es @ [e]) \<Longrightarrow> total_cost u es \<le> total_cost u (es @ [e])"
  using cost_of_nonneg [of es e] by (auto simp: total_cost_snoc split: option.split)

section \<open>The processor by itself\<close>

definition processor_wf :: "loop_event list \<Rightarrow> BudgetProcessor \<Rightarrow> bool" where
  "processor_wf es p \<longleftrightarrow> batchSize p = 1000 \<and> finite (dom (pending p)) \<and> card (dom (pending p)) < 1000
     \<and> dom (pending p) \<subseteq> named_tenants es"

lemma flush_result:
  assumes "finite (dom (pending p))" "order_for F order p"
  shows "flush upd order (p, d) = (p\<lparr>pending := Map.empty\<rparr>, apply_updates upd order (pending p) d)"
proof (cases "dom (pending p) = {}")
  case True
  then have e: "pending p = Map.empty" by simp
  then have "p\<lparr>pending := Map.empty\<rparr> = p" by (metis BudgetProcessor.surjective BudgetProcessor.update_convs(1))
  moreover have "order = []" using assms(2) e by (simp add: order_for_def enumerates_def)
  ultimately show ?thesis by (simp add: flush_def e)
next
  case False
  then show ?thesis using assms(1) by (simp add: flush_def card_eq_0_iff)
qed

lemma flush_wf: "processor_wf es p \<Longrightarrow> order_for F order p \<Longrightarrow> processor_wf es' (fst (flush upd order (p, d)))"
  by (simp add: flush_result processor_wf_def)

lemma dom_add_event: "dom (pending (add_event e p)) = insert (TenantID e) (dom (pending p))"
  by (auto simp: add_event_def)

lemma card_add_event:
  "finite (dom (pending p)) \<Longrightarrow> card (dom (pending (add_event e p))) \<le> Suc (card (dom (pending p)))"
  by (simp add: dom_add_event card_insert_le_m1 card_insert_if)

lemma batchSize_add [simp]: "batchSize (add_event e p) = batchSize p"
  by (simp add: add_event_def)

lemma named_add: "dom (pending p) \<subseteq> named_tenants es \<Longrightarrow> event_of ev = Some e \<Longrightarrow>
    dom (pending (add_event e p)) \<subseteq> named_tenants (es @ [ev])"
  by (auto simp: dom_add_event named_tenants_def)

lemma named_mono: "named_tenants es \<subseteq> named_tenants (es @ [e])"
  by (auto simp: named_tenants_def)

lemma processor_step_wf:
  assumes "processor_step upd F e (p, d) (p', d')" "processor_wf es p"
  shows "processor_wf (es @ [e]) p'"
  using assms(1)
proof cases
  case (cancelled order p1)
  then have "processor_wf (es @ [e]) p1" using flush_wf [OF assms(2) cancelled(4)] by (metis fst_conv)
  then show ?thesis by (simp add: cancelled processor_wf_def)
next
  case (ticked order)
  then show ?thesis using flush_wf [OF assms(2) ticked(4)] by (metis fst_conv)
next
  case (added m x)
  then show ?thesis
    using assms(2) named_add [of p es e x] by (auto simp: processor_wf_def should_flush_def dom_add_event)
next
  case (added_and_flushed m x order)
  have "finite (dom (pending (add_event x p)))" using assms(2) by (simp add: processor_wf_def dom_add_event)
  with added_and_flushed assms(2) show ?thesis
    by (simp add: flush_result [of _ F] processor_wf_def)
qed (use assms(2) named_mono [of es e] in \<open>auto simp: processor_wf_def\<close>)

lemma processor_run_wf:
  "processor_run upd F (NewBudgetProcessor, d0) es (p, d) \<Longrightarrow> processor_wf es p"
proof (induction es arbitrary: p d rule: rev_induct)
  case Nil
  then show ?case by (simp add: processor_wf_def NewBudgetProcessor_def)
next
  case (snoc e es)
  then show ?case using processor_step_wf by (fastforce simp: processor_run_snoc)
qed

section \<open>The books\<close>

text \<open>
  The rounding error allowed per turn: 2 to the -22 of a cent, for sums below 2 to the 31.
\<close>

definition turn_slack :: rat where "turn_slack = 1 / 2 ^ 22"

definition pending_sum :: "BudgetProcessor \<Rightarrow> string \<Rightarrow> float64" where
  "pending_sum p u = value_or 0 (pending p u)"

lemma add_float:
  assumes "0 \<le> x" "0 \<le> c" "x + c \<le> 2 ^ 30"
  shows "\<exists>y. Fin x + Fin c = Fin y \<and> 0 \<le> y \<and> \<bar>y - (x + c)\<bar> \<le> turn_slack"
proof -
  have b: "\<bar>x + c\<bar> \<le> 2 ^ 30" using assms by simp
  then have "\<bar>rnd (x + c) - (x + c)\<bar> \<le> 2 ^ 31 * unit_roundoff"
    by (rule rnd_within_scaled) simp
  also have "\<dots> = turn_slack" by (simp add: turn_slack_def unit_roundoff_def)
  finally have e: "\<bar>rnd (x + c) - (x + c)\<bar> \<le> turn_slack" .
  have "Fin x + Fin c = Fin (rnd (x + c))" using b by (simp add: f64_Fin)
  moreover have "0 \<le> rnd (x + c)" using assms by (simp add: rnd_nonneg)
  ultimately show ?thesis using e by blast
qed

lemma truncate_float:
  assumes "0 \<le> x" "x \<le> 2 ^ 31"
  shows "int_of_float64 (Fin x) = \<lfloor>x\<rfloor>"
proof -
  have "0 \<le> \<lfloor>x\<rfloor>" using assms(1) by simp
  moreover have "\<lfloor>x\<rfloor> \<le> 2 ^ 31" using assms(2) by (metis floor_mono floor_numeral_power)
  ultimately have "is_int64 \<lfloor>x\<rfloor>" by (simp add: is_int64_def)
  then show ?thesis using assms(1) by (simp add: int_of_float64_def trunc_rat_def)
qed

text \<open>
  The books of tenant \<open>u\<close> after \<open>n\<close> turns that read a total of \<open>S\<close> cents, when its
  spending was \<open>s0\<close>: what is recorded and what is pending never exceed what was read.
\<close>

definition books :: "int \<Rightarrow> rat \<Rightarrow> nat \<Rightarrow> int \<Rightarrow> rat \<Rightarrow> bool" where
  "books s0 S n s x \<longleftrightarrow> 0 \<le> x \<and> s0 \<le> s \<and> of_int (s - s0) + x \<le> S + of_nat n * turn_slack"

lemma slack_total: "n \<le> 2 ^ 50 \<Longrightarrow> of_nat n * turn_slack \<le> 2 ^ 28"
proof -
  assume "n \<le> 2 ^ 50"
  then have "(of_nat n :: rat) \<le> of_nat (2 ^ 50)" by (simp only: of_nat_le_iff)
  then have "of_nat n * turn_slack \<le> 2 ^ 50 * turn_slack"
    by (intro mult_right_mono) (auto simp: turn_slack_def)
  also have "\<dots> = 2 ^ 28" by (simp add: turn_slack_def)
  finally show ?thesis .
qed

lemma books_bound:
  assumes "books s0 S n s x" "S \<le> 2 ^ 29" "n \<le> 2 ^ 50"
  shows "of_int (s - s0) + x \<le> 2 ^ 29 + 2 ^ 28" "0 \<le> x" "x \<le> 2 ^ 29 + 2 ^ 28"
proof -
  show a: "of_int (s - s0) + x \<le> 2 ^ 29 + 2 ^ 28" and "0 \<le> x"
    using slack_total [OF assms(3)] assms(1,2) unfolding books_def by linarith+
  have "(0 :: rat) \<le> of_int (s - s0)" using assms(1) by (simp add: books_def)
  with a show "x \<le> 2 ^ 29 + 2 ^ 28" by linarith
qed

lemma books_turn: "books s0 S n s x \<Longrightarrow> books s0 S (Suc n) s x"
  unfolding books_def turn_slack_def by (simp add: add_divide_distrib)

lemma books_add:
  assumes "books s0 S n s x" "0 \<le> c" "S + c \<le> 2 ^ 29" "n \<le> 2 ^ 50"
  shows "\<exists>y. Fin x + Fin c = Fin y \<and> books s0 (S + c) (Suc n) s y \<and> x + c \<le> y + turn_slack"
proof -
  have i: "(0 :: rat) \<le> of_int (s - s0)" using assms(1) by (simp add: books_def)
  moreover have "(2 :: rat) ^ 29 + 2 ^ 28 \<le> 2 ^ 30" by simp
  ultimately have "x + c \<le> 2 ^ 30" using slack_total [OF assms(4)] assms(1,3) unfolding books_def by linarith
  then obtain y where y: "Fin x + Fin c = Fin y" "0 \<le> y" "\<bar>y - (x + c)\<bar> \<le> turn_slack"
    using add_float [of x c] assms(1,2) by (auto simp: books_def simp del: plus_float64.simps)
  have "of_nat (Suc n) * turn_slack = of_nat n * turn_slack + turn_slack" by (simp add: distrib_right)
  then have "books s0 (S + c) (Suc n) s y"
    using y assms(1) unfolding books_def abs_le_iff by (intro conjI) linarith+
  moreover have "x + c \<le> y + turn_slack" using y(3) unfolding abs_le_iff by linarith
  ultimately show ?thesis using y(1) by blast
qed

text \<open>A flush moves the whole cents of the pending sum, or, when the update is lost, nothing.\<close>

lemma books_flush:
  assumes "books s0 S n s x" "s' \<in> {s, s + \<lfloor>x\<rfloor>}"
  shows "books s0 S n s' 0"
proof -
  have "0 \<le> x" using assms(1) by (simp add: books_def)
  then have "0 \<le> \<lfloor>x\<rfloor>" "(of_int \<lfloor>x\<rfloor> :: rat) \<le> x" by simp_all
  then have "s \<le> s' \<and> (of_int (s' - s0) :: rat) \<le> of_int (s - s0) + x" using assms(2) \<open>0 \<le> x\<close> by auto
  then show ?thesis using assms(1) by (auto simp: books_def)
qed

text \<open>
  What is owed: the part of the total that is neither recorded nor pending, at most one cent
  for every flush. \<open>b\<close> counts the flushes of full batches, each of a thousand tenants.
\<close>

definition owed :: "int \<Rightarrow> rat \<Rightarrow> nat \<Rightarrow> nat \<Rightarrow> int \<Rightarrow> rat \<Rightarrow> bool" where
  "owed s0 S n k s x \<longleftrightarrow> S \<le> of_int (s - s0) + x + of_nat n * turn_slack + of_nat k"

lemma owed_turn: "owed s0 S n k s x \<Longrightarrow> owed s0 S (Suc n) k s x"
  unfolding owed_def turn_slack_def by (simp add: add_divide_distrib)

lemma owed_add: "owed s0 S n k s x \<Longrightarrow> x + c \<le> y + turn_slack \<Longrightarrow> owed s0 (S + c) (Suc n) k s y"
  unfolding owed_def by (simp add: distrib_right)

lemma owed_flush: "owed s0 S n k s x \<Longrightarrow> owed s0 S n (Suc k) (s + \<lfloor>x\<rfloor>) 0"
  using floor_correct [of x] by (auto simp: owed_def)

lemma pending_sum_add:
  assumes "unmarshal_event m = Some e"
  shows "pending_sum (add_event e p) u =
    (if TenantID e = u then pending_sum p u + Fin (cost_rat e) else pending_sum p u)"
proof -
  have "CostCents e = Fin (cost_rat e)"
    using unmarshal_event_finite [OF assms] by (auto simp: finite_cost_def cost_rat_def)
  then show ?thesis by (simp add: pending_sum_def add_event_def)
qed

lemma pending_sum_empty [simp]: "pending_sum (p\<lparr>pending := Map.empty\<rparr>) u = Fin 0"
  by (simp add: pending_sum_def zero_float64_def)

lemma pending_sum_running [simp]: "pending_sum (p\<lparr>running := r\<rparr>) u = pending_sum p u"
  by (simp add: pending_sum_def)

lemma order_keys: "order_for F order p \<Longrightarrow> fst ` set order = dom (pending p) \<and> distinct (map fst order)"
  by (simp add: order_for_def enumerates_def flip: set_map)

text \<open>A record that costs less than a cent.\<close>

definition small_message :: "bytes \<Rightarrow> bool" where
  "small_message m \<longleftrightarrow> (\<exists>e. unmarshal_event m = Some e \<and> 0 \<le> cost_rat e \<and> cost_rat e < 1)"

context spend_repository
begin

lemma only_name_subset: "only_name u ts \<Longrightarrow> ts' \<subseteq> ts \<Longrightarrow> only_name u ts'"
  by (auto simp: only_name_def)

text \<open>What a flush does to the tenant's spending.\<close>

lemma flush_spent:
  assumes "order_for F order p" "only_name u (dom (pending p))" "inv d" "spent_of d u = Some s"
    and "pending_sum p u = Fin x" "0 \<le> x" "x \<le> 2 ^ 31"
  shows "\<exists>s'. spent_of (apply_updates upd order (pending p) d) u = Some s' \<and> s' \<in> {s, s + \<lfloor>x\<rfloor>}
       \<and> (F \<subseteq> {good} \<longrightarrow> int4 \<lfloor>x\<rfloor> \<longrightarrow> int4 (s + \<lfloor>x\<rfloor>) \<longrightarrow> s' = s + \<lfloor>x\<rfloor>)"
proof -
  note k = order_keys [OF assms(1)]
  have o: "only_name u (fst ` set order)" using assms(2) k by simp
  have i: "int_of_float64 (value_or 0 (pending p u)) = \<lfloor>x\<rfloor>"
    using truncate_float [OF assms(6,7)] assms(5) by (simp add: pending_sum_def)
  show ?thesis
  proof (cases "u \<in> fst ` set order")
    case True
    have "snd ` set order \<subseteq> F" using assms(1) by (simp add: order_for_def)
    then show ?thesis
      using apply_own [OF assms(3) o _ assms(4), of "pending p"]
        apply_effective [OF assms(3) o _ assms(4) _ True, of "pending p"] k True i by auto
  next
    case False
    then have "pending p u = None" using k by auto
    then have "x = 0" using assms(5) by (simp add: pending_sum_def zero_float64_def)
    then show ?thesis using apply_other [OF assms(3) o False] assms(4) by simp
  qed
qed

definition account :: "'f set \<Rightarrow> string \<Rightarrow> int \<Rightarrow> loop_event list \<Rightarrow> BudgetProcessor \<Rightarrow> 'd \<Rightarrow> bool" where
  "account F u s0 es p d \<longleftrightarrow> inv d \<and> (\<exists>s x. spent_of d u = Some s \<and> pending_sum p u = Fin x
     \<and> books s0 (total_cost u es) (length es) s x
     \<and> (F \<subseteq> {good} \<longrightarrow> (\<exists>b. 1000 * b + card (dom (pending p)) \<le> length es
          \<and> owed s0 (total_cost u es) (length es) (ticks es + b) s x)))"

lemma account_add:
  assumes a: "account F u s0 es p d" and m: "unmarshal_event m = Some e"
    and t: "costs_nonneg (es @ [Received m])" "total_cost u (es @ [Received m]) \<le> 2 ^ 29" "length es \<le> 2 ^ 50"
    and fin: "finite (dom (pending p))"
  shows "account F u s0 (es @ [Received m]) (add_event e p) d"
proof -
  obtain s x where sx: "inv d" "spent_of d u = Some s" "pending_sum p u = Fin x"
    "books s0 (total_cost u es) (length es) s x"
    and ow: "F \<subseteq> {good} \<Longrightarrow> \<exists>b. 1000 * b + card (dom (pending p)) \<le> length es
          \<and> owed s0 (total_cost u es) (length es) (ticks es + b) s x"
    using a unfolding account_def by blast
  have T: "total_cost u (es @ [Received m]) = total_cost u es + cost_of u e" using m by (simp add: total_cost_snoc)
  have c: "0 \<le> cost_of u e" using cost_of_nonneg [OF t(1)] m by simp
  have "\<exists>y. pending_sum (add_event e p) u = Fin y \<and> books s0 (total_cost u es + cost_of u e) (Suc (length es)) s y
      \<and> x + cost_of u e \<le> y + turn_slack"
  proof (cases "TenantID e = u")
    case True
    then show ?thesis
      using books_add [OF sx(4) c] t(2,3) sx(3) by (simp add: T pending_sum_add [OF m] cost_of_def del: plus_float64.simps)
  next
    case False
    then show ?thesis using books_turn [OF sx(4)] sx(3)
      by (simp add: pending_sum_add [OF m] cost_of_def turn_slack_def)
  qed
  then obtain y where y: "pending_sum (add_event e p) u = Fin y"
    "books s0 (total_cost u es + cost_of u e) (Suc (length es)) s y" "x + cost_of u e \<le> y + turn_slack" by blast
  have "\<exists>b. 1000 * b + card (dom (pending (add_event e p))) \<le> Suc (length es)
      \<and> owed s0 (total_cost u es + cost_of u e) (Suc (length es)) (ticks es + b) s y" if "F \<subseteq> {good}"
  proof -
    obtain b where b: "1000 * b + card (dom (pending p)) \<le> length es"
      "owed s0 (total_cost u es) (length es) (ticks es + b) s x" using ow \<open>F \<subseteq> {good}\<close> by blast
    have "1000 * b + card (dom (pending (add_event e p))) \<le> Suc (length es)"
      using b(1) card_add_event [OF fin, of e] by linarith
    then show ?thesis using owed_add [OF b(2) y(3)] by blast
  qed
  then show ?thesis
    using sx(1,2) y(1,2) by (auto simp: account_def T ticks_snoc)
qed

lemma account_turn:
  assumes "account F u s0 es p d" "event_of e = None" "e \<noteq> Ticked" "e \<noteq> Cancelled"
  shows "account F u s0 (es @ [e]) p d"
proof -
  obtain s x where sx: "inv d" "spent_of d u = Some s" "pending_sum p u = Fin x"
    "books s0 (total_cost u es) (length es) s x"
    and ow: "F \<subseteq> {good} \<Longrightarrow> \<exists>b. 1000 * b + card (dom (pending p)) \<le> length es
          \<and> owed s0 (total_cost u es) (length es) (ticks es + b) s x"
    using assms(1) unfolding account_def by blast
  have T: "total_cost u (es @ [e]) = total_cost u es" using assms(2) by (simp add: total_cost_snoc)
  have "\<exists>b. 1000 * b + card (dom (pending p)) \<le> Suc (length es)
      \<and> owed s0 (total_cost u es) (Suc (length es)) (ticks es + b) s x" if "F \<subseteq> {good}"
    using ow [OF that] owed_turn le_SucI by blast
  then show ?thesis
    using sx(1-3) books_turn [OF sx(4)] assms(3,4) by (auto simp: account_def T ticks_snoc)
qed

text \<open>
  A flush, at a tick (\<open>k = 1\<close>) or of a full batch (\<open>k = 0\<close>, then the batch pays for it).
\<close>

lemma account_flush:
  assumes a: "inv d" "spent_of d u = Some s" "pending_sum p u = Fin x" "books s0 S n s x"
    and S: "S \<le> 2 ^ 29" "n \<le> 2 ^ 50" "0 \<le> s0" "s0 \<le> 2 ^ 30"
    and o: "order_for F order p" "only_name u (dom (pending p))"
  shows "inv (apply_updates upd order (pending p) d)
    \<and> (\<exists>s'. spent_of (apply_updates upd order (pending p) d) u = Some s' \<and> books s0 S n s' 0
         \<and> (F \<subseteq> {good} \<longrightarrow> owed s0 S n k s x \<longrightarrow> owed s0 S n (Suc k) s' 0))"
proof -
  note x = books_bound [OF a(4) S(1,2)]
  have "x \<le> 2 ^ 31" using x(3) by simp
  from flush_spent [OF o a(1-3) x(2) this] obtain s' where
    s': "spent_of (apply_updates upd order (pending p) d) u = Some s'" "s' \<in> {s, s + \<lfloor>x\<rfloor>}"
    "F \<subseteq> {good} \<Longrightarrow> int4 \<lfloor>x\<rfloor> \<Longrightarrow> int4 (s + \<lfloor>x\<rfloor>) \<Longrightarrow> s' = s + \<lfloor>x\<rfloor>" by blast
  have fx: "0 \<le> \<lfloor>x\<rfloor>" "(of_int \<lfloor>x\<rfloor> :: rat) \<le> x" using x(2) by simp_all
  have s: "s0 \<le> s" using a(4) by (simp add: books_def)
  have "of_int (s - s0) + of_int \<lfloor>x\<rfloor> \<le> (2 ^ 29 + 2 ^ 28 :: rat)" using fx(2) x(1) by linarith
  then have "(of_int (s - s0 + \<lfloor>x\<rfloor>) :: rat) \<le> of_int (2 ^ 29 + 2 ^ 28)" by simp
  then have "s - s0 + \<lfloor>x\<rfloor> \<le> 2 ^ 29 + 2 ^ 28" by (simp only: of_int_le_iff)
  moreover have "int4 c \<and> int4 (s + c)" if "s - s0 + c \<le> 2 ^ 29 + 2 ^ 28" "0 \<le> c" for c
    using that s S(3,4) by (simp add: int4_def)
  ultimately have "int4 \<lfloor>x\<rfloor>" "int4 (s + \<lfloor>x\<rfloor>)" using fx(1) by blast+
  then have "F \<subseteq> {good} \<longrightarrow> owed s0 S n k s x \<longrightarrow> owed s0 S n (Suc k) s' 0"
    using s'(3) owed_flush by simp
  then show ?thesis
    using s'(1) books_flush [OF a(4) s'(2)] inv_apply [OF a(1)] by simp
qed

text \<open>The hypotheses on a run: what it reads stays within the columns of the table.\<close>

definition modest :: "string \<Rightarrow> int \<Rightarrow> loop_event list \<Rightarrow> bool" where
  "modest u s0 es \<longleftrightarrow> only_name u (named_tenants es) \<and> costs_nonneg es \<and> total_cost u es \<le> 2 ^ 29
     \<and> length es \<le> 2 ^ 50 \<and> 0 \<le> s0 \<and> s0 \<le> 2 ^ 30"

lemma modest_snoc: "modest u s0 (es @ [e]) \<Longrightarrow> modest u s0 es"
  unfolding modest_def
  using total_cost_mono [of es e u] costs_nonneg_snoc [of es e] only_name_subset [OF _ named_mono [of es e]] by auto

lemma account_flush_tick:
  assumes "account F u s0 es p d" "processor_wf es p" "modest u s0 es" "order_for F order p"
    and "e = Ticked \<or> e = Cancelled"
  shows "account F u s0 (es @ [e]) (p\<lparr>pending := Map.empty\<rparr>) (apply_updates upd order (pending p) d)"
proof -
  obtain s x where sx: "inv d" "spent_of d u = Some s" "pending_sum p u = Fin x"
    "books s0 (total_cost u es) (length es) s x"
    and ow: "F \<subseteq> {good} \<Longrightarrow> \<exists>b. 1000 * b + card (dom (pending p)) \<le> length es
          \<and> owed s0 (total_cost u es) (length es) (ticks es + b) s x"
    using assms(1) unfolding account_def by blast
  have m: "total_cost u es \<le> 2 ^ 29" "length es \<le> 2 ^ 50" "0 \<le> s0" "s0 \<le> 2 ^ 30"
    using assms(3) by (simp_all add: modest_def)
  have o: "only_name u (dom (pending p))"
    using assms(2,3) only_name_subset by (auto simp: modest_def processor_wf_def)
  have T: "total_cost u (es @ [e]) = total_cost u es" "ticks (es @ [e]) = Suc (ticks es)"
    using assms(5) by (auto simp: total_cost_snoc ticks_snoc)
  note fl = account_flush [OF sx m assms(4) o]
  then obtain s' where s': "spent_of (apply_updates upd order (pending p) d) u = Some s'"
    "books s0 (total_cost u es) (length es) s' 0" by blast
  have "\<exists>b. 1000 * b \<le> Suc (length es) \<and> owed s0 (total_cost u es) (Suc (length es)) (Suc (ticks es + b)) s' 0"
    if F: "F \<subseteq> {good}"
  proof -
    obtain b where b: "1000 * b + card (dom (pending p)) \<le> length es"
      "owed s0 (total_cost u es) (length es) (ticks es + b) s x" using ow [OF F] by blast
    then have "owed s0 (total_cost u es) (length es) (Suc (ticks es + b)) s' 0"
      using fl [of "ticks es + b"] F s'(1) by auto
    then have "owed s0 (total_cost u es) (Suc (length es)) (Suc (ticks es + b)) s' 0" by (rule owed_turn)
    moreover have "1000 * b \<le> Suc (length es)" using b(1) by linarith
    ultimately show ?thesis by blast
  qed
  then show ?thesis
    using fl s' books_turn [OF s'(2)] by (auto simp: account_def T)
qed

lemma account_flush_batch:
  assumes "account F u s0 es p d" "finite (dom (pending p))" "dom (pending p) \<subseteq> named_tenants es"
    and "modest u s0 es" "order_for F order p" "1000 \<le> card (dom (pending p))"
  shows "account F u s0 es (p\<lparr>pending := Map.empty\<rparr>) (apply_updates upd order (pending p) d)"
proof -
  obtain s x where sx: "inv d" "spent_of d u = Some s" "pending_sum p u = Fin x"
    "books s0 (total_cost u es) (length es) s x"
    and ow: "F \<subseteq> {good} \<Longrightarrow> \<exists>b. 1000 * b + card (dom (pending p)) \<le> length es
          \<and> owed s0 (total_cost u es) (length es) (ticks es + b) s x"
    using assms(1) unfolding account_def by blast
  have m: "total_cost u es \<le> 2 ^ 29" "length es \<le> 2 ^ 50" "0 \<le> s0" "s0 \<le> 2 ^ 30"
    and o: "only_name u (dom (pending p))"
    using assms(3,4) only_name_subset by (auto simp: modest_def)
  note fl = account_flush [OF sx m assms(5) o]
  then obtain s' where s': "spent_of (apply_updates upd order (pending p) d) u = Some s'"
    "books s0 (total_cost u es) (length es) s' 0" by blast
  have "\<exists>b. 1000 * b \<le> length es \<and> owed s0 (total_cost u es) (length es) (ticks es + b) s' 0"
    if F: "F \<subseteq> {good}"
  proof -
    obtain b where b: "1000 * b + card (dom (pending p)) \<le> length es"
      "owed s0 (total_cost u es) (length es) (ticks es + b) s x" using ow [OF F] by blast
    then have "owed s0 (total_cost u es) (length es) (ticks es + Suc b) s' 0"
      using fl [of "ticks es + b"] F s'(1) by auto
    moreover have "1000 * Suc b \<le> length es" using add_left_mono [OF assms(6), of "1000 * b"] b(1) by simp
    ultimately show ?thesis by blast
  qed
  then show ?thesis using fl s' by (auto simp: account_def)
qed

lemma account_step:
  assumes "processor_step upd F e (p, d) (p', d')" "processor_wf es p" "account F u s0 es p d" "modest u s0 (es @ [e])"
  shows "account F u s0 (es @ [e]) p' d'"
proof -
  have m: "modest u s0 es" using assms(4) by (rule modest_snoc)
  have fin: "finite (dom (pending p))" using assms(2) by (simp add: processor_wf_def)
  have t: "costs_nonneg (es @ [e])" "total_cost u (es @ [e]) \<le> 2 ^ 29" "length es \<le> 2 ^ 50"
    using assms(4) by (simp_all add: modest_def)
  from assms(1) show ?thesis
  proof cases
    case (cancelled order p1)
    then have "p1 = p\<lparr>pending := Map.empty\<rparr>" "d' = apply_updates upd order (pending p) d"
      by (simp_all add: flush_result [OF fin])
    moreover have "account F u s0 (es @ [e]) (p\<lparr>pending := Map.empty\<rparr>) (apply_updates upd order (pending p) d)"
      using account_flush_tick [OF assms(3,2) m] cancelled by blast
    ultimately show ?thesis unfolding \<open>p' = _\<close> by (simp add: account_def)
  next
    case (ticked order)
    then show ?thesis using account_flush_tick [OF assms(3,2) m ticked(4), of e] by (simp add: flush_result [OF fin])
  next
    case read_failed
    then show ?thesis using account_turn [OF assms(3), of e] by simp
  next
    case (undecodable msg)
    then show ?thesis using account_turn [OF assms(3), of e] by simp
  next
    case (added msg x)
    then show ?thesis using account_add [OF assms(3), of msg x] t fin by simp
  next
    case (added_and_flushed msg x order)
    let ?p = "add_event x p"
    have a: "account F u s0 (es @ [e]) ?p d"
      using account_add [OF assms(3), of msg x] t fin added_and_flushed by simp
    have f: "finite (dom (pending ?p))" using fin by (simp add: dom_add_event)
    have n: "dom (pending ?p) \<subseteq> named_tenants (es @ [e])"
      using named_add [of p es e x] assms(2) added_and_flushed by (simp add: processor_wf_def)
    have "1000 \<le> card (dom (pending ?p))"
      using added_and_flushed assms(2) by (simp add: should_flush_def processor_wf_def)
    from account_flush_batch [OF a f n assms(4) _ this] added_and_flushed show ?thesis
      by (simp add: flush_result [OF f])
  qed
qed

lemma account_run:
  assumes "processor_run upd F (NewBudgetProcessor, d0) es (p, d)" "modest u s0 es" "inv d0" "spent_of d0 u = Some s0"
  shows "account F u s0 es p d"
  using assms(1,2)
proof (induction es arbitrary: p d rule: rev_induct)
  case Nil
  then show ?case using assms(3,4)
    by (auto simp: account_def books_def owed_def pending_sum_def NewBudgetProcessor_def zero_float64_def
        total_cost_def ticks_def)
next
  case (snoc e es)
  then obtain p1 d1 where r: "processor_run upd F (NewBudgetProcessor, d0) es (p1, d1)"
    "processor_step upd F e (p1, d1) (p, d)" by (auto simp: processor_run_snoc)
  then show ?case
    using account_step [OF r(2) processor_run_wf [OF r(1)]] snoc modest_snoc by blast
qed

text \<open>The bounds as a client reads them.\<close>

lemma account_bounds:
  assumes "account F u s0 es p d"
  shows "\<exists>s x. spent_of d u = Some s \<and> pending_sum p u = Fin x \<and> 0 \<le> x
     \<and> of_int (s - s0) + x \<le> total_cost u es + of_nat (length es) * turn_slack
     \<and> (F \<subseteq> {good} \<longrightarrow> total_cost u es - of_nat (ticks es + length es div 1000) - of_nat (length es) * turn_slack
          \<le> of_int (s - s0) + x)"
proof -
  from assms obtain s x where sx: "spent_of d u = Some s" "pending_sum p u = Fin x"
    "books s0 (total_cost u es) (length es) s x"
    and ow: "F \<subseteq> {good} \<Longrightarrow> \<exists>b. 1000 * b + card (dom (pending p)) \<le> length es
          \<and> owed s0 (total_cost u es) (length es) (ticks es + b) s x"
    unfolding account_def by blast
  have "total_cost u es - of_nat (ticks es + length es div 1000) - of_nat (length es) * turn_slack \<le> of_int (s - s0) + x"
    if F: "F \<subseteq> {good}"
  proof -
    obtain b where b: "1000 * b + card (dom (pending p)) \<le> length es"
      "owed s0 (total_cost u es) (length es) (ticks es + b) s x"
      using ow [OF F] by blast
    moreover from add_leD1 [OF b(1)] have "b \<le> length es div 1000" by (simp add: less_eq_div_iff_mult_less_eq mult.commute)
    then have "(of_nat (ticks es + b) :: rat) \<le> of_nat (ticks es + length es div 1000)" by (simp only: of_nat_le_iff)
    ultimately show ?thesis unfolding owed_def by linarith
  qed
  then show ?thesis using sx by (auto simp: books_def)
qed

lemma run_bounds:
  assumes "processor_run upd F (NewBudgetProcessor, d0) es (p, d)" "modest u s0 es" "inv d0" "spent_of d0 u = Some s0"
  shows "\<exists>s x. spent_of d u = Some s \<and> pending_sum p u = Fin x \<and> 0 \<le> x
     \<and> of_int (s - s0) + x \<le> total_cost u es + of_nat (length es) * turn_slack
     \<and> (F \<subseteq> {good} \<longrightarrow> total_cost u es - of_nat (ticks es + length es div 1000) - of_nat (length es) * turn_slack
          \<le> of_int (s - s0) + x)"
  using account_bounds [OF account_run [OF assms]] .

text \<open>Other users of the repository do not disturb the account.\<close>

lemma account_frame:
  "account F u s0 es p d \<Longrightarrow> inv d' \<Longrightarrow> (\<And>s. spent_of d u = Some s \<Longrightarrow> spent_of d' u = Some s) \<Longrightarrow> account F u s0 es p d'"
  unfolding account_def by blast

text \<open>A record and a tick in turn, each record costing less than a cent: nothing is recorded.\<close>

lemma small_turn:
  assumes "small_message m" "pending p = Map.empty" "batchSize p = 1000" "inv d" "spent_of d u = Some s"
    and "processor_step upd F (Received m) (p, d) s1" "processor_step upd F Ticked s1 (p2, d2)"
  shows "pending p2 = Map.empty \<and> batchSize p2 = 1000 \<and> inv d2 \<and> spent_of d2 u = Some s"
proof -
  obtain e where e: "unmarshal_event m = Some e" "0 \<le> cost_rat e" "cost_rat e < 1"
    using assms(1) by (auto simp: small_message_def)
  have r: "CostCents e = Fin (cost_rat e)" "rnd (cost_rat e) = cost_rat e"
    using unmarshal_event_finite [OF e(1)] by (auto simp: finite_cost_def cost_rat_def)
  have "(0 :: float64) + CostCents e = Fin (cost_rat e)"
    using e(2,3) r by (simp add: zero_float64_def f64_Fin)
  then have p1: "pending (add_event e p) = [TenantID e \<mapsto> Fin (cost_rat e)]"
    using assms(2) by (simp add: add_event_def)
  then have "\<not> should_flush (add_event e p)" using assms(3) by (simp add: should_flush_def)
  then have s1: "s1 = (add_event e p, d)"
    using assms(6) e(1) by (auto elim!: step_received)
  obtain order where o: "order_for F order (add_event e p)" "(p2, d2) = flush upd order (add_event e p, d)"
    using assms(7) unfolding s1 by (auto elim!: step_ticked)
  have k: "map fst order = [TenantID e]"
  proof -
    have "set (map fst order) = {TenantID e}" "distinct (map fst order)"
      using o(1) p1 by (simp_all add: order_for_def enumerates_def)
    then show ?thesis by (metis distinct_singleton distinct_card card.empty card.insert finite.emptyI empty_iff
          length_0_conv length_Suc_conv list.set_intros(1) singletonD)
  qed
  then obtain f where "order = [(TenantID e, f)]" by (cases order) auto
  moreover have "int_of_float64 (Fin (cost_rat e)) = 0"
    using truncate_float [of "cost_rat e"] e(2,3) by (simp add: floor_eq_iff)
  ultimately have "p2 = (add_event e p)\<lparr>pending := Map.empty\<rparr>" "d2 = snd (upd f (TenantID e) 0 d)"
    using o(2) flush_result [OF _ o(1), of upd d] p1 by simp_all
  moreover have "spent_of (snd (upd f (TenantID e) 0 d)) u = Some s"
    using other [OF assms(4), of "TenantID e" u f 0] own [OF assms(4) _ assms(5), of "TenantID e" f 0] assms(5)
    by (cases "canon (TenantID e) = Some u") auto
  ultimately show ?thesis using assms(3,4) inv_upd by simp
qed

lemma small_run:
  assumes "list_all small_message ms" "inv d" "spent_of d u = Some s"
    and "processor_run upd F (NewBudgetProcessor, d) (concat (map (\<lambda>m. [Received m, Ticked]) ms)) (p', d')"
  shows "pending p' = Map.empty \<and> batchSize p' = 1000 \<and> inv d' \<and> spent_of d' u = Some s"
  using assms(1,4)
proof (induction ms arbitrary: p' d' rule: rev_induct)
  case Nil
  then show ?case using assms(2,3) by (simp add: NewBudgetProcessor_def)
next
  case (snoc m ms)
  let ?es = "concat (map (\<lambda>m. [Received m, Ticked]) ms)"
  have "processor_run upd F (NewBudgetProcessor, d) ((?es @ [Received m]) @ [Ticked]) (p', d')"
    using snoc.prems(2) by simp
  then obtain s1 where s1: "processor_run upd F (NewBudgetProcessor, d) (?es @ [Received m]) s1"
    "processor_step upd F Ticked s1 (p', d')" unfolding processor_run_snoc [of _ _ _ _ Ticked] by blast
  then obtain p0 d0 where s0: "processor_run upd F (NewBudgetProcessor, d) ?es (p0, d0)"
    "processor_step upd F (Received m) (p0, d0) s1" unfolding processor_run_snoc by auto
  have "pending p0 = Map.empty \<and> batchSize p0 = 1000 \<and> inv d0 \<and> spent_of d0 u = Some s"
    using snoc.IH [OF _ s0(1)] snoc.prems(1) by simp
  with small_turn [OF _ _ _ _ _ s0(2) s1(2), where u = u and s = s] snoc.prems(1) show ?case by simp
qed

end

end
