(* ===== verification/Budget_Properties.thy ===== *)
theory Budget_Properties
  imports Budget_Correct "HOL-Library.Multiset"
begin

text \<open>The properties of the budget processor over the PostgreSQL repository.\<close>

section \<open>A concrete topic\<close>

text \<open>The message \<open>{"tenant_id":"t1","cost_cents":0.75}\<close> and what it decodes to.\<close>

definition in_quotes :: "string \<Rightarrow> bytes" where
  "in_quotes s = CHR 0x22 # s @ [CHR 0x22]"

definition sample_message :: bytes where
  "sample_message = CHR ''{'' # in_quotes ''tenant_id'' @ CHR '':'' # in_quotes ''t1'' @ CHR '','' #
     in_quotes ''cost_cents'' @ '':0.75'' @ [CHR ''}'']"

definition sample_event :: LogEvent where
  "sample_event = zero_event\<lparr>TenantID := ''t1'', CostCents := Fin (3 / 4)\<rparr>"

lemma sample_decodes: "unmarshal_event sample_message = Some sample_event"
  by code_simp

definition sample_table :: tenants_table where
  "sample_table = [\<lparr>row_tenant = zero_tenant\<lparr>ID := ''t1'', APIKeyHash := ''h1''\<rparr>, row_created_at = 0\<rparr>,
                   \<lparr>row_tenant = zero_tenant\<lparr>ID := ''t2'', APIKeyHash := ''h2''\<rparr>, row_created_at = 5\<rparr>]"

lemma sample_table_wf: "table_wf Some sample_table"
  by (simp add: table_wf_def sample_table_def zero_tenant_def int4_def)

lemma sample_spent: "spent sample_table ''t1'' = Some 0"
  by (simp add: spent_def sample_table_def zero_tenant_def)

text \<open>Three quarters of a cent, twice.\<close>

lemma sample_sum: "Fin 0 + Fin (3 / 4) = Fin (3 / 4)" "Fin (3 / 4) + Fin (3 / 4) = Fin (3 / 2)"
  "int_of_float64 (Fin (3 / 2)) = 1" "int_of_float64 (Fin (3 / 4)) = 0"
  by code_simp+

section \<open>What a run may read\<close>

text \<open>
  The tenant is only called by its canonical id, costs are not negative, and the sums stay
  within half of what the spending column can hold.
\<close>

definition within_columns :: "(string \<Rightarrow> string option) \<Rightarrow> string \<Rightarrow> int \<Rightarrow> loop_event list \<Rightarrow> bool" where
  "within_columns canon u s0 es \<longleftrightarrow>
     canon u = Some u \<and> (\<forall>t \<in> named_tenants es. canon t = Some u \<longrightarrow> t = u) \<and>
     costs_nonneg es \<and> total_cost u es \<le> 2 ^ 29 \<and> length es \<le> 2 ^ 50 \<and> 0 \<le> s0 \<and> s0 \<le> 2 ^ 30"

lemma within_columns_modest: "within_columns canon u s0 es = postgres.modest canon u s0 es"
  by (simp add: within_columns_def postgres.modest_def postgres.only_name_def)

lemmas postgres_bounds = postgres.run_bounds [folded within_columns_modest]

section \<open>Properties\<close>

text \<open>
  Fewer than a thousand tenants are ever pending: whatever the loop reads and whatever
  the repository answers, the map is emptied before it grows further, and it only holds
  tenants that records named.
\<close>
theorem pending_below_batch:
  assumes "processor_run upd F (NewBudgetProcessor, d0) es (p, d)"
  shows "finite (dom (pending p)) \<and> card (dom (pending p)) < 1000 \<and> dom (pending p) \<subseteq> named_tenants es"
  using processor_run_wf [OF assms] by (simp add: processor_wf_def)

lemma sample_run_one:
  "processor_run upd F (NewBudgetProcessor, d) [Received sample_message] (add_event sample_event NewBudgetProcessor, d)"
proof -
  have "\<not> should_flush (add_event sample_event NewBudgetProcessor)"
    by (simp add: should_flush_def dom_add_event card_insert_if NewBudgetProcessor_def add_event_def)
  then have "processor_step upd F (Received sample_message) (NewBudgetProcessor, d)
      (add_event sample_event NewBudgetProcessor, d)"
    by (intro processor_step.added) (simp_all add: sample_decodes NewBudgetProcessor_def)
  from processor_run.turn [OF processor_run.start this] show ?thesis by simp
qed

theorem pending_below_batch_witness:
  "card (dom (pending (add_event sample_event NewBudgetProcessor))) < 1000"
  using pending_below_batch [OF sample_run_one [of "UpdateTenantSpend Some" UNIV sample_table]] by blast

text \<open>
  C12: what a tenant is charged exceeds the exact cost of what it used at most by the rounding
  of the binary64 sums: while the costs are not negative, the sums stay within the column's
  range and records call the tenant by its canonical ID, the cents recorded for it plus the
  sum still pending are at most the exact cost of the records read for it and one part in four
  million of a cent per turn of the loop, whatever updates are lost or answered late.
\<close>
theorem overcharge_within_rounding:
  assumes "processor_run (UpdateTenantSpend canon) F (NewBudgetProcessor, tbl) es (p, tbl')"
    and "table_wf canon tbl" and "spent tbl u = Some s0" and "within_columns canon u s0 es"
  shows "\<exists>s x. spent tbl' u = Some s \<and> pending_sum p u = Fin x \<and> 0 \<le> x
      \<and> of_int (s - s0) + x \<le> total_cost u es + of_nat (length es) / 2 ^ 22"
  using postgres_bounds [OF assms(1,4,2,3)] by (auto simp: turn_slack_def)

lemma sample_within: "within_columns Some ''t1'' 0 [Received sample_message]"
  by (simp add: within_columns_def named_tenants_def tenant_events_def map_filter_def sample_decodes
      sample_event_def zero_event_def costs_nonneg_def cost_rat_def total_cost_def cost_of_def)

lemma sample_total: "total_cost ''t1'' [Received sample_message] = 3 / 4"
  by (simp add: tenant_events_def map_filter_def sample_decodes sample_event_def zero_event_def
      cost_rat_def total_cost_def cost_of_def)

theorem overcharge_within_rounding_witness:
  "\<exists>s x. spent sample_table ''t1'' = Some s
     \<and> pending_sum (add_event sample_event NewBudgetProcessor) ''t1'' = Fin x \<and> of_int (s - 0) + x \<le> 3 / 4 + 1 / 2 ^ 22"
  using overcharge_within_rounding [OF sample_run_one [of "UpdateTenantSpend Some" UNIV sample_table]
      sample_table_wf sample_spent sample_within]
  by (auto simp: sample_total)

text \<open>
  When every update is delivered, each tick and each full batch loses at most the
  fraction of a cent that the conversion to an integer cuts off: recorded plus pending is at
  least the exact cost less one cent per tick and per thousand turns.
\<close>
theorem loss_at_most_a_cent_per_flush:
  assumes "processor_run (UpdateTenantSpend canon) {Delivered} (NewBudgetProcessor, tbl) es (p, tbl')"
    and "table_wf canon tbl" and "spent tbl u = Some s0" and "within_columns canon u s0 es"
  shows "\<exists>s x. spent tbl' u = Some s \<and> pending_sum p u = Fin x
      \<and> total_cost u es - of_nat (ticks es + length es div 1000) - of_nat (length es) / 2 ^ 22 \<le> of_int (s - s0) + x"
  using postgres_bounds [OF assms(1,4,2,3)] by (auto simp: turn_slack_def)

theorem loss_at_most_a_cent_per_flush_witness:
  "\<exists>s x. spent sample_table ''t1'' = Some s
     \<and> pending_sum (add_event sample_event NewBudgetProcessor) ''t1'' = Fin x \<and> 3 / 4 - 1 / 2 ^ 22 \<le> of_int (s - 0) + x"
  using loss_at_most_a_cent_per_flush [OF sample_run_one [of "UpdateTenantSpend Some" "{Delivered}" sample_table]
      sample_table_wf sample_spent sample_within]
  by (auto simp: sample_total ticks_def)

text \<open>
  C33: spending in small steps is never recorded: when every record costs less than a cent
  and a tick follows each, no tenant's spending changes, however many records there are and
  however much they cost together. The pending sum is emptied each time all the same.
\<close>
theorem sub_cent_spend_lost:
  assumes "list_all small_message ms" and "table_wf canon tbl" and "spent tbl u = Some s"
    and "processor_run (UpdateTenantSpend canon) F (NewBudgetProcessor, tbl)
           (concat (map (\<lambda>m. [Received m, Ticked]) ms)) (p, tbl')"
  shows "spent tbl' u = Some s \<and> pending p = Map.empty"
  using postgres.small_run [OF assms] by blast

lemma sample_tick:
  "\<exists>tbl'. processor_run (UpdateTenantSpend Some) {Delivered} (NewBudgetProcessor, sample_table)
     [Received sample_message, Ticked] ((add_event sample_event NewBudgetProcessor)\<lparr>pending := Map.empty\<rparr>, tbl')"
proof -
  let ?p = "add_event sample_event NewBudgetProcessor" and ?order = "[(''t1'', Delivered)]"
  have o: "order_for {Delivered} ?order ?p"
    by (simp add: order_for_def enumerates_def add_event_def sample_event_def zero_event_def NewBudgetProcessor_def)
  have "running ?p" by (simp add: add_event_def NewBudgetProcessor_def)
  note t = processor_step.ticked [OF this o, where upd = "UpdateTenantSpend Some" and d = sample_table]
  from processor_run.turn [OF sample_run_one t]
  have "processor_run (UpdateTenantSpend Some) {Delivered} (NewBudgetProcessor, sample_table)
      ([Received sample_message] @ [Ticked]) (flush (UpdateTenantSpend Some) ?order (?p, sample_table))" by simp
  moreover have "finite (dom (pending ?p))" by (simp add: dom_add_event NewBudgetProcessor_def)
  ultimately show ?thesis by (auto simp: flush_result [OF _ o])
qed

theorem sub_cent_spend_lost_witness:
  "\<exists>p tbl'. processor_run (UpdateTenantSpend Some) {Delivered} (NewBudgetProcessor, sample_table)
     [Received sample_message, Ticked] (p, tbl') \<and> spent tbl' ''t1'' = Some 0"
proof -
  obtain p tbl' where r: "processor_run (UpdateTenantSpend Some) {Delivered} (NewBudgetProcessor, sample_table)
     [Received sample_message, Ticked] (p, tbl')" using sample_tick by blast
  have "list_all small_message [sample_message]"
    by (simp add: small_message_def sample_decodes sample_event_def cost_rat_def)
  from sub_cent_spend_lost [OF this sample_table_wf sample_spent] r show ?thesis by fastforce
qed

section \<open>The order of a flush\<close>

definition row_update :: "(string \<Rightarrow> string option) \<Rightarrow> (string \<rightharpoonup> float64) \<Rightarrow> string \<Rightarrow> row \<Rightarrow> row" where
  "row_update canon m t r =
     (let c = int_of_float64 (value_or 0 (m t))
      in if canon t = Some (ID (row_tenant r)) \<and> int4 c \<and> int4 (SpentCents (row_tenant r) + c)
         then spend_row c r else r)"

lemma ID_row_update [simp]: "ID (row_tenant (row_update canon m t r)) = ID (row_tenant r)"
  by (simp add: row_update_def Let_def)

lemma update_is_rowwise:
  assumes "distinct (map (ID \<circ> row_tenant) tbl)"
  shows "snd (UpdateTenantSpend canon Delivered t (int_of_float64 (value_or 0 (m t))) tbl) = map (row_update canon m t) tbl"
proof (cases "canon t")
  case None
  then show ?thesis by (simp add: UpdateTenantSpend_def deliver_def update_spend_def row_update_def [abs_def])
next
  case (Some u)
  let ?c = "int_of_float64 (value_or 0 (m t))"
  have inj: "r = r'" if "r \<in> set tbl" "r' \<in> set tbl" "ID (row_tenant r) = u" "ID (row_tenant r') = u" for r r'
    using assms that by (auto simp: distinct_map inj_on_def)
  show ?thesis
  proof (cases "int4 ?c \<and> (\<forall>r \<in> set tbl. ID (row_tenant r) = u \<longrightarrow> int4 (SpentCents (row_tenant r) + ?c))")
    case True
    then show ?thesis using Some
      by (auto simp: UpdateTenantSpend_def deliver_def update_spend_def row_update_def Let_def)
  next
    case False
    then have "row_update canon m t r = r" if "r \<in> set tbl" for r
      using Some inj [OF that] by (auto simp: row_update_def Let_def)
    then have "map (row_update canon m t) tbl = tbl" by (simp add: map_idI)
    then show ?thesis using False Some
      by (auto simp: UpdateTenantSpend_def deliver_def update_spend_def)
  qed
qed

lemma apply_is_rowwise:
  assumes "distinct (map (ID \<circ> row_tenant) tbl)" "snd ` set order \<subseteq> {Delivered}"
  shows "apply_updates (UpdateTenantSpend canon) order m tbl = map (fold (row_update canon m) (map fst order)) tbl"
  using assms
proof (induction order arbitrary: tbl)
  case (Cons x xs)
  obtain t where x: "x = (t, Delivered)" using Cons.prems(2) by (cases x) auto
  have ids: "map (ID \<circ> row_tenant) (map (row_update canon m t) tbl) = map (ID \<circ> row_tenant) tbl" by simp
  then show ?case
    using Cons.IH [of "map (row_update canon m t) tbl"] Cons.prems
    by (simp add: x update_is_rowwise [OF Cons.prems(1)] o_def)
qed simp

text \<open>
  The order in which a flush ranges over the map does not matter: when the pending
  tenants have different ids and the updates are delivered, every order leaves the same
  table and the same processor.
\<close>
theorem flush_order_irrelevant:
  assumes "table_wf canon tbl" and "order_for {Delivered} o1 p" and "order_for {Delivered} o2 p"
    and "inj_on canon (dom (pending p))"
  shows "flush (UpdateTenantSpend canon) o1 (p, tbl) = flush (UpdateTenantSpend canon) o2 (p, tbl)"
proof -
  have d: "distinct (map (ID \<circ> row_tenant) tbl)" using assms(1) by (simp add: table_wf_def)
  have "mset (map fst o1) = mset (map fst o2)"
    using order_keys [OF assms(2)] order_keys [OF assms(3)] by (intro iffD1 [OF set_eq_iff_mset_eq_distinct]) auto
  moreover have "row_update canon (pending p) s \<circ> row_update canon (pending p) t =
      row_update canon (pending p) t \<circ> row_update canon (pending p) s"
    if "s \<in> dom (pending p)" "t \<in> dom (pending p)" for s t
  proof (cases "s = t")
    case False
    then have "canon s \<noteq> canon t" using assms(4) that by (auto simp: inj_on_def)
    then show ?thesis by (auto simp: fun_eq_iff row_update_def Let_def)
  qed simp
  ultimately have "fold (row_update canon (pending p)) (map fst o1) = fold (row_update canon (pending p)) (map fst o2)"
    using order_keys [OF assms(2)] by (intro fold_multiset_equiv) auto
  moreover have "snd ` set o1 \<subseteq> {Delivered}" "snd ` set o2 \<subseteq> {Delivered}"
    using assms(2,3) by (simp_all add: order_for_def)
  ultimately show ?thesis by (simp add: flush_def apply_is_rowwise [OF d])
qed

theorem flush_order_irrelevant_witness:
  "let p = NewBudgetProcessor\<lparr>pending := [''t1'' \<mapsto> Fin (3 / 2), ''t2'' \<mapsto> Fin (3 / 4)]\<rparr> in
   flush (UpdateTenantSpend Some) [(''t1'', Delivered), (''t2'', Delivered)] (p, sample_table)
   = flush (UpdateTenantSpend Some) [(''t2'', Delivered), (''t1'', Delivered)] (p, sample_table)"
  unfolding Let_def
  by (rule flush_order_irrelevant [OF sample_table_wf])
    (auto simp: order_for_def enumerates_def)

end
