(* ===== verification/Sha256.thy ===== *)
theory Sha256
  imports Go_Strings
begin

text \<open>
  \<open>crypto/sha256\<close>: \<open>Sum256\<close> on byte strings, the hash under which an API key is stored
  and from which the cache keys are made (FIPS 180-4).
\<close>

unbundle bit_operations_syntax

section \<open>The compression function\<close>

definition round_constants :: "32 word list" where
  "round_constants =
    [1116352408, 1899447441, 3049323471, 3921009573, 961987163, 1508970993, 2453635748, 2870763221,
     3624381080, 310598401, 607225278, 1426881987, 1925078388, 2162078206, 2614888103, 3248222580,
     3835390401, 4022224774, 264347078, 604807628, 770255983, 1249150122, 1555081692, 1996064986,
     2554220882, 2821834349, 2952996808, 3210313671, 3336571891, 3584528711, 113926993, 338241895,
     666307205, 773529912, 1294757372, 1396182291, 1695183700, 1986661051, 2177026350, 2456956037,
     2730485921, 2820302411, 3259730800, 3345764771, 3516065817, 3600352804, 4094571909, 275423344,
     430227734, 506948616, 659060556, 883997877, 958139571, 1322822218, 1537002063, 1747873779,
     1955562222, 2024104815, 2227730452, 2361852424, 2428436474, 2756734187, 3204031479, 3329325298]"

type_synonym word32 = "32 word"

definition rotr :: "nat \<Rightarrow> word32 \<Rightarrow> word32" where
  "rotr n x = (drop_bit n x) OR (push_bit (32 - n) x)"

definition Sigma0 :: "word32 \<Rightarrow> word32" where
  "Sigma0 x = rotr 2 x XOR rotr 13 x XOR rotr 22 x"

definition Sigma1 :: "word32 \<Rightarrow> word32" where
  "Sigma1 x = rotr 6 x XOR rotr 11 x XOR rotr 25 x"

definition sigma0 :: "word32 \<Rightarrow> word32" where
  "sigma0 x = rotr 7 x XOR rotr 18 x XOR drop_bit 3 x"

definition sigma1 :: "word32 \<Rightarrow> word32" where
  "sigma1 x = rotr 17 x XOR rotr 19 x XOR drop_bit 10 x"

definition Ch :: "word32 \<Rightarrow> word32 \<Rightarrow> word32 \<Rightarrow> word32" where
  "Ch x y z = (x AND y) XOR (NOT x AND z)"

definition Maj :: "word32 \<Rightarrow> word32 \<Rightarrow> word32 \<Rightarrow> word32" where
  "Maj x y z = (x AND y) XOR (x AND z) XOR (y AND z)"

text \<open>The schedule is built backwards: the newest word first.\<close>

fun extend :: "nat \<Rightarrow> word32 list \<Rightarrow> word32 list" where
  "extend 0 ws = ws"
| "extend (Suc n) ws = extend n ((sigma1 (ws ! 1) + ws ! 6 + sigma0 (ws ! 14) + ws ! 15) # ws)"

definition schedule :: "word32 list \<Rightarrow> word32 list" where
  "schedule block = rev (extend 48 (rev block))"

type_synonym hash_state = "word32 \<times> word32 \<times> word32 \<times> word32 \<times> word32 \<times> word32 \<times> word32 \<times> word32"

fun hash_round :: "word32 \<times> word32 \<Rightarrow> hash_state \<Rightarrow> hash_state" where
  "hash_round (k, w) (a, b, c, d, e, f, g, h) =
     (let t1 = h + Sigma1 e + Ch e f g + k + w;
          t2 = Sigma0 a + Maj a b c
      in (t1 + t2, a, b, c, d + t1, e, f, g))"

fun add_state :: "hash_state \<Rightarrow> hash_state \<Rightarrow> hash_state" where
  "add_state (a, b, c, d, e, f, g, h) (a', b', c', d', e', f', g', h') =
     (a + a', b + b', c + c', d + d', e + e', f + f', g + g', h + h')"

definition compress :: "word32 list \<Rightarrow> hash_state \<Rightarrow> hash_state" where
  "compress block s = add_state s (fold hash_round (zip round_constants (schedule block)) s)"

section \<open>Padding and parsing into blocks\<close>

fun be_bytes :: "nat \<Rightarrow> int \<Rightarrow> int list" where
  "be_bytes 0 n = []"
| "be_bytes (Suc k) n = be_bytes k (n div 256) @ [n mod 256]"

definition byte_value :: "char \<Rightarrow> int" where
  "byte_value c = of_char c"

definition padded :: "bytes \<Rightarrow> int list" where
  "padded s = map byte_value s @ 128 # replicate ((55 + 64 - length s mod 64) mod 64) 0
     @ be_bytes 8 (8 * int (length s))"

fun be_words :: "int list \<Rightarrow> word32 list" where
  "be_words (a # b # c # d # bs) = word_of_int (((a * 256 + b) * 256 + c) * 256 + d) # be_words bs"
| "be_words bs = []"

fun compress_all :: "nat \<Rightarrow> word32 list \<Rightarrow> hash_state \<Rightarrow> hash_state" where
  "compress_all 0 ws s = s"
| "compress_all (Suc n) ws s = compress_all n (drop 16 ws) (compress (take 16 ws) s)"

definition initial_hash :: hash_state where
  "initial_hash = (0x6a09e667, 0xbb67ae85, 0x3c6ef372, 0xa54ff53a, 0x510e527f, 0x9b05688c, 0x1f83d9ab, 0x5be0cd19)"

fun state_bytes :: "hash_state \<Rightarrow> int list" where
  "state_bytes (a, b, c, d, e, f, g, h) = concat (map (\<lambda>x. be_bytes 4 (uint x)) [a, b, c, d, e, f, g, h])"

definition Sum256 :: "bytes \<Rightarrow> bytes" where
  "Sum256 s =
     (let p = padded s
      in map char_of (state_bytes (compress_all (length p div 64) (be_words p) initial_hash)))"

lemma length_be_bytes [simp]: "length (be_bytes k n) = k"
  by (induction k arbitrary: n) auto

lemma Sum256_length: "length (Sum256 s) = 32"
proof -
  have "length (state_bytes st) = 32" for st by (cases st rule: state_bytes.cases) simp
  then show ?thesis by (simp add: Sum256_def Let_def)
qed

section \<open>Evaluation in pieces\<close>

lemma fold_chunks:
  assumes "length xs = 64"
  shows "fold f xs s = fold f (take 16 (drop 48 xs)) (fold f (take 16 (drop 32 xs))
    (fold f (take 16 (drop 16 xs)) (fold f (take 16 (drop 0 xs)) s)))"
proof -
  have step: "fold f (drop k xs) t = fold f (drop (16 + k) xs) (fold f (take 16 (drop k xs)) t)" for k t
  proof -
    have "drop k xs = take 16 (drop k xs) @ drop (16 + k) xs" by (metis append_take_drop_id drop_drop)
    then show ?thesis by (metis fold_append comp_apply)
  qed
  have "fold f xs s = fold f (drop 0 xs) s" by simp
  also have "\<dots> = fold f (drop 64 xs) (fold f (take 16 (drop 48 xs)) (fold f (take 16 (drop 32 xs))
    (fold f (take 16 (drop 16 xs)) (fold f (take 16 (drop 0 xs)) s))))"
    using step [of 0] step [of 16] step [of 32] step [of 48] by simp
  finally show ?thesis using assms by simp
qed

lemma compress_in_chunks:
  assumes "schedule block = ws" "length ws = 64"
    and "fold hash_round (zip (take 16 (drop 0 round_constants)) (take 16 (drop 0 ws))) s0 = s1"
    and "fold hash_round (zip (take 16 (drop 16 round_constants)) (take 16 (drop 16 ws))) s1 = s2"
    and "fold hash_round (zip (take 16 (drop 32 round_constants)) (take 16 (drop 32 ws))) s2 = s3"
    and "fold hash_round (zip (take 16 (drop 48 round_constants)) (take 16 (drop 48 ws))) s3 = s4"
  shows "compress block s0 = add_state s0 s4"
proof -
  have len: "length (zip round_constants ws) = 64" using assms(2) by (simp add: round_constants_def)
  show ?thesis
    unfolding compress_def assms(1) fold_chunks [OF len] by (simp only: take_zip drop_zip assms(3-6))
qed

section \<open>The key of the seed tenant\<close>

text \<open>
  \<open>scripts/postgres-init.sql\<close> seeds a tenant for the key \<open>sk-kenbun-test\<close>. The evaluation
  of its hash, in pieces the kernel checks side by side.
\<close>

definition seed_key :: string where "seed_key = ''sk-kenbun-test''"

definition seed_words :: "word32 list" where
  "seed_words =
    [0x736b2d6b, 0x656e6275, 0x6e2d7465, 0x73748000, 0x00000000, 0x00000000, 0x00000000, 0x00000000,
     0x00000000, 0x00000000, 0x00000000, 0x00000000, 0x00000000, 0x00000000, 0x00000000, 0x00000070,
     0xf265773c, 0xffa51264, 0xb1fb5865, 0x9eb58962, 0xc7121014, 0x75bab1ee, 0x4a39405f, 0x013d1202,
     0x87dbd46f, 0xdd3c6862, 0x2f514f45, 0x801c8a37, 0x03fc97ff, 0x1eb6778e, 0xba59b0b4, 0xb7748e7f,
     0x5097132a, 0x111a43e2, 0x52afa7cc, 0xc1a48585, 0x8afb4ebd, 0xea1b1c6e, 0x10fef1fa, 0x7a438088,
     0x03c1d0c0, 0xbc9d7359, 0x20fd0f0b, 0xfe8852a4, 0x968ca542, 0x650157ea, 0xc4e98108, 0xd6c0f61a,
     0x54c2bfc9, 0x1316938f, 0x8c175498, 0xadc9d708, 0x3885e836, 0xca937681, 0x3072cbbc, 0x98f87260,
     0x4bbae27e, 0xd1abbd30, 0x3eae0d78, 0x9ec47b2a, 0xb5cd7fd6, 0xb1a2a363, 0x81121d07, 0x6031269b]"

definition seed_state0 :: hash_state where
  "seed_state0 = (0x6a09e667, 0xbb67ae85, 0x3c6ef372, 0xa54ff53a,
     0x510e527f, 0x9b05688c, 0x1f83d9ab, 0x5be0cd19)"

definition seed_state1 :: hash_state where
  "seed_state1 = (0xa92d7d49, 0x2c746ae9, 0xb8816a3b, 0x49c45fd3,
     0xb2b7f486, 0x81bbcba0, 0xbc6312a3, 0xa8fc27ec)"

definition seed_state2 :: hash_state where
  "seed_state2 = (0xb054664b, 0x1dafdea8, 0x6377f70c, 0xf672538b,
     0xb88da9e9, 0x5b08759d, 0x0520cf1f, 0x75f2e4bf)"

definition seed_state3 :: hash_state where
  "seed_state3 = (0xeb701992, 0xe9e7bc67, 0x4e395e6c, 0x189b14df,
     0xc20f2bd7, 0xaa8aa005, 0x51935074, 0x202c7830)"

definition seed_state4 :: hash_state where
  "seed_state4 = (0xc26ca313, 0xc5076303, 0xa06abd02, 0x1408f180,
     0x37b9dd64, 0x53ccb4b1, 0x92d59d5a, 0x4101c6fe)"

lemma seed_schedule: "schedule (be_words (padded seed_key)) = seed_words"
  by code_simp

lemma seed_rounds0:
  "fold hash_round (zip (take 16 (drop 0 round_constants)) (take 16 (drop 0 seed_words))) seed_state0 = seed_state1"
  by code_simp

lemma seed_rounds1:
  "fold hash_round (zip (take 16 (drop 16 round_constants)) (take 16 (drop 16 seed_words))) seed_state1 = seed_state2"
  by code_simp

lemma seed_rounds2:
  "fold hash_round (zip (take 16 (drop 32 round_constants)) (take 16 (drop 32 seed_words))) seed_state2 = seed_state3"
  by code_simp

lemma seed_rounds3:
  "fold hash_round (zip (take 16 (drop 48 round_constants)) (take 16 (drop 48 seed_words))) seed_state3 = seed_state4"
  by code_simp

lemma seed_compress:
  "compress (be_words (padded seed_key)) seed_state0 = add_state seed_state0 seed_state4"
  by (rule compress_in_chunks [OF seed_schedule _ seed_rounds0 seed_rounds1 seed_rounds2 seed_rounds3])
    (simp add: seed_words_def)

lemma seed_padding:
  "length (padded seed_key) div 64 = Suc 0" "take 16 (be_words (padded seed_key)) = be_words (padded seed_key)"
  by code_simp+

lemma seed_digest:
  "EncodeToString (map char_of (state_bytes (add_state seed_state0 seed_state4)))
   = ''2c76897a806f1188dcd9b074b958e6ba88c82fe3eed21d3db25977059ce29417''"
  by code_simp

lemma seed_key_hash:
  "EncodeToString (Sum256 seed_key) = ''2c76897a806f1188dcd9b074b958e6ba88c82fe3eed21d3db25977059ce29417''"
  using seed_digest
  by (simp only: Sum256_def Let_def seed_padding compress_all.simps seed_compress
      seed_state0_def [symmetric] initial_hash_def)

end
