(* ===== verification/Chat_Json.thy ===== *)
theory Chat_Json
  imports Provider Json_Struct Sha256
begin

text \<open>
  How chat requests enter the gateway and responses leave it: the JSON forms of the types of
  \<open>internal/provider/provider.go\<close>, and the keys under which \<open>internal/router/handler.go\<close>
  caches tenants and responses.
\<close>

section \<open>Requests\<close>

definition zero_message :: Message where
  "zero_message = \<lparr>Role = [], Content = []\<rparr>"

definition message_fields :: "(bytes \<times> Message setter) list" where
  "message_fields =
     [(''role'', set_string (\<lambda>s m. m\<lparr>Role := s\<rparr>)), (''content'', set_string (\<lambda>s m. m\<lparr>Content := s\<rparr>))]"

text \<open>A nil and an empty slice of messages behave alike from here on.\<close>

definition zero_request :: ChatRequest where
  "zero_request = \<lparr>ReqModel = [], Messages = [], Stream = False\<rparr>"

definition request_fields :: "(bytes \<times> ChatRequest setter) list" where
  "request_fields =
     [(''model'', set_string (\<lambda>s r. r\<lparr>ReqModel := s\<rparr>)),
      (''messages'', set_slice (\<lambda>r. Some (Messages r)) (\<lambda>l r. r\<lparr>Messages := value_or [] l\<rparr>)
                        (decode_struct message_fields) zero_message),
      (''stream'', set_bool (\<lambda>b r. r\<lparr>Stream := b\<rparr>))]"

definition decode_request :: "bytes \<Rightarrow> ChatRequest \<times> json_error option" where
  "decode_request s = Decode request_fields s zero_request"

definition message_json :: "Message \<Rightarrow> json" where
  "message_json m = JObj [(''role'', JStr (Role m)), (''content'', JStr (Content m))]"

definition request_json :: "ChatRequest \<Rightarrow> json" where
  "request_json r = JObj
     [(''model'', JStr (ReqModel r)), (''messages'', JArr (map message_json (Messages r))), (''stream'', JBool (Stream r))]"

section \<open>Responses\<close>

definition response_json :: "ChatResponse \<Rightarrow> json" where
  "response_json r = JObj
     [(''content'', JStr (RespContent r)), (''model'', JStr (RespModel r)), (''provider'', JStr (RespProvider r)),
      (''prompt_tokens'', json_int (PromptTokens r)), (''completion_tokens'', json_int (CompletionTokens r))]"

definition marshal_response :: "ChatResponse \<Rightarrow> bytes" where
  "marshal_response r = encode (response_json r)"

section \<open>Cache keys\<close>

definition key_hash :: "string \<Rightarrow> string" where
  "key_hash apiKey = EncodeToString (Sum256 apiKey)"

definition tenant_key :: "string \<Rightarrow> string" where
  "tenant_key keyHash = ''tenant:key:'' @ keyHash"

text \<open>The text of a slice of structs under the verb v of \<open>fmt\<close>.\<close>

definition format_message :: "Message \<Rightarrow> string" where
  "format_message m = CHR ''{'' # Role m @ CHR '' '' # Content m @ ''}''"

fun spaced :: "string list \<Rightarrow> string" where
  "spaced [] = []"
| "spaced [w] = w"
| "spaced (w # v # ws) = w @ CHR '' '' # spaced (v # ws)"

definition format_messages :: "Message list \<Rightarrow> string" where
  "format_messages ms = CHR ''['' # spaced (map format_message ms) @ '']''"

definition cache_key :: "string \<Rightarrow> string \<Rightarrow> Message list \<Rightarrow> string" where
  "cache_key tenantID model messages =
     ''cache:'' @ tenantID @ '':'' @ model @ '':'' @ EncodeToString (Sum256 (format_messages messages))"

section \<open>Reading back a request\<close>

lemma ascii_request [simp]:
  "sanitize ''role'' = ''role''" "sanitize ''content'' = ''content''" "sanitize ''model'' = ''model''"
  "sanitize ''messages'' = ''messages''" "sanitize ''stream'' = ''stream''"
  by (simp_all add: sanitize_ascii byte_def)

lemma decode_message: "decode_struct message_fields (message_json m) m0 = (m, None)"
  by (simp add: decode_struct_def message_json_def find_field_def message_fields_def)

lemma decode_messages:
  "decode_elems (decode_struct message_fields) zero_message (map message_json ms) old = (ms, None)"
  by (induction ms arbitrary: old) (auto simp: decode_message)

definition request_valid :: "ChatRequest \<Rightarrow> bool" where
  "request_valid r \<longleftrightarrow> valid_utf8 (ReqModel r) \<and>
     list_all (\<lambda>m. valid_utf8 (Role m) \<and> valid_utf8 (Content m)) (Messages r)"

lemma nesting_message: "nesting (message_json m) = 1"
  by (simp add: message_json_def)

lemma cleaned_message:
  "valid_utf8 (Role m) \<Longrightarrow> valid_utf8 (Content m) \<Longrightarrow> cleaned (message_json m) = message_json m"
  by (simp add: message_json_def valid_utf8_def)

lemma cleaned_request: "request_valid r \<Longrightarrow> cleaned (request_json r) = request_json r"
  by (simp add: request_json_def request_valid_def valid_utf8_def list_all_iff cleaned_message)

lemma printable_request: "printable (request_json r)"
  by (simp add: request_json_def list_all_iff message_json_def)

lemma nesting_request: "nesting (request_json r) \<le> 3"
proof -
  have "Max (insert 0 ((nesting \<circ> message_json) ` set (Messages r))) \<le> 1"
    by (simp add: nesting_message)
  then show ?thesis by (simp add: request_json_def image_image)
qed

text \<open>A well-formed request body, whatever follows it, decodes to the request.\<close>

lemma decode_encoded_request:
  assumes "request_valid r" "number_ends rest"
  shows "decode_request (encode (request_json r) @ rest) = (r, None)"
proof -
  have n: "nesting (request_json r) \<le> max_depth" using nesting_request [of r] by (simp add: max_depth_def)
  have "decode_value (encode (request_json r) @ rest) = Some (request_json r)"
    using decode_encode [OF printable_request n assms(2)] cleaned_request [OF assms(1)] by simp
  moreover have "skip (encode (request_json r) @ rest) \<noteq> []" by (simp add: request_json_def)
  moreover have "decode_struct request_fields (request_json r) zero_request = (r, None)"
    by (simp add: decode_struct_def request_json_def find_field_def request_fields_def set_slice_def
        decode_slice_def decode_messages zero_request_def)
  ultimately show ?thesis by (simp add: decode_request_def Decode_def)
qed

section \<open>Keys are unambiguous up to the text of the messages\<close>

lemma tenant_key_inject: "tenant_key h = tenant_key h' \<longleftrightarrow> h = h'"
  by (simp add: tenant_key_def)

lemma tenant_key_not_cache_key: "tenant_key h \<noteq> cache_key t m ms"
  by (simp add: tenant_key_def cache_key_def)

lemma append_colon_inject:
  assumes "CHR '':'' \<notin> set s" "CHR '':'' \<notin> set t" "s @ CHR '':'' # x = t @ CHR '':'' # y"
  shows "s = t \<and> x = y"
  using assms
proof (induction s arbitrary: t)
  case Nil
  then show ?case by (cases t) auto
next
  case (Cons c s)
  then show ?case by (cases t) auto
qed

lemma cache_key_inject:
  assumes "CHR '':'' \<notin> set t" "CHR '':'' \<notin> set t'" "cache_key t m ms = cache_key t' m' ms'"
  shows "t = t' \<and> m = m' \<and> Sum256 (format_messages ms) = Sum256 (format_messages ms')"
proof -
  let ?h = "EncodeToString (Sum256 (format_messages ms))" and ?h' = "EncodeToString (Sum256 (format_messages ms'))"
  have "t @ CHR '':'' # m @ CHR '':'' # ?h = t' @ CHR '':'' # m' @ CHR '':'' # ?h'"
    using assms(3) by (simp add: cache_key_def)
  from append_colon_inject [OF assms(1,2) this]
  have t: "t = t'" and r: "m @ CHR '':'' # ?h = m' @ CHR '':'' # ?h'" by auto
  have "length ?h = length ?h'" by (simp add: EncodeToString_length Sum256_length)
  with r have "m = m' \<and> ?h = ?h'" by (metis append_eq_append_conv length_Cons list.inject)
  with t show ?thesis by (simp add: EncodeToString_inject)
qed

end
