(* ===== verification/Gateway.thy ===== *)
theory Gateway
  imports Selector Rate_Limit Cache Tenant_Store Log_Event Chat_Json
begin

text \<open>
  \<open>internal/router/handler.go\<close>: the gateway handler, from the API key to the response. It
  composes the components: cache, tenant repository, limiter, selector, providers, monitor
  and logger, each with its own part of the state.

  What the outside contributes to a request is its environment: the clock readings, in the
  order the code takes them, and for a stream the order in which the select sees the events
  of the channels and of the client.
\<close>

section \<open>Requests and responses\<close>

record request =
  api_key :: string
  body :: bytes
  can_flush :: bool

text \<open>What the handler has given to the response writer.\<close>

record response =
  headers :: "string \<rightharpoonup> string"
  code :: "int option"
  written :: bytes

definition no_response :: response where
  "no_response = \<lparr>headers = Map.empty, code = None, written = []\<rparr>"

text \<open>The status sent when none was set is 200.\<close>

definition status_of :: "response \<Rightarrow> int" where
  "status_of r = value_or 200 (code r)"

definition set_header :: "string \<Rightarrow> string \<Rightarrow> response \<Rightarrow> response" where
  "set_header k v r = r\<lparr>headers := (headers r)(k \<mapsto> v)\<rparr>"

text \<open>Only the first status counts.\<close>

definition WriteHeader :: "int \<Rightarrow> response \<Rightarrow> response" where
  "WriteHeader c r = (case code r of None \<Rightarrow> r\<lparr>code := Some c\<rparr> | Some _ \<Rightarrow> r)"

definition Write :: "bytes \<Rightarrow> response \<Rightarrow> response" where
  "Write b r = (WriteHeader 200 r)\<lparr>written := written r @ b\<rparr>"

definition http_Error :: "string \<Rightarrow> int \<Rightarrow> response \<Rightarrow> response" where
  "http_Error msg c r =
     Write (msg @ [CHR 0x0A])
       (WriteHeader c
         (set_header ''X-Content-Type-Options'' ''nosniff''
           (set_header ''Content-Type'' ''text/plain; charset=utf-8''
             (r\<lparr>headers := (headers r)(''Content-Length'' := None)\<rparr>))))"

section \<open>The handler and its state\<close>

record ('c, 'd, 'k, 'w) gateway =
  gw_cache :: "'c cache_ops"
  gw_tenant :: "string \<Rightarrow> 'd \<Rightarrow> Tenant go_result \<times> 'd"
  gw_Log :: "LogEvent \<Rightarrow> 'k \<Rightarrow> go_error option \<times> 'k"
  gw_Broadcast :: "LogEvent \<Rightarrow> 'k \<Rightarrow> go_error option \<times> 'k"
  gw_providers :: "'w provider list"
  gw_pdq :: "('w provider \<Rightarrow> 'w provider \<Rightarrow> bool) \<Rightarrow> 'w provider list \<Rightarrow> 'w provider list"

record ('c, 'd, 'k, 'w) gw_state =
  cache_st :: 'c
  db_st :: 'd
  limiter_st :: TokenBucket
  monitor_st :: EWMAMonitor
  log_st :: 'k
  world :: 'w

datatype stream_event = Chunk ChatChunk | Closed | ErrValue "go_error option" | ClientDone

record environment =
  at_start :: instant
  at_bucket :: instant
  at_refill :: instant
  at_select :: "string \<Rightarrow> instant"
  at_reply :: instant
  at_record :: instant
  at_log :: int
  schedule :: "stream \<Rightarrow> stream_event list"

text \<open>
  The events a select over the two channels and the client's context can see: the chunks in
  order; then the error that was sent, or the closed channels, of which the error channel may
  answer nil any number of times before the chunk channel is seen closed. The client may
  leave at any time.
\<close>

fun possible_schedule :: "ChatChunk list \<Rightarrow> stream_end \<Rightarrow> stream_event list \<Rightarrow> bool" where
  "possible_schedule cs e [] = True"
| "possible_schedule cs e (ClientDone # es) = (es = [])"
| "possible_schedule (c # cs) e (Chunk c' # es) = (c = c' \<and> possible_schedule cs e es)"
| "possible_schedule [] e (Closed # es) = ((\<forall>m. e \<noteq> StreamCrash m) \<and> es = [])"
| "possible_schedule [] e (ErrValue v # es) =
     (case e of
        StreamError x \<Rightarrow> v = Some x \<and> es = []
      | StreamClosed \<Rightarrow> v = None \<and> possible_schedule [] e es
      | StreamCrash m \<Rightarrow> False)"
| "possible_schedule _ _ _ = False"

definition nil_dereference :: string where
  "nil_dereference = ''invalid memory address or nil pointer dereference''"

section \<open>Synchronous requests\<close>

definition log_twice ::
  "('c, 'd, 'k, 'w) gateway \<Rightarrow> LogEvent \<Rightarrow> ('c, 'd, 'k, 'w) gw_state \<Rightarrow> ('c, 'd, 'k, 'w) gw_state" where
  "log_twice g ev st = st\<lparr>log_st := snd (gw_Broadcast g ev (snd (gw_Log g ev (log_st st))))\<rparr>"

definition sync_event :: "Tenant \<Rightarrow> string \<Rightarrow> ChatResponse \<Rightarrow> duration \<Rightarrow> int \<Rightarrow> LogEvent" where
  "sync_event tenant name resp latency stamp =
     zero_event\<lparr>TenantID := ID tenant, LogProvider := name, LogModel := RespModel resp,
       LogPromptTokens := PromptTokens resp, LogCompletionTokens := CompletionTokens resp,
       CostCents := EstimateCost (RespModel resp) (PromptTokens resp) (CompletionTokens resp),
       LatencyMs := Milliseconds latency, Status := 200, Timestamp := stamp\<rparr>"

definition handleSync ::
  "('c, 'd, 'k, 'w) gateway \<Rightarrow> environment \<Rightarrow> 'w provider \<Rightarrow> ChatRequest \<Rightarrow> Tenant \<Rightarrow> string
    \<Rightarrow> response \<Rightarrow> ('c, 'd, 'k, 'w) gw_state \<Rightarrow> response outcome \<times> ('c, 'd, 'k, 'w) gw_state" where
  "handleSync g env p req tenant cacheKey w st =
     (case Chat p None req (world st) of
        (Panic m, wd) \<Rightarrow> (Panic m, st\<lparr>world := wd\<rparr>)
      | (Crash m, wd) \<Rightarrow> (Crash m, st\<lparr>world := wd\<rparr>)
      | (Return result, wd) \<Rightarrow>
          let st1 = st\<lparr>world := wd\<rparr>;
              latency = time_Sub (at_reply env) (at_start env)
          in (case result of
                Inl err \<Rightarrow>
                  (Return (http_Error ''provider_error'' 502 w),
                   st1\<lparr>monitor_st := RecordError (monitor_st st1) (Name p) 500 (at_record env)\<rparr>)
              | Inr resp \<Rightarrow>
                  let st2 = st1\<lparr>monitor_st := RecordSuccess (monitor_st st1) (Name p) latency (at_record env)\<rparr>;
                      st3 = log_twice g (sync_event tenant (Name p) resp latency (at_log env)) st2;
                      respBody = marshal_response resp;
                      st4 = st3\<lparr>cache_st := snd (cache_Set (gw_cache g) cacheKey respBody Hour (cache_st st3))\<rparr>
                  in (Return (Write respBody (set_header ''Content-Type'' ''application/json'' w)), st4)))"

section \<open>Streams\<close>

definition stream_log :: "Tenant \<Rightarrow> string \<Rightarrow> string \<Rightarrow> int \<Rightarrow> int \<Rightarrow> duration \<Rightarrow> int \<Rightarrow> LogEvent" where
  "stream_log tenant name model prompt completion latency stamp =
     zero_event\<lparr>TenantID := ID tenant, LogProvider := name, LogModel := model,
       LogPromptTokens := prompt, LogCompletionTokens := completion,
       LatencyMs := Milliseconds latency, Status := 200, Timestamp := stamp\<rparr>"

definition sse :: "bytes \<Rightarrow> bytes" where
  "sse s = ''data: '' @ s @ [CHR 0x0A, CHR 0x0A]"

text \<open>
  The loop over what the select sees. A schedule is what one request saw to its end. One that
  stops before the chunks are closed and before an error is that of a client that leaves then,
  whether the last event says so or not (lemma \<open>stream_client_gone\<close>): the context is done, the
  loop returns and nothing is logged. Or the producer of the chunks has brought the process down. Every wait of the loop
  ends: an attempt has a deadline up to its first chunk, at the first chunk its context is
  cancelled, and a provider that heeds its context closes the channel of its chunks then.
\<close>

fun stream_events ::
  "('c, 'd, 'k, 'w) gateway \<Rightarrow> environment \<Rightarrow> 'w provider \<Rightarrow> ChatRequest \<Rightarrow> Tenant \<Rightarrow> bool \<Rightarrow> stream_end
    \<Rightarrow> stream_event list \<Rightarrow> int \<Rightarrow> int \<Rightarrow> response \<Rightarrow> ('c, 'd, 'k, 'w) gw_state
    \<Rightarrow> response outcome \<times> ('c, 'd, 'k, 'w) gw_state" where
  "stream_events g env p req tenant flusher e [] prompt completion w st =
     ((case e of StreamCrash m \<Rightarrow> Crash m | _ \<Rightarrow> Return w), st)"
| "stream_events g env p req tenant flusher e (Closed # es) prompt completion w st =
     (Return w,
      log_twice g (stream_log tenant (Name p) (ReqModel req) prompt completion
                     (time_Sub (at_reply env) (at_start env)) (at_log env)) st)"
| "stream_events g env p req tenant flusher e (Chunk chunk # es) prompt completion w st =
     (let w' = Write (sse (ChunkContent chunk)) w
      in if flusher then
           stream_events g env p req tenant flusher e es (wrap64 (prompt + ChunkPromptTokens chunk))
             (wrap64 (completion + ChunkCompletionTokens chunk)) w' st
         else (Panic nil_dereference, st))"
| "stream_events g env p req tenant flusher e (ErrValue (Some err) # es) prompt completion w st =
     (Return w, st\<lparr>monitor_st := RecordError (monitor_st st) (Name p) 502 (at_record env)\<rparr>)"
| "stream_events g env p req tenant flusher e (ErrValue None # es) prompt completion w st =
     stream_events g env p req tenant flusher e es prompt completion w st"
| "stream_events g env p req tenant flusher e (ClientDone # es) prompt completion w st = (Return w, st)"

definition handleStream ::
  "('c, 'd, 'k, 'w) gateway \<Rightarrow> environment \<Rightarrow> 'w provider \<Rightarrow> ChatRequest \<Rightarrow> Tenant \<Rightarrow> bool
    \<Rightarrow> response \<Rightarrow> ('c, 'd, 'k, 'w) gw_state \<Rightarrow> response outcome \<times> ('c, 'd, 'k, 'w) gw_state" where
  "handleStream g env p req tenant flusher w st =
     (case ChatStream p None None req (world st) of
        (Panic m, wd) \<Rightarrow> (Panic m, st\<lparr>world := wd\<rparr>)
      | (Crash m, wd) \<Rightarrow> (Crash m, st\<lparr>world := wd\<rparr>)
      | (Return s, wd) \<Rightarrow>
          stream_events g env p req tenant flusher (ended s) (schedule env s) 0 0
            (set_header ''Connection'' ''keep-alive''
              (set_header ''Cache-Control'' ''no-cache''
                (set_header ''Content-Type'' ''text/event-stream'' w)))
            (st\<lparr>world := wd\<rparr>))"

section \<open>ServeHTTP\<close>

text \<open>Steps 5 and 6: the response cache, routing and dispatch.\<close>

definition serve_dispatch ::
  "('c, 'd, 'k, 'w) gateway \<Rightarrow> environment \<Rightarrow> bool \<Rightarrow> ChatRequest \<Rightarrow> Tenant \<Rightarrow> string
    \<Rightarrow> ('c, 'd, 'k, 'w) gw_state \<Rightarrow> response outcome \<times> ('c, 'd, 'k, 'w) gw_state" where
  "serve_dispatch g env flusher chatReq tenant cacheKey st =
     (let (sel, m) = Select (gw_pdq g) (at_select env) (monitor_st st) (gw_providers g)
                       (value_or [] (ProviderAllowlist tenant));
          st1 = st\<lparr>monitor_st := m\<rparr>
      in (case sel of
            None \<Rightarrow> (Return (http_Error ''no_available_providers'' 503 no_response), st1)
          | Some p \<Rightarrow>
              if Stream chatReq then handleStream g env p chatReq tenant flusher no_response st1
              else handleSync g env p chatReq tenant cacheKey no_response st1))"

definition hit_response :: "bytes \<Rightarrow> response" where
  "hit_response cached =
     Write cached (set_header ''X-Cache'' ''HIT'' (set_header ''Content-Type'' ''application/json'' no_response))"

definition serve_request ::
  "('c, 'd, 'k, 'w) gateway \<Rightarrow> environment \<Rightarrow> bool \<Rightarrow> ChatRequest \<Rightarrow> Tenant
    \<Rightarrow> ('c, 'd, 'k, 'w) gw_state \<Rightarrow> response outcome \<times> ('c, 'd, 'k, 'w) gw_state" where
  "serve_request g env flusher chatReq tenant st =
     (let cacheKey = cache_key (ID tenant) (ReqModel chatReq) (Messages chatReq)
      in if Stream chatReq then serve_dispatch g env flusher chatReq tenant cacheKey st
         else
           (case cache_Get (gw_cache g) cacheKey (cache_st st) of
              (Inr (Some cached), c) \<Rightarrow> (Return (hit_response cached), st\<lparr>cache_st := c\<rparr>)
            | (_, c) \<Rightarrow> serve_dispatch g env flusher chatReq tenant cacheKey (st\<lparr>cache_st := c\<rparr>)))"

text \<open>Steps 2 to 4: budget, rate limit and the body.\<close>

definition budget_exhausted :: "Tenant \<Rightarrow> bool" where
  "budget_exhausted t \<longleftrightarrow> 0 < BudgetCents t \<and> BudgetCents t \<le> SpentCents t"

definition serve_tenant ::
  "('c, 'd, 'k, 'w) gateway \<Rightarrow> environment \<Rightarrow> request \<Rightarrow> Tenant
    \<Rightarrow> ('c, 'd, 'k, 'w) gw_state \<Rightarrow> response outcome \<times> ('c, 'd, 'k, 'w) gw_state" where
  "serve_tenant g env r tenant st =
     (if budget_exhausted tenant then (Return (http_Error ''budget_exhausted'' 402 no_response), st)
      else
        let (rl, tb) = Allow (limiter_st st) (ID tenant) (RateLimitRPM tenant) (at_bucket env) (at_refill env);
            st1 = st\<lparr>limiter_st := tb\<rparr>
        in if \<not> admits rl then
             (Return (http_Error ''rate_limited'' 429 (set_header ''Retry-After'' ''1'' no_response)), st1)
           else
             (case decode_request (body r) of
                (chatReq, Some err) \<Rightarrow> (Return (http_Error ''invalid_request'' 400 no_response), st1)
              | (chatReq, None) \<Rightarrow> serve_request g env (can_flush r) chatReq tenant st1))"

text \<open>Step 1: the tenant, from the cache or the repository. A nil tenant is \<open>None\<close>.\<close>

definition lookup_tenant ::
  "('c, 'd, 'k, 'w) gateway \<Rightarrow> string \<Rightarrow> ('c, 'd, 'k, 'w) gw_state
    \<Rightarrow> Tenant option go_result \<times> ('c, 'd, 'k, 'w) gw_state" where
  "lookup_tenant g keyHash st =
     (case cache_Get (gw_cache g) (tenant_key keyHash) (cache_st st) of
        (Inr (Some cached), c) \<Rightarrow> (Inr (fst (unmarshal_tenant cached)), st\<lparr>cache_st := c\<rparr>)
      | (_, c) \<Rightarrow>
          (case gw_tenant g keyHash (db_st st) of
             (Inl err, d) \<Rightarrow> (Inl err, st\<lparr>cache_st := c, db_st := d\<rparr>)
           | (Inr tenant, d) \<Rightarrow>
               (Inr (Some tenant),
                st\<lparr>db_st := d,
                   cache_st := snd (cache_Set (gw_cache g) (tenant_key keyHash) (marshal_tenant tenant) (5 * Minute) c)\<rparr>)))"

definition ServeHTTP ::
  "('c, 'd, 'k, 'w) gateway \<Rightarrow> environment \<Rightarrow> request \<Rightarrow> ('c, 'd, 'k, 'w) gw_state
    \<Rightarrow> response outcome \<times> ('c, 'd, 'k, 'w) gw_state" where
  "ServeHTTP g env r st =
     (if api_key r = [] then (Return (http_Error ''missing_api_key'' 401 no_response), st)
      else
        (case lookup_tenant g (key_hash (api_key r)) st of
           (Inl err, st1) \<Rightarrow> (Return (http_Error ''invalid_api_key'' 401 no_response), st1)
         | (Inr None, st1) \<Rightarrow> (Panic nil_dereference, st1)
         | (Inr (Some tenant), st1) \<Rightarrow> serve_tenant g env r tenant st1))"

end
