(* ===== verification/Gateway_Correct.thy ===== *)
theory Gateway_Correct
  imports Gateway Rate_Limit_Correct Selector_Properties
begin

text \<open>
  What the gateway handler relies on, as a locale over its cache and its tenant repository,
  and the lemmas on each stage of a request: what it may change, and what it keeps.
\<close>

section \<open>The tenant repository as the handler uses it\<close>

locale tenant_lookup =
  fixes find_tenant :: "string \<Rightarrow> 'd \<Rightarrow> Tenant go_result \<times> 'd"
    and db_inv :: "'d \<Rightarrow> bool"
  assumes found: "db_inv d \<Longrightarrow> find_tenant h d = (Inr t, d') \<Longrightarrow> APIKeyHash t = h \<and> tenant_valid t"
    and lookup_keeps: "db_inv d \<Longrightarrow> db_inv (snd (find_tenant h d))"

definition table_valid :: "tenants_table \<Rightarrow> bool" where
  "table_valid tbl \<longleftrightarrow> (\<forall>r \<in> set tbl. tenant_valid (row_tenant r))"

interpretation postgres_lookup: tenant_lookup "GetTenantByAPIKeyHash f" table_valid for f
proof
  fix tbl tbl' :: tenants_table and h t
  assume v: "table_valid tbl"
  show "table_valid (snd (GetTenantByAPIKeyHash f h tbl))"
    using v by (simp add: GetTenantByAPIKeyHash_def deliver_def split: pg_fault.split option.split)
  assume "GetTenantByAPIKeyHash f h tbl = (Inr t, tbl')"
  then obtain r where r: "find (\<lambda>r. APIKeyHash (row_tenant r) = h) tbl = Some r" "t = row_tenant r"
    by (auto simp: GetTenantByAPIKeyHash_def deliver_def split: pg_fault.splits option.splits)
  then have "r \<in> set tbl" "APIKeyHash (row_tenant r) = h" by (auto simp: find_Some_iff)
  with v r(2) show "APIKeyHash t = h \<and> tenant_valid t" by (simp add: table_valid_def)
qed

section \<open>The components of a gateway\<close>

locale gateway_env =
  cache: byte_cache "gw_cache g" holds + repo: tenant_lookup "gw_tenant g" db_inv
  for g :: "('c, 'd, 'k, 'w) gateway" and holds :: "'c \<Rightarrow> string \<Rightarrow> bytes \<Rightarrow> bool" and db_inv :: "'d \<Rightarrow> bool"

text \<open>The gateway of \<open>main.go\<close> over PostgreSQL, with either cache.\<close>

definition gateway_over ::
  "'c cache_ops \<Rightarrow> pg_fault \<Rightarrow> (LogEvent \<Rightarrow> 'k \<Rightarrow> go_error option \<times> 'k) \<Rightarrow> (LogEvent \<Rightarrow> 'k \<Rightarrow> go_error option \<times> 'k)
    \<Rightarrow> 'w provider list \<Rightarrow> (('w provider \<Rightarrow> 'w provider \<Rightarrow> bool) \<Rightarrow> 'w provider list \<Rightarrow> 'w provider list)
    \<Rightarrow> ('c, tenants_table, 'k, 'w) gateway" where
  "gateway_over c f emit broadcast ps pdq =
     \<lparr>gw_cache = c, gw_tenant = GetTenantByAPIKeyHash f, gw_Log = emit, gw_Broadcast = broadcast,
      gw_providers = ps, gw_pdq = pdq\<rparr>"

interpretation memory_gateway:
  gateway_env "gateway_over memory_cache f emit broadcast ps pdq" "\<lambda>m k v. data m k = Some v" table_valid
  for f emit broadcast ps pdq
  by unfold_locales
    (auto simp: gateway_over_def dest: memory.hit_held memory.get_keeps memory.set_adds
      postgres_lookup.found intro: postgres_lookup.lookup_keeps)

lemma two_tier_gateway:
  assumes "honest_backend lag T c"
  shows "gateway_env (gateway_over (TwoTierCache c) f emit broadcast ps pdq) (tier_holds T) table_valid"
  using two_tier_contract [OF assms] postgres_lookup.tenant_lookup_axioms
  by (simp add: gateway_env_def gateway_over_def)

section \<open>What each stage leaves alone\<close>

lemma log_twice_frame [simp]:
  "cache_st (log_twice g ev st) = cache_st st" "db_st (log_twice g ev st) = db_st st"
  "limiter_st (log_twice g ev st) = limiter_st st" "monitor_st (log_twice g ev st) = monitor_st st"
  "world (log_twice g ev st) = world st"
  by (simp_all add: log_twice_def)

lemma log_twice_log:
  "log_st (log_twice g ev st) = snd (gw_Broadcast g ev (snd (gw_Log g ev (log_st st))))"
  by (simp add: log_twice_def)

text \<open>A schedule that stops early is that of a client that leaves then.\<close>

lemma stream_client_gone:
  "(\<And>m. e \<noteq> StreamCrash m) \<Longrightarrow>
     stream_events g env p req t fl e (es @ [ClientDone]) a b w st = stream_events g env p req t fl e es a b w st"
  by (induction g env p req t fl e es a b w st rule: stream_events.induct)
    (simp_all add: Let_def split: stream_end.split)

lemma stream_events_frame:
  "cache_st (snd (stream_events g env p req t fl e es a b w st)) = cache_st st
   \<and> db_st (snd (stream_events g env p req t fl e es a b w st)) = db_st st
   \<and> limiter_st (snd (stream_events g env p req t fl e es a b w st)) = limiter_st st
   \<and> world (snd (stream_events g env p req t fl e es a b w st)) = world st"
  by (induction g env p req t fl e es a b w st rule: stream_events.induct) (simp_all add: Let_def)

lemma handleStream_frame:
  "cache_st (snd (handleStream g env p req t fl w st)) = cache_st st"
  "db_st (snd (handleStream g env p req t fl w st)) = db_st st"
  "limiter_st (snd (handleStream g env p req t fl w st)) = limiter_st st"
  by (simp_all add: handleStream_def stream_events_frame split: prod.split outcome.split)

lemma handleSync_frame:
  "db_st (snd (handleSync g env p req t k w st)) = db_st st"
  "limiter_st (snd (handleSync g env p req t k w st)) = limiter_st st"
  by (simp_all add: handleSync_def Let_def split: prod.split outcome.split sum.split)

lemma serve_dispatch_frame:
  "db_st (snd (serve_dispatch g env fl req t k st)) = db_st st"
  "limiter_st (snd (serve_dispatch g env fl req t k st)) = limiter_st st"
  by (simp_all add: serve_dispatch_def Let_def handleStream_frame handleSync_frame split: prod.split option.split)

lemma serve_request_frame:
  "db_st (snd (serve_request g env fl req t st)) = db_st st"
  "limiter_st (snd (serve_request g env fl req t st)) = limiter_st st"
  by (simp_all add: serve_request_def Let_def serve_dispatch_frame split: prod.split sum.split option.split)

lemma serve_tenant_frame: "db_st (snd (serve_tenant g env r t st)) = db_st st"
  by (simp add: serve_tenant_def Let_def serve_request_frame split: prod.split option.split)

lemma lookup_frame:
  assumes "lookup_tenant g h st = (res, st1)"
  shows "limiter_st st1 = limiter_st st" "monitor_st st1 = monitor_st st" "log_st st1 = log_st st" "world st1 = world st"
  using assms by (auto simp: lookup_tenant_def split: prod.splits sum.splits option.splits)

text \<open>The order of the checks, with the limiter's and the decoder's answers named.\<close>

lemma serve_tenant_stages:
  assumes "Allow (limiter_st st) (ID t) (RateLimitRPM t) (at_bucket env) (at_refill env) = (rl, tb)"
    and "decode_request (body r) = (req, err)"
  shows "serve_tenant g env r t st =
    (if budget_exhausted t then (Return (http_Error ''budget_exhausted'' 402 no_response), st)
     else if \<not> admits rl then
       (Return (http_Error ''rate_limited'' 429 (set_header ''Retry-After'' ''1'' no_response)), st\<lparr>limiter_st := tb\<rparr>)
     else if err \<noteq> None then (Return (http_Error ''invalid_request'' 400 no_response), st\<lparr>limiter_st := tb\<rparr>)
     else serve_request g env (can_flush r) req t (st\<lparr>limiter_st := tb\<rparr>))"
  using assms by (cases err) (simp_all add: serve_tenant_def)

section \<open>The invariant\<close>

text \<open>A tenant entry of the cache is the JSON of a tenant with the hash of its key.\<close>

definition authentic :: "string \<Rightarrow> bytes \<Rightarrow> bool" where
  "authentic k v \<longleftrightarrow>
     (\<forall>h. k = tenant_key h \<longrightarrow> (\<exists>t. v = marshal_tenant t \<and> APIKeyHash t = h \<and> tenant_valid t))"

lemma authentic_tenant: "APIKeyHash t = h \<Longrightarrow> tenant_valid t \<Longrightarrow> authentic (tenant_key h) (marshal_tenant t)"
  by (auto simp: authentic_def tenant_key_inject)

text \<open>A property of cache entries that says nothing of answers.\<close>

definition any_response :: "(string \<Rightarrow> bytes \<Rightarrow> bool) \<Rightarrow> bool" where
  "any_response P \<longleftrightarrow> (\<forall>t m ms v. P (cache_key t m ms) v)"

lemma any_response_authentic: "any_response authentic"
  unfolding any_response_def authentic_def using tenant_key_not_cache_key by metis

context gateway_env
begin

definition gw_inv :: "('c, 'd, 'k, 'w) gw_state \<Rightarrow> bool" where
  "gw_inv st \<longleftrightarrow> cache.guarded authentic (cache_st st) \<and> db_inv (db_st st)"

lemma guarded_after_get:
  "cache.guarded P c \<Longrightarrow> cache_Get (gw_cache g) k c = (r, c') \<Longrightarrow> cache.guarded P c'"
  using cache.guarded_get [of P c k] by simp

lemma lookup_sound:
  assumes "gw_inv st" "lookup_tenant g h st = (res, st1)"
  shows "gw_inv st1 \<and> ((\<exists>e. res = Inl e) \<or> (\<exists>t. res = Inr (Some t) \<and> APIKeyHash t = h \<and> tenant_valid t))"
proof -
  obtain r c where c: "cache_Get (gw_cache g) (tenant_key h) (cache_st st) = (r, c)" by fastforce
  have g1: "cache.guarded authentic c" and d: "db_inv (db_st st)"
    using assms(1) guarded_after_get [OF _ c] by (auto simp: gw_inv_def)
  show ?thesis
  proof (cases "\<exists>v. r = Inr (Some v)")
    case True
    then obtain v where v: "r = Inr (Some v)" by blast
    have "authentic (tenant_key h) v"
      using assms(1) c v cache.guarded_hit by (fastforce simp: gw_inv_def)
    then obtain t where t: "v = marshal_tenant t" "APIKeyHash t = h" "tenant_valid t"
      by (auto simp: authentic_def)
    then show ?thesis
      using assms(2) c v g1 d by (auto simp: lookup_tenant_def unmarshal_marshal_tenant gw_inv_def)
  next
    case False
    obtain x d1 where x: "gw_tenant g h (db_st st) = (x, d1)" by fastforce
    have d1: "db_inv d1" using repo.lookup_keeps [OF d, of h] x by simp
    have eq: "lookup_tenant g h st = (case x of
        Inl err \<Rightarrow> (Inl err, st\<lparr>cache_st := c, db_st := d1\<rparr>)
      | Inr t \<Rightarrow> (Inr (Some t), st\<lparr>db_st := d1,
           cache_st := snd (cache_Set (gw_cache g) (tenant_key h) (marshal_tenant t) (5 * Minute) c)\<rparr>))"
      using False c x by (auto simp: lookup_tenant_def split: sum.split option.split)
    show ?thesis
    proof (cases x)
      case (Inl e)
      then show ?thesis using assms(2) eq g1 d1 by (auto simp: gw_inv_def)
    next
      case (Inr t)
      have t: "APIKeyHash t = h" "tenant_valid t" using repo.found [OF d] x Inr by auto
      then have "cache.guarded authentic (snd (cache_Set (gw_cache g) (tenant_key h) (marshal_tenant t) (5 * Minute) c))"
        by (intro cache.guarded_set g1 authentic_tenant)
      then show ?thesis using assms(2) eq Inr t d1 by (auto simp: gw_inv_def)
    qed
  qed
qed

text \<open>What holds of tenant entries and of every answer is kept by all stages after the lookup.\<close>

lemma guarded_response:
  "any_response P \<Longrightarrow> cache.guarded P c \<Longrightarrow> cache.guarded P (snd (cache_Set (gw_cache g) (cache_key t m ms) v ttl c))"
  by (rule cache.guarded_set) (auto simp: any_response_def)

lemma handleSync_guarded:
  "any_response P \<Longrightarrow> cache.guarded P (cache_st st) \<Longrightarrow>
     cache.guarded P (cache_st (snd (handleSync g env p req t (cache_key u m ms) w st)))"
  by (auto simp: handleSync_def Let_def guarded_response split: prod.split outcome.split sum.split)

lemma serve_request_guarded:
  assumes "any_response P" "cache.guarded P (cache_st st)"
  shows "cache.guarded P (cache_st (snd (serve_request g env fl req t st)))"
proof -
  have d: "cache.guarded P (cache_st (snd (serve_dispatch g env fl req t (cache_key u m ms) st')))"
    if "cache.guarded P (cache_st st')" for st' u m ms
    using assms(1) that
    by (auto simp: serve_dispatch_def Let_def handleStream_frame handleSync_guarded split: prod.split option.split)
  show ?thesis
    using assms(2) d guarded_after_get
    by (fastforce simp: serve_request_def Let_def split: prod.split sum.split option.split)
qed

lemma serve_tenant_guarded:
  "any_response P \<Longrightarrow> cache.guarded P (cache_st st) \<Longrightarrow> cache.guarded P (cache_st (snd (serve_tenant g env r t st)))"
  by (auto simp: serve_tenant_def Let_def split: prod.split option.split intro!: serve_request_guarded)

lemma lookup_tenant_guarded:
  assumes "cache.guarded P (cache_st st)" "lookup_tenant g h st = (res, st1)"
    and "\<And>t d. gw_tenant g h (db_st st) = (Inr t, d) \<Longrightarrow> P (tenant_key h) (marshal_tenant t)"
  shows "cache.guarded P (cache_st st1)"
proof -
  obtain r c where c: "cache_Get (gw_cache g) (tenant_key h) (cache_st st) = (r, c)" by fastforce
  have "cache.guarded P c" using guarded_after_get [OF assms(1) c] .
  then show ?thesis
    using assms(2,3) c
    by (auto simp: lookup_tenant_def intro!: cache.guarded_set split: sum.splits option.splits prod.splits)
qed

lemma serve_tenant_inv: "gw_inv st \<Longrightarrow> gw_inv (snd (serve_tenant g env r t st))"
  using serve_tenant_guarded [OF any_response_authentic] by (simp add: gw_inv_def serve_tenant_frame)

lemma ServeHTTP_inv: "gw_inv st \<Longrightarrow> gw_inv (snd (ServeHTTP g env r st))"
  using lookup_sound [of st "key_hash (api_key r)"]
  by (auto simp: ServeHTTP_def split: prod.split sum.split option.split intro!: serve_tenant_inv)

text \<open>How a request is authenticated.\<close>

lemma ServeHTTP_authenticates:
  assumes "gw_inv st" "api_key r \<noteq> []"
  obtains (refused) st1 where "ServeHTTP g env r st = (Return (http_Error ''invalid_api_key'' 401 no_response), st1)"
      "limiter_st st1 = limiter_st st" "monitor_st st1 = monitor_st st" "log_st st1 = log_st st" "world st1 = world st"
  | (served) t st1 where "APIKeyHash t = key_hash (api_key r)" "tenant_valid t" "gw_inv st1"
      "lookup_tenant g (key_hash (api_key r)) st = (Inr (Some t), st1)"
      "ServeHTTP g env r st = serve_tenant g env r t st1"
proof -
  obtain res st1 where l: "lookup_tenant g (key_hash (api_key r)) st = (res, st1)" by fastforce
  note s = lookup_sound [OF assms(1) l] and f = lookup_frame [OF l]
  show thesis
  proof (cases res)
    case (Inl e)
    then show thesis using refused [of st1] assms(2) l f by (simp add: ServeHTTP_def)
  next
    case (Inr x)
    then obtain t where "res = Inr (Some t)" "APIKeyHash t = key_hash (api_key r)" "tenant_valid t" using s by auto
    then show thesis using served [of t st1] assms(2) l s by (simp add: ServeHTTP_def)
  qed
qed

end

section \<open>Statuses\<close>

lemma status_simps [simp]:
  "status_of (http_Error m c r) = value_or c (code r)"
  "status_of (Write b r) = value_or 200 (code r)"
  "status_of (set_header k v r) = status_of r"
  "code (set_header k v r) = code r"
  "code (Write b r) = Some (value_or 200 (code r))"
  "code no_response = None"
  "written no_response = []"
  "written (Write b r) = written r @ b"
  "written (set_header k v r) = written r"
  "headers (Write b r) = headers r"
  "headers (set_header k v r) = (headers r)(k \<mapsto> v)"
  "headers no_response = Map.empty"
  by (auto simp: status_of_def http_Error_def Write_def WriteHeader_def set_header_def no_response_def value_or_def
      split: option.splits)

lemma stream_events_status:
  "fst (stream_events g env p req t fl e es a b w st) = Return w' \<Longrightarrow> code w = None \<or> code w = Some 200 \<Longrightarrow>
     code w' = None \<or> code w' = Some 200"
  by (induction g env p req t fl e es a b w st rule: stream_events.induct)
    (auto simp: Let_def value_or_def split: if_splits stream_end.splits)

lemma serve_dispatch_status:
  assumes "fst (serve_dispatch g env fl req t k st) = Return w"
  shows "status_of w \<in> {200, 502, 503}"
proof -
  have "status_of w = 200" if "fst (handleStream g env p req t fl no_response st') = Return w" for p st'
    using that stream_events_status [of g env p req t fl _ _ 0 0 _ _ w]
    by (fastforce simp: handleStream_def status_of_def split: prod.splits outcome.splits)
  moreover have "status_of w \<in> {200, 502}" if "fst (handleSync g env p req t k no_response st') = Return w" for p st'
    using that by (auto simp: handleSync_def Let_def split: prod.splits outcome.splits sum.splits)
  ultimately show ?thesis
    using assms by (fastforce simp: serve_dispatch_def Let_def split: prod.splits option.splits if_splits)
qed

lemma hit_response_simps [simp]:
  "status_of (hit_response b) = 200" "written (hit_response b) = b" "headers (hit_response b) ''X-Cache'' = Some ''HIT''"
  by (simp_all add: hit_response_def)

lemma serve_request_status:
  assumes "fst (serve_request g env fl req t st) = Return w"
  shows "status_of w \<in> {200, 502, 503}"
  using assms serve_dispatch_status
  by (fastforce simp: serve_request_def Let_def split: prod.splits sum.splits option.splits if_splits)

section \<open>Synchronous answers\<close>

lemma Select_eligible:
  assumes "length ps \<le> 12" "Select pdq clock m ps al = (Some p, m')"
  shows "p \<in> set (filter (eligible m al) ps)"
proof -
  let ?cs = "filter (eligible m al) ps" and ?m = "fold perform_call (asked al clock ps) m"
  have "length ?cs \<le> 12" using assms(1) length_filter_le le_trans by blast
  then have "sort_Slice pdq (faster ?m clock) ?cs = insertion_sort (faster ?m clock) ?cs" by (simp add: sort_Slice_def)
  moreover have "?cs \<noteq> []" "p = hd (sort_Slice pdq (faster ?m clock) ?cs)"
    using assms(2) by (auto simp: Select_parts Let_def split: if_splits)
  ultimately have "p \<in> set (insertion_sort (faster ?m clock) ?cs)"
    using insertion.srt_empty [of "faster ?m clock" ?cs] by simp
  then show ?thesis by (simp add: insertion.srt_set)
qed

lemma Select_member:
  "length ps \<le> 12 \<Longrightarrow> Select pdq clock m ps al = (Some p, m') \<Longrightarrow> p \<in> set ps"
  using Select_eligible by fastforce


definition billed :: "('c, 'd, 'k, 'w) gateway \<Rightarrow> LogEvent \<Rightarrow> 'k \<Rightarrow> 'k" where
  "billed g ev k = snd (gw_Broadcast g ev (snd (gw_Log g ev k)))"

lemma handleSync_answer:
  assumes "handleSync g env p req t k w0 st = (Return w, st')" "status_of w = 200" "code w0 = None" "written w0 = []"
  shows "\<exists>resp. Chat p None req (world st) = (Return (Inr resp), world st') \<and> written w = marshal_response resp
     \<and> headers w = (headers w0)(''Content-Type'' \<mapsto> ''application/json'')
     \<and> cache_st st' = snd (cache_Set (gw_cache g) k (marshal_response resp) Hour (cache_st st))
     \<and> log_st st' = billed g (sync_event t (Name p) resp (time_Sub (at_reply env) (at_start env)) (at_log env)) (log_st st)"
  using assms
  by (auto simp: handleSync_def Let_def log_twice_log billed_def split: prod.splits outcome.splits sum.splits)

text \<open>A request that passed the limiter is answered 200 from the cache or by a provider.\<close>

lemma serve_request_answer:
  assumes "serve_request g env fl req t st = (Return w, st')" "status_of w = 200" "\<not> Stream req"
    and "length (gw_providers g) \<le> 12"
  defines "key \<equiv> cache_key (ID t) (ReqModel req) (Messages req)"
  shows "(cache_Get (gw_cache g) key (cache_st st) = (Inr (Some (written w)), cache_st st') \<and>
            w = hit_response (written w) \<and> world st' = world st \<and> log_st st' = log_st st \<and> monitor_st st' = monitor_st st)
       \<or> (\<exists>p resp. p \<in> set (gw_providers g) \<and> Chat p None req (world st) = (Return (Inr resp), world st')
            \<and> written w = marshal_response resp \<and> headers w ''X-Cache'' = None
            \<and> cache_st st' = snd (cache_Set (gw_cache g) key (marshal_response resp) Hour (snd (cache_Get (gw_cache g) key (cache_st st))))
            \<and> log_st st' = billed g (sync_event t (Name p) resp (time_Sub (at_reply env) (at_start env)) (at_log env)) (log_st st))"
proof -
  obtain r c where c: "cache_Get (gw_cache g) key (cache_st st) = (r, c)" by fastforce
  show ?thesis
  proof (cases "\<exists>v. r = Inr (Some v)")
    case True
    then obtain v where "r = Inr (Some v)" by blast
    then have "w = hit_response v" "st' = st\<lparr>cache_st := c\<rparr>"
      using assms(1,3) c by (simp_all add: serve_request_def key_def Let_def)
    then show ?thesis using c \<open>r = _\<close> by simp
  next
    case False
    let ?st = "st\<lparr>cache_st := c\<rparr>"
    have d: "serve_dispatch g env fl req t key ?st = (Return w, st')"
      using assms(1,3) c False by (auto simp: serve_request_def key_def Let_def split: sum.splits option.splits)
    obtain sel m where s: "Select (gw_pdq g) (at_select env) (monitor_st st) (gw_providers g)
        (value_or [] (ProviderAllowlist t)) = (sel, m)" by fastforce
    have "sel \<noteq> None"
      using d assms(2) s by (cases sel) (auto simp: serve_dispatch_def Let_def)
    then obtain p where p: "sel = Some p" by blast
    have "p \<in> set (gw_providers g)" using Select_member [OF assms(4)] s p by blast
    moreover have "handleSync g env p req t key no_response (?st\<lparr>monitor_st := m\<rparr>) = (Return w, st')"
      using d assms(3) s p by (simp add: serve_dispatch_def)
    from handleSync_answer [OF this assms(2)]
    obtain resp where "Chat p None req (world st) = (Return (Inr resp), world st')" "written w = marshal_response resp"
      "headers w = Map.empty(''Content-Type'' \<mapsto> ''application/json'')"
      "cache_st st' = snd (cache_Set (gw_cache g) key (marshal_response resp) Hour c)"
      "log_st st' = billed g (sync_event t (Name p) resp (time_Sub (at_reply env) (at_start env)) (at_log env)) (log_st st)"
      by auto
    ultimately show ?thesis using c by auto
  qed
qed

text \<open>Stages before it, for a request that was answered at all.\<close>

lemma ServeHTTP_stages:
  assumes "ServeHTTP g env r st = (Return w, st')" "status_of w \<notin> {400, 401, 402, 429}"
  obtains t st1 rl tb req where "lookup_tenant g (key_hash (api_key r)) st = (Inr (Some t), st1)"
    "\<not> budget_exhausted t" "Allow (limiter_st st) (ID t) (RateLimitRPM t) (at_bucket env) (at_refill env) = (rl, tb)"
    "admits rl" "decode_request (body r) = (req, None)"
    "serve_request g env (can_flush r) req t (st1\<lparr>limiter_st := tb\<rparr>) = (Return w, st')"
proof -
  obtain res st1 where l: "lookup_tenant g (key_hash (api_key r)) st = (res, st1)" by fastforce
  obtain t where t: "res = Inr (Some t)" "serve_tenant g env r t st1 = (Return w, st')"
    using assms l by (auto simp: ServeHTTP_def split: if_splits sum.splits option.splits)
  obtain rl tb where a: "Allow (limiter_st st1) (ID t) (RateLimitRPM t) (at_bucket env) (at_refill env) = (rl, tb)"
    by fastforce
  obtain req err where d: "decode_request (body r) = (req, err)" by fastforce
  have "\<not> budget_exhausted t" "admits rl" "err = None"
    "serve_request g env (can_flush r) req t (st1\<lparr>limiter_st := tb\<rparr>) = (Return w, st')"
    using t(2) a d assms(2) by (auto simp: serve_tenant_def Let_def split: if_splits option.splits)
  then show thesis
    using that [of t st1 rl tb req] l t(1) a d lookup_frame(1) [OF l] by simp
qed

end
