(* ===== verification/Gateway_Properties.thy ===== *)
theory Gateway_Properties
  imports Gateway_Correct
begin

text \<open>The properties of the gateway handler.\<close>

section \<open>A gateway to try them on\<close>

text \<open>
  The seeded tenant, one provider that always answers, the in-memory cache, and a log that
  keeps the events.
\<close>

definition seed_hash :: string where
  "seed_hash = ''2c76897a806f1188dcd9b074b958e6ba88c82fe3eed21d3db25977059ce29417''"

definition seed_tenant :: Tenant where
  "seed_tenant = \<lparr>ID = ''5e1f'', TenantName = ''Test Tenant'', APIKeyHash = seed_hash, RateLimitRPM = 100,
     BudgetCents = 5000, SpentCents = 0, ProviderAllowlist = Some [], IsActive = True\<rparr>"

definition hello :: ChatResponse where
  "hello = \<lparr>RespContent = ''hello'', RespModel = ''gpt-4o'', RespProvider = ''openai'', PromptTokens = 10, CompletionTokens = 20\<rparr>"

definition hello_provider :: "nat provider" where
  "hello_provider = \<lparr>Name = ''openai'', Chat = (\<lambda>t req n. (Return (Inr hello), Suc n)),
     ChatStream = (\<lambda>t c req n. (Return \<lparr>sent = [], ended = StreamClosed\<rparr>, Suc n))\<rparr>"

definition hello_logging ::
  "(LogEvent \<Rightarrow> 'k \<Rightarrow> go_error option \<times> 'k) \<Rightarrow> (LogEvent \<Rightarrow> 'k \<Rightarrow> go_error option \<times> 'k)
    \<Rightarrow> (MemoryCache, tenants_table, 'k, nat) gateway" where
  "hello_logging emit broadcast = gateway_over memory_cache Delivered emit broadcast [hello_provider] (\<lambda>_ ps. ps)"

definition hello_gateway :: "(MemoryCache, tenants_table, LogEvent list, nat) gateway" where
  "hello_gateway = gateway_over memory_cache Delivered (\<lambda>e k. (None, k @ [e])) (\<lambda>e k. (None, k))
     [hello_provider] (\<lambda>_ ps. ps)"

definition hello_from :: "'k \<Rightarrow> (MemoryCache, tenants_table, 'k, nat) gw_state" where
  "hello_from k = \<lparr>cache_st = NewMemoryCache, db_st = [\<lparr>row_tenant = seed_tenant, row_created_at = 0\<rparr>],
     limiter_st = NewTokenBucket (100 * Millisecond), monitor_st = NewEWMAMonitor, log_st = k, world = 0\<rparr>"

definition hello_state :: "(MemoryCache, tenants_table, LogEvent list, nat) gw_state" where
  "hello_state = \<lparr>cache_st = NewMemoryCache, db_st = [\<lparr>row_tenant = seed_tenant, row_created_at = 0\<rparr>],
     limiter_st = NewTokenBucket (100 * Millisecond), monitor_st = NewEWMAMonitor, log_st = [], world = 0\<rparr>"

lemma hello_instance:
  "hello_gateway = hello_logging (\<lambda>e k. (None, k @ [e])) (\<lambda>e k. (None, k))" "hello_state = hello_from []"
  by (simp_all add: hello_gateway_def hello_logging_def hello_state_def hello_from_def)

definition hello_env :: environment where
  "hello_env = \<lparr>at_start = 0, at_bucket = 1, at_refill = 2, at_select = (\<lambda>_. 3), at_reply = 100 * Millisecond,
     at_record = 100 * Millisecond, at_log = 7, schedule = (\<lambda>s. [Closed])\<rparr>"

definition hello_chat :: ChatRequest where
  "hello_chat = \<lparr>ReqModel = ''gpt-4o'', Messages = [\<lparr>Role = ''user'', Content = ''hi''\<rparr>, \<lparr>Role = ''user'', Content = ''there''\<rparr>], Stream = False\<rparr>"

definition hello_request :: request where
  "hello_request = \<lparr>api_key = seed_key, body = encode (request_json hello_chat), can_flush = True\<rparr>"

lemma seed_hash_key: "key_hash seed_key = seed_hash"
  by (simp add: key_hash_def seed_hash_def seed_key_hash)

lemma seed_tenant_valid: "tenant_valid seed_tenant"
  by (simp add: tenant_valid_def seed_tenant_def seed_hash_def all_valid_def is_int64_def valid_ascii byte_def)

lemma hello_decodes: "decode_request (body hello_request) = (hello_chat, None)"
proof -
  have "request_valid hello_chat"
    by (simp add: request_valid_def hello_chat_def valid_ascii byte_def)
  from decode_encoded_request [OF this, of "[]"] show ?thesis
    by (simp add: hello_request_def number_ends_def)
qed

lemma hello_logging_lookup:
  "lookup_tenant (hello_logging emit broadcast) seed_hash (hello_from k) =
     (Inr (Some seed_tenant), (hello_from k)\<lparr>cache_st := \<lparr>data = [tenant_key seed_hash \<mapsto> marshal_tenant seed_tenant]\<rparr>\<rparr>)"
  by (simp add: lookup_tenant_def hello_logging_def hello_from_def gateway_over_def memory_cache_def memory_Get_def
      memory_Set_def NewMemoryCache_def GetTenantByAPIKeyHash_def deliver_def seed_tenant_def)

lemma hello_lookup:
  "lookup_tenant hello_gateway seed_hash hello_state =
     (Inr (Some seed_tenant), hello_state\<lparr>cache_st := \<lparr>data = [tenant_key seed_hash \<mapsto> marshal_tenant seed_tenant]\<rparr>\<rparr>)"
  unfolding hello_instance by (rule hello_logging_lookup)

lemma hello_admitted: "admits (fst (Allow (NewTokenBucket (100 * Millisecond)) ''5e1f'' 100 1 2))"
  by code_simp

lemma hello_admitted_again:
  "admits (fst (Allow (snd (Allow (NewTokenBucket (100 * Millisecond)) ''5e1f'' 100 1 2)) ''5e1f'' 100 1 2))"
  by code_simp

lemma hello_selected:
  "\<exists>m. Select (\<lambda>_ ps. ps) (\<lambda>_. 3) NewEWMAMonitor [hello_provider] [] = (Some hello_provider, m)"
proof -
  have "filter (eligible NewEWMAMonitor []) [hello_provider] = [hello_provider]"
    by (simp add: eligible_def monitor_state_view view_fresh thresholds zero_float64_def fifth64_val)
  then show ?thesis using Select_two [of "[hello_provider]"] by auto
qed

text \<open>What the gateway answers, and the event it logs.\<close>

definition hello_event :: LogEvent where
  "hello_event = sync_event seed_tenant ''openai'' hello (time_Sub (100 * Millisecond) 0) 7"

definition hello_key :: string where
  "hello_key = cache_key ''5e1f'' ''gpt-4o'' (Messages hello_chat)"

lemma hello_logging_answer:
  obtains w st' where "ServeHTTP (hello_logging emit broadcast) hello_env hello_request (hello_from k) = (Return w, st')"
    "status_of w = 200" "written w = marshal_response hello"
    "data (cache_st st') = [tenant_key seed_hash \<mapsto> marshal_tenant seed_tenant, hello_key \<mapsto> marshal_response hello]"
    "log_st st' = snd (broadcast hello_event (snd (emit hello_event k)))" "world st' = 1"
    "limiter_st st' = snd (Allow (NewTokenBucket (100 * Millisecond)) ''5e1f'' 100 1 2)"
    "headers w = [''Content-Type'' \<mapsto> ''application/json'']"
proof -
  let ?st = "(hello_from k)\<lparr>cache_st := \<lparr>data = [tenant_key seed_hash \<mapsto> marshal_tenant seed_tenant]\<rparr>\<rparr>"
  obtain rl tb where a: "Allow (NewTokenBucket (100 * Millisecond)) ''5e1f'' 100 1 2 = (rl, tb)" "admits rl"
    using hello_admitted by (cases "Allow (NewTokenBucket (100 * Millisecond)) ''5e1f'' 100 1 2") auto
  obtain m where m: "Select (\<lambda>_ ps. ps) (\<lambda>_. 3) NewEWMAMonitor [hello_provider] [] = (Some hello_provider, m)"
    using hello_selected by blast
  have k: "hello_key \<noteq> tenant_key seed_hash" using tenant_key_not_cache_key by (metis hello_key_def)
  have "ServeHTTP (hello_logging emit broadcast) hello_env hello_request (hello_from k)
      = serve_tenant (hello_logging emit broadcast) hello_env hello_request seed_tenant ?st"
    using hello_logging_lookup [of emit broadcast k] by (simp add: ServeHTTP_def hello_request_def seed_hash_key) (simp add: seed_key_def)
  also have "\<dots> = serve_request (hello_logging emit broadcast) hello_env True hello_chat seed_tenant (?st\<lparr>limiter_st := tb\<rparr>)"
    using a hello_decodes
    by (simp add: serve_tenant_def budget_exhausted_def seed_tenant_def hello_from_def hello_env_def)
      (simp add: hello_request_def)
  finally have s: "ServeHTTP (hello_logging emit broadcast) hello_env hello_request (hello_from k)
      = serve_request (hello_logging emit broadcast) hello_env True hello_chat seed_tenant (?st\<lparr>limiter_st := tb\<rparr>)" .
  let ?ev = "sync_event seed_tenant ''openai'' hello (100 * Millisecond) 7"
  have al: "ProviderAllowlist seed_tenant = Some []" and i: "ID seed_tenant = ''5e1f''" by (simp_all add: seed_tenant_def)
  have c: "Chat hello_provider t q n = (Return (Inr hello), Suc n)" and n: "Name hello_provider = ''openai''" for t q n
    by (simp_all add: hello_provider_def)
  let ?st1 = "?st\<lparr>limiter_st := tb\<rparr>"
  let ?st2 = "?st1\<lparr>monitor_st := m\<rparr>"
  have kk: "cache_key ''5e1f'' (ReqModel hello_chat) (Messages hello_chat) = hello_key"
    by (simp add: hello_key_def hello_chat_def)
  have sl: "gw_cache (hello_logging emit broadcast) = memory_cache" "gw_pdq (hello_logging emit broadcast) = (\<lambda>_ ps. ps)" "gw_providers (hello_logging emit broadcast) = [hello_provider]"
    "at_select hello_env = (\<lambda>_. 3)" "\<not> Stream hello_chat" "monitor_st (hello_from k) = NewEWMAMonitor"
    by (simp_all add: hello_logging_def gateway_over_def hello_env_def hello_chat_def hello_from_def)
  have r: "serve_request (hello_logging emit broadcast) hello_env True hello_chat seed_tenant ?st1
      = handleSync (hello_logging emit broadcast) hello_env hello_provider hello_chat seed_tenant hello_key no_response ?st2"
    using k m by (simp add: serve_request_def serve_dispatch_def i al kk sl memory_cache_def memory_Get_def value_or_def)
      (simp add: hello_from_def)
  have h: "time_Sub (at_reply hello_env) (at_start hello_env) = time_Sub (100 * Millisecond) 0" "at_log hello_env = 7"
    by (simp_all add: hello_env_def)
  have lg: "gw_Log (hello_logging emit broadcast) e l = emit e l" "gw_Broadcast (hello_logging emit broadcast) e l = broadcast e l"
    "gw_cache (hello_logging emit broadcast) = memory_cache" for e l
    by (simp_all add: hello_logging_def gateway_over_def)
  have st: "log_st (hello_from k) = k" "world (hello_from k) = 0" by (simp_all add: hello_from_def)
  let ?fin = "handleSync (hello_logging emit broadcast) hello_env hello_provider hello_chat seed_tenant hello_key no_response ?st2"
  let ?w = "Write (marshal_response hello) (set_header ''Content-Type'' ''application/json'' no_response)"
  note facts = handleSync_def Let_def c n h lg st log_twice_def
  have "fst ?fin = Return ?w" by (simp add: facts)
  moreover have "world (snd ?fin) = 1" by (simp add: facts)
  moreover have "log_st (snd ?fin) = snd (broadcast hello_event (snd (emit hello_event k)))" by (simp add: facts hello_event_def)
  moreover have "data (cache_st (snd ?fin))
      = [tenant_key seed_hash \<mapsto> marshal_tenant seed_tenant, hello_key \<mapsto> marshal_response hello]"
    by (simp add: facts memory_cache_def memory_Set_def)
  moreover have "limiter_st (snd ?fin) = tb" by (simp add: facts)
  moreover have "status_of ?w = 200" "written ?w = marshal_response hello"
    "headers ?w = [''Content-Type'' \<mapsto> ''application/json'']" by (simp_all add: value_or_def)
  ultimately show thesis
    using that [of ?w "snd ?fin"] a by (simp add: s r prod_eq_iff)
qed

lemma hello_answer:
  obtains w st' where "ServeHTTP hello_gateway hello_env hello_request hello_state = (Return w, st')"
    "status_of w = 200" "written w = marshal_response hello"
    "data (cache_st st') = [tenant_key seed_hash \<mapsto> marshal_tenant seed_tenant, hello_key \<mapsto> marshal_response hello]"
    "log_st st' = [hello_event]" "world st' = 1"
    "limiter_st st' = snd (Allow (NewTokenBucket (100 * Millisecond)) ''5e1f'' 100 1 2)"
proof -
  let ?g = "hello_logging (\<lambda>e k. (None, k @ [e])) (\<lambda>e k. (None, k))"
  obtain w st' where "ServeHTTP ?g hello_env hello_request (hello_from []) = (Return w, st')"
    "status_of w = 200" "written w = marshal_response hello"
    "data (cache_st st') = [tenant_key seed_hash \<mapsto> marshal_tenant seed_tenant, hello_key \<mapsto> marshal_response hello]"
    "log_st st' = snd (None :: go_error option, snd (None :: go_error option, [] @ [hello_event]))" "world st' = 1"
    "limiter_st st' = snd (Allow (NewTokenBucket (100 * Millisecond)) ''5e1f'' 100 1 2)"
    "headers w = [''Content-Type'' \<mapsto> ''application/json'']"
    by (rule hello_logging_answer)
  then show thesis using that by (simp add: hello_instance)
qed

section \<open>Authentication\<close>

text \<open>
  The state of a gateway is authentic when its cache holds, under the key of an API key's
  hash, only tenants with that hash, and its table is valid.
\<close>

definition authentic_state ::
  "('c \<Rightarrow> string \<Rightarrow> bytes \<Rightarrow> bool) \<Rightarrow> ('d \<Rightarrow> bool) \<Rightarrow> ('c, 'd, 'k, 'w) gw_state \<Rightarrow> bool" where
  "authentic_state holds db_inv st \<longleftrightarrow> (\<forall>k v. holds (cache_st st) k v \<longrightarrow> authentic k v) \<and> db_inv (db_st st)"

lemma authentic_state_inv:
  fixes g :: "('c, 'd, 'k, 'w) gateway" and st :: "('c, 'd, 'k, 'w) gw_state"
  assumes "gateway_env g holds db_inv"
  shows "authentic_state holds db_inv st = gateway_env.gw_inv holds db_inv st"
proof -
  have c: "byte_cache (gw_cache g) holds" using assms by (simp add: gateway_env_def)
  show ?thesis
    by (simp add: authentic_state_def gateway_env.gw_inv_def [OF assms] byte_cache.guarded_def [OF c])
qed

text \<open>
  C1: every request is authenticated, and the gateway never works on a missing tenant: in
  an authentic state a request is refused with 401 before anything else is touched, or it is
  served for a tenant whose stored hash is the SHA-256 of the key that was sent. The state
  stays authentic, so entries of the cache can never let another key in.
\<close>
theorem requests_authenticated:
  assumes "gateway_env g holds db_inv" and "authentic_state holds db_inv st"
    and "ServeHTTP g env r st = (out, st')"
  shows "authentic_state holds db_inv st' \<and>
    ((\<exists>w. out = Return w \<and> status_of w = 401 \<and> limiter_st st' = limiter_st st \<and> monitor_st st' = monitor_st st
           \<and> log_st st' = log_st st \<and> world st' = world st) \<or>
     (\<exists>t st1. lookup_tenant g (key_hash (api_key r)) st = (Inr (Some t), st1) \<and> APIKeyHash t = key_hash (api_key r)
           \<and> (out, st') = serve_tenant g env r t st1))"
proof -
  note a = authentic_state_inv [OF assms(1)]
  have i: "gateway_env.gw_inv holds db_inv st" using assms(2) a by simp
  have "authentic_state holds db_inv st'"
    using gateway_env.ServeHTTP_inv [OF assms(1) i, of env r] assms(3) a by simp
  moreover have "(\<exists>w. out = Return w \<and> status_of w = 401 \<and> limiter_st st' = limiter_st st \<and> monitor_st st' = monitor_st st
           \<and> log_st st' = log_st st \<and> world st' = world st) \<or>
     (\<exists>t st1. lookup_tenant g (key_hash (api_key r)) st = (Inr (Some t), st1) \<and> APIKeyHash t = key_hash (api_key r)
           \<and> (out, st') = serve_tenant g env r t st1)"
  proof (cases "api_key r = []")
    case True
    then show ?thesis using assms(3) by (auto simp: ServeHTTP_def)
  next
    case False
    show ?thesis
      by (rule gateway_env.ServeHTTP_authenticates [OF assms(1) i False, of env]) (use assms(3) in auto)
  qed
  ultimately show ?thesis by blast
qed

lemma hello_authentic: "authentic_state (\<lambda>m k v. data m k = Some v) table_valid hello_state"
  by (simp add: authentic_state_def hello_state_def NewMemoryCache_def table_valid_def seed_tenant_valid)

lemma hello_env: "gateway_env hello_gateway (\<lambda>m k v. data m k = Some v) table_valid"
  unfolding hello_gateway_def by (rule memory_gateway.gateway_env_axioms)

theorem requests_authenticated_witness:
  "\<exists>t st1. lookup_tenant hello_gateway seed_hash hello_state = (Inr (Some t), st1) \<and> APIKeyHash t = seed_hash
     \<and> ServeHTTP hello_gateway hello_env hello_request hello_state = serve_tenant hello_gateway hello_env hello_request t st1"
proof -
  obtain w st' where s: "ServeHTTP hello_gateway hello_env hello_request hello_state = (Return w, st')" "status_of w = 200"
    by (rule hello_answer)
  from requests_authenticated [OF hello_env hello_authentic s(1)] s show ?thesis
    by (auto simp: hello_request_def seed_hash_key)
qed

section \<open>Rejected requests\<close>

lemma serve_tenant_rejects:
  assumes "serve_tenant g env r t st = (Return w, st')" "status_of w \<in> {400, 401, 402, 429}"
  shows "world st' = world st \<and> log_st st' = log_st st \<and> monitor_st st' = monitor_st st \<and> cache_st st' = cache_st st
    \<and> (status_of w = 402 \<and> budget_exhausted t \<and> limiter_st st' = limiter_st st
       \<or> status_of w \<in> {400, 429} \<and> \<not> budget_exhausted t
         \<and> limiter_st st' = snd (Allow (limiter_st st) (ID t) (RateLimitRPM t) (at_bucket env) (at_refill env))
         \<and> (status_of w = 429 \<longleftrightarrow> \<not> admits (fst (Allow (limiter_st st) (ID t) (RateLimitRPM t) (at_bucket env) (at_refill env)))))"
proof -
  obtain rl tb where a: "Allow (limiter_st st) (ID t) (RateLimitRPM t) (at_bucket env) (at_refill env) = (rl, tb)"
    by fastforce
  obtain req err where d: "decode_request (body r) = (req, err)" by fastforce
  have "fst (serve_request g env (can_flush r) req t (st\<lparr>limiter_st := tb\<rparr>)) \<noteq> Return w"
    using assms(2) serve_request_status by fastforce
  then show ?thesis
    using assms(1) by (auto simp: serve_tenant_stages [OF a d] a value_or_def split: if_splits)
qed

text \<open>
  C13: a rejected request costs nothing: an answer with status 400, 401, 402 or 429 means no
  provider was called, nothing was logged and no provider's health changed. The order of the
  checks shows in the limiter: a request refused for its key or its budget does not draw on
  the rate limit, one refused for its body has already done so.
\<close>
theorem rejections_cost_nothing:
  assumes "ServeHTTP g env r st = (Return w, st')" and "status_of w \<in> {400, 401, 402, 429}"
  shows "world st' = world st \<and> log_st st' = log_st st \<and> monitor_st st' = monitor_st st
    \<and> (status_of w \<in> {401, 402} \<and> limiter_st st' = limiter_st st
       \<or> (\<exists>t st1. lookup_tenant g (key_hash (api_key r)) st = (Inr (Some t), st1) \<and> \<not> budget_exhausted t \<and>
            (let (verdict, tb) = Allow (limiter_st st) (ID t) (RateLimitRPM t) (at_bucket env) (at_refill env)
             in limiter_st st' = tb \<and> status_of w = (if admits verdict then 400 else 429))))"
proof (cases "api_key r = []")
  case True
  then show ?thesis using assms by (auto simp: ServeHTTP_def)
next
  case False
  obtain res st1 where l: "lookup_tenant g (key_hash (api_key r)) st = (res, st1)" by fastforce
  note f = lookup_frame [OF l]
  show ?thesis
  proof (cases "\<exists>t. res = Inr (Some t)")
    case True
    then obtain t where t: "res = Inr (Some t)" by blast
    with False l assms(1) have "serve_tenant g env r t st1 = (Return w, st')" by (simp add: ServeHTTP_def)
    from serve_tenant_rejects [OF this assms(2)] show ?thesis
      using l t by (auto simp: f split_beta Let_def)
  next
    case unknown: False
    then have "w = http_Error ''invalid_api_key'' 401 no_response" "st' = st1"
      using False l assms(1) by (auto simp: ServeHTTP_def split: sum.splits option.splits)
    then show ?thesis by (simp add: f)
  qed
qed

text \<open>A request with the seeded key and an empty body.\<close>

definition empty_request :: request where
  "empty_request = hello_request\<lparr>body := []\<rparr>"

lemma empty_rejected:
  obtains w st' where "ServeHTTP hello_gateway hello_env empty_request hello_state = (Return w, st')" "status_of w = 400"
proof -
  obtain rl tb where a: "Allow (NewTokenBucket (100 * Millisecond)) ''5e1f'' 100 1 2 = (rl, tb)" "admits rl"
    using hello_admitted by (cases "Allow (NewTokenBucket (100 * Millisecond)) ''5e1f'' 100 1 2") auto
  have "snd (decode_request []) = Some JsonEOF" by code_simp
  then obtain q where d: "decode_request [] = (q, Some JsonEOF)" by (metis prod.collapse)
  let ?st = "hello_state\<lparr>cache_st := \<lparr>data = [tenant_key seed_hash \<mapsto> marshal_tenant seed_tenant]\<rparr>\<rparr>"
  have "ServeHTTP hello_gateway hello_env empty_request hello_state
      = serve_tenant hello_gateway hello_env empty_request seed_tenant ?st"
    using hello_lookup by (simp add: ServeHTTP_def empty_request_def hello_request_def seed_hash_key) (simp add: seed_key_def)
  also have "\<dots> = (Return (http_Error ''invalid_request'' 400 no_response), ?st\<lparr>limiter_st := tb\<rparr>)"
    using a d by (auto simp: serve_tenant_def budget_exhausted_def seed_tenant_def hello_state_def hello_env_def empty_request_def)
  finally show thesis by (rule that) (simp add: value_or_def)
qed

theorem rejections_cost_nothing_witness:
  "\<exists>w st'. ServeHTTP hello_gateway hello_env empty_request hello_state = (Return w, st') \<and> status_of w = 400
     \<and> log_st st' = [] \<and> world st' = 0"
proof -
  obtain w st' where s: "ServeHTTP hello_gateway hello_env empty_request hello_state = (Return w, st')" "status_of w = 400"
    by (rule empty_rejected)
  from rejections_cost_nothing [OF s(1)] s show ?thesis by (auto simp: hello_state_def)
qed

section \<open>Answers\<close>

text \<open>
  C5: a synchronous answer is paid for exactly once: an answer 200 to a request without
  \<open>stream\<close> is either the bytes cached under the request's own key, and then no provider is
  called and nothing is logged, or the JSON of one provider's answer, which is logged once
  with the estimated cost of its own tokens and stored under that key.
\<close>
theorem sync_answer_billed_once:
  assumes "ServeHTTP g env r st = (Return w, st')" and "status_of w = 200"
    and "\<not> Stream (fst (decode_request (body r)))" and "length (gw_providers g) \<le> 12"
  shows "\<exists>t st1. lookup_tenant g (key_hash (api_key r)) st = (Inr (Some t), st1) \<and>
    (let req = fst (decode_request (body r)); key = cache_key (ID t) (ReqModel req) (Messages req);
         hit = cache_Get (gw_cache g) key (cache_st st1)
     in (hit = (Inr (Some (written w)), cache_st st') \<and> headers w ''X-Cache'' = Some ''HIT''
           \<and> world st' = world st \<and> log_st st' = log_st st \<and> monitor_st st' = monitor_st st)
        \<or> (\<exists>p resp. p \<in> set (gw_providers g) \<and> Chat p None req (world st) = (Return (Inr resp), world st')
             \<and> written w = marshal_response resp \<and> headers w ''X-Cache'' = None
             \<and> cache_st st' = snd (cache_Set (gw_cache g) key (marshal_response resp) Hour (snd hit))
             \<and> log_st st' = billed g (sync_event t (Name p) resp (time_Sub (at_reply env) (at_start env)) (at_log env)) (log_st st)))"
proof -
  have "status_of w \<notin> {400, 401, 402, 429}" using assms(2) by simp
  then obtain t st1 rl tb req where
    l: "lookup_tenant g (key_hash (api_key r)) st = (Inr (Some t), st1)" and
    d: "decode_request (body r) = (req, None)" and
    q: "serve_request g env (can_flush r) req t (st1\<lparr>limiter_st := tb\<rparr>) = (Return w, st')"
    by (rule ServeHTTP_stages [OF assms(1)]) (rule that; assumption)
  have "\<not> Stream req" using assms(3) d by simp
  moreover have "w = hit_response (written w) \<Longrightarrow> headers w ''X-Cache'' = Some ''HIT''"
    by (metis hit_response_simps(3))
  ultimately show ?thesis
    using serve_request_answer [OF q assms(2) _ assms(4)] l d lookup_frame [OF l] by (auto simp: Let_def)
qed

theorem sync_answer_billed_once_witness:
  "\<exists>w st' t (p :: nat provider) resp. ServeHTTP hello_gateway hello_env hello_request hello_state = (Return w, st')
     \<and> Chat p None hello_chat 0 = (Return (Inr resp), Suc 0) \<and> written w = marshal_response resp
     \<and> log_st st' = [sync_event t (Name p) resp (time_Sub (100 * Millisecond) 0) 7]"
proof -
  obtain w st' where s: "ServeHTTP hello_gateway hello_env hello_request hello_state = (Return w, st')"
    "status_of w = 200" "world st' = 1" "log_st st' = [hello_event]"
    by (rule hello_answer)
  have "\<not> Stream (fst (decode_request (body hello_request)))" "length (gw_providers hello_gateway) \<le> 12"
    by (simp_all add: hello_decodes) (simp_all add: hello_chat_def hello_gateway_def gateway_over_def)
  from sync_answer_billed_once [OF s(1,2) this] s(3,4) obtain t and p :: "nat provider" and resp where
    "Chat p None hello_chat 0 = (Return (Inr resp), Suc 0)" "written w = marshal_response resp"
    "log_st st' = [sync_event t (Name p) resp (time_Sub (100 * Millisecond) 0) 7]"
    by (auto simp: Let_def hello_decodes hello_state_def billed_def hello_gateway_def gateway_over_def hello_env_def)
  with s(1) show ?thesis by blast
qed

section \<open>The in-memory cache\<close>

lemma memory_lookup_cached:
  assumes "data (cache_st st) (tenant_key h) = Some (marshal_tenant t)" "tenant_valid t"
  shows "lookup_tenant (gateway_over memory_cache f emit broadcast ps pdq) h st = (Inr (Some t), st)"
  using assms by (simp add: lookup_tenant_def gateway_over_def memory_cache_def memory_Get_def unmarshal_marshal_tenant)

lemma memory_lookup_stores:
  fixes st st1 :: "(MemoryCache, tenants_table, 'k, 'w) gw_state" and ps :: "'w provider list"
  assumes "authentic_state (\<lambda>m k v. data m k = Some v) table_valid st"
    and "lookup_tenant (gateway_over memory_cache f emit broadcast ps pdq) h st = (Inr (Some t), st1)"
  shows "data (cache_st st1) (tenant_key h) = Some (marshal_tenant t) \<and> tenant_valid t"
proof (cases "data (cache_st st) (tenant_key h)")
  case None
  with assms(2) obtain d where d: "GetTenantByAPIKeyHash f h (db_st st) = (Inr t, d)"
    and c: "data (cache_st st1) (tenant_key h) = Some (marshal_tenant t)"
    by (auto simp: lookup_tenant_def gateway_over_def memory_cache_def memory_Get_def memory_Set_def split: prod.splits sum.splits)
  have "table_valid (db_st st)" using assms(1) by (simp add: authentic_state_def)
  from postgres_lookup.found [OF this d] c show ?thesis by simp
next
  case (Some v)
  then have "authentic (tenant_key h) v" using assms(1) by (simp add: authentic_state_def)
  then obtain t' where t': "v = marshal_tenant t'" "tenant_valid t'" by (auto simp: authentic_def)
  with Some memory_lookup_cached [of st h t' f emit broadcast ps pdq] assms(2) show ?thesis by simp
qed

text \<open>
  C32: with the in-memory cache a conversation is answered from the cache: once a request
  was answered 200, a request with the same API key and model whose messages print alike, at
  any later state that still holds the cached entries, is either rate limited or gets the
  same bytes, marked as a hit; no provider is called and nothing is logged. The repetition
  of a request is such a request, but so is a different conversation whose message texts
  contain the braces and blanks that the printed form puts between messages.
\<close>
theorem same_text_served_from_cache:
  fixes st st' st2 st3 :: "(MemoryCache, tenants_table, 'k, 'w) gw_state"
    and ps :: "'w provider list" and f emit broadcast pdq
  defines "g \<equiv> gateway_over memory_cache f emit broadcast ps pdq"
  assumes "authentic_state (\<lambda>m k v. data m k = Some v) table_valid st"
    and "ServeHTTP g env r st = (Return w, st')" and "status_of w = 200" and "length ps \<le> 12"
    and "decode_request (body r) = (req, None)" and "\<not> Stream req"
    and "decode_request (body r2) = (req2, None)" and "\<not> Stream req2" and "api_key r2 = api_key r"
    and "ReqModel req2 = ReqModel req" and "format_messages (Messages req2) = format_messages (Messages req)"
    and "data (cache_st st') \<subseteq>\<^sub>m data (cache_st st2)" and "ServeHTTP g env2 r2 st2 = (out, st3)"
  shows "\<exists>w2. out = Return w2 \<and> world st3 = world st2 \<and> log_st st3 = log_st st2 \<and> monitor_st st3 = monitor_st st2
    \<and> (status_of w2 = 429 \<or> status_of w2 = 200 \<and> headers w2 ''X-Cache'' = Some ''HIT'' \<and> written w2 = written w)"
proof -
  let ?h = "key_hash (api_key r)" and ?k = "\<lambda>t. cache_key (ID t) (ReqModel req) (Messages req)"
  have "status_of w \<notin> {400, 401, 402, 429}" using assms(4) by simp
  then obtain t st1 rl tb req' where l: "lookup_tenant g ?h st = (Inr (Some t), st1)" and
    b: "\<not> budget_exhausted t" and d: "decode_request (body r) = (req', None)" and
    q: "serve_request g env (can_flush r) req' t (st1\<lparr>limiter_st := tb\<rparr>) = (Return w, st')"
    by (rule ServeHTTP_stages [OF assms(3)]) (rule that; assumption)
  have req: "req' = req" using d assms(6) by simp
  have c: "data (cache_st st1) (tenant_key ?h) = Some (marshal_tenant t)" and v: "tenant_valid t"
    using memory_lookup_stores [OF assms(2), of f emit broadcast ps pdq ?h t st1] l by (auto simp: g_def)
  have "length (gw_providers g) \<le> 12" using assms(5) by (simp add: g_def gateway_over_def)
  from serve_request_answer [OF q [unfolded req] assms(4,7) this]
  have "data (cache_st st') (?k t) = Some (written w) \<and> data (cache_st st') (tenant_key ?h) = Some (marshal_tenant t)"
    using c tenant_key_not_cache_key [of ?h "ID t" "ReqModel req" "Messages req"]
    by (auto simp: g_def gateway_over_def memory_cache_def memory_Get_def memory_Set_def split: option.splits)
  then have c2: "data (cache_st st2) (?k t) = Some (written w)" "data (cache_st st2) (tenant_key ?h) = Some (marshal_tenant t)"
    using assms(13) by (auto simp: map_le_def dom_def)
  have "api_key r \<noteq> []" using assms(3,4) by (auto simp: ServeHTTP_def value_or_def)
  then have "ServeHTTP g env2 r2 st2 = serve_tenant g env2 r2 t st2"
    using memory_lookup_cached [OF c2(2) v] assms(10) by (simp add: ServeHTTP_def g_def)
  moreover have "cache_key (ID t) (ReqModel req2) (Messages req2) = ?k t" using assms(11,12) by (simp add: cache_key_def)
  moreover obtain rl2 tb2 where "Allow (limiter_st st2) (ID t) (RateLimitRPM t) (at_bucket env2) (at_refill env2) = (rl2, tb2)"
    by fastforce
  ultimately show ?thesis
    using assms(14,8,9) b c2(1) hit_response_simps [of "written w"]
    by (cases "admits rl2")
      (auto simp: serve_tenant_def serve_request_def Let_def value_or_def g_def gateway_over_def memory_cache_def memory_Get_def)
qed

text \<open>One message that prints like the two of the first request.\<close>

definition merged_chat :: ChatRequest where
  "merged_chat = hello_chat\<lparr>Messages := [\<lparr>Role = ''user'', Content = ''hi} {user there''\<rparr>]\<rparr>"

definition merged_request :: request where
  "merged_request = hello_request\<lparr>body := encode (request_json merged_chat)\<rparr>"

lemma merged_decodes: "decode_request (body merged_request) = (merged_chat, None)"
proof -
  have "request_valid merged_chat"
    by (simp add: request_valid_def merged_chat_def hello_chat_def valid_ascii byte_def)
  from decode_encoded_request [OF this, of "[]"] show ?thesis
    by (simp add: merged_request_def number_ends_def)
qed

lemma merged_same_text: "format_messages (Messages merged_chat) = format_messages (Messages hello_chat)"
  by (simp add: merged_chat_def hello_chat_def format_messages_def format_message_def)

lemma merged_hit:
  assumes "data (cache_st st) = [tenant_key seed_hash \<mapsto> marshal_tenant seed_tenant, hello_key \<mapsto> v]"
    and "limiter_st st = snd (Allow (NewTokenBucket (100 * Millisecond)) ''5e1f'' 100 1 2)"
  shows "fst (ServeHTTP hello_gateway hello_env merged_request st) = Return (hit_response v)"
proof -
  obtain rl tb where a: "Allow (limiter_st st) (ID seed_tenant) (RateLimitRPM seed_tenant) (at_bucket hello_env) (at_refill hello_env) = (rl, tb)"
    "admits rl"
    using hello_admitted_again
    by (cases "Allow (limiter_st st) ''5e1f'' 100 1 2") (auto simp: assms(2) seed_tenant_def hello_env_def)
  have "tenant_key seed_hash \<noteq> hello_key" using tenant_key_not_cache_key by (metis hello_key_def)
  then have "data (cache_st st) (tenant_key seed_hash) = Some (marshal_tenant seed_tenant)" by (simp add: assms(1))
  from memory_lookup_cached [OF this seed_tenant_valid]
  have "ServeHTTP hello_gateway hello_env merged_request st = serve_tenant hello_gateway hello_env merged_request seed_tenant st"
    by (simp add: ServeHTTP_def hello_gateway_def merged_request_def hello_request_def seed_hash_key) (simp add: seed_key_def)
  moreover have "\<not> budget_exhausted seed_tenant" by (simp add: budget_exhausted_def seed_tenant_def)
  moreover have "cache_key (ID seed_tenant) (ReqModel merged_chat) (Messages merged_chat) = hello_key"
    using merged_same_text by (simp add: hello_key_def seed_tenant_def cache_key_def) (simp add: merged_chat_def hello_chat_def)
  moreover have "\<not> Stream merged_chat" by (simp add: merged_chat_def hello_chat_def)
  ultimately show ?thesis
    using a(2) assms(1)
    by (simp add: serve_tenant_stages [OF a(1) merged_decodes] serve_request_def Let_def)
      (simp add: hello_gateway_def gateway_over_def memory_cache_def memory_Get_def)
qed

theorem same_text_served_from_cache_witness:
  "\<exists>w st' w2 st2. Messages merged_chat \<noteq> Messages hello_chat
     \<and> ServeHTTP hello_gateway hello_env hello_request hello_state = (Return w, st')
     \<and> ServeHTTP hello_gateway hello_env merged_request st' = (Return w2, st2)
     \<and> log_st st2 = [hello_event] \<and> written w2 = written w \<and> headers w2 ''X-Cache'' = Some ''HIT''"
proof -
  obtain w st' where s: "ServeHTTP hello_gateway hello_env hello_request hello_state = (Return w, st')"
    "status_of w = 200" "log_st st' = [hello_event]" and
    c: "data (cache_st st') = [tenant_key seed_hash \<mapsto> marshal_tenant seed_tenant, hello_key \<mapsto> marshal_response hello]" and
    l: "limiter_st st' = snd (Allow (NewTokenBucket (100 * Millisecond)) ''5e1f'' 100 1 2)"
    by (rule hello_answer)
  obtain out st2 where s2: "ServeHTTP hello_gateway hello_env merged_request st' = (out, st2)" by fastforce
  have n: "\<not> Stream hello_chat" "\<not> Stream merged_chat" "ReqModel merged_chat = ReqModel hello_chat"
    "api_key merged_request = api_key hello_request" "Messages merged_chat \<noteq> Messages hello_chat"
    by (simp_all add: hello_chat_def merged_chat_def merged_request_def)
  have "length [hello_provider] \<le> 12" by simp
  from same_text_served_from_cache [OF hello_authentic s(1) [unfolded hello_gateway_def] s(2) this hello_decodes n(1)
      merged_decodes n(2,4,3) merged_same_text map_le_refl s2 [unfolded hello_gateway_def]] s s2 n(5) merged_hit [OF c l]
  show ?thesis by auto
qed

section \<open>Streams\<close>

lemma stream_events_logs:
  "\<exists>evs. list_all (\<lambda>ev. CostCents ev = 0 \<and> Status ev = 200 \<and> TenantID ev = ID t) evs \<and> length evs \<le> 1
     \<and> log_st (snd (stream_events g env p req t fl e es a b w st)) = fold (billed g) evs (log_st st)"
proof (induction g env p req t fl e es a b w st rule: stream_events.induct)
  case (1 g env p req t fl e a b w st)
  show ?case by (intro exI [of _ "[]"]) simp
next
  case (2 g env p req t fl e es a b w st)
  let ?ev = "stream_log t (Name p) (ReqModel req) a b (time_Sub (at_reply env) (at_start env)) (at_log env)"
  have "list_all (\<lambda>ev. CostCents ev = 0 \<and> Status ev = 200 \<and> TenantID ev = ID t) [?ev]"
    by (simp add: stream_log_def zero_event_def)
  then show ?case by (intro exI [of _ "[?ev]"]) (simp add: log_twice_log billed_def)
next
  case (3 g env p req t fl e c es a b w st)
  then show ?case by (cases fl) (auto simp: Let_def intro: exI [of _ "[]"])
qed (auto intro: exI [of _ "[]"])

lemma handleStream_logs:
  "\<exists>evs. list_all (\<lambda>ev. CostCents ev = 0 \<and> Status ev = 200 \<and> TenantID ev = ID t) evs \<and> length evs \<le> 1
     \<and> log_st (snd (handleStream g env p req t fl w st)) = fold (billed g) evs (log_st st)"
proof (cases "ChatStream p None None req (world st)")
  case (Pair res wd)
  show ?thesis
  proof (cases res)
    case (Return s)
    let ?w = "set_header ''Connection'' ''keep-alive''
        (set_header ''Cache-Control'' ''no-cache'' (set_header ''Content-Type'' ''text/event-stream'' w))"
    show ?thesis
      using Return Pair stream_events_logs [of t g env p req fl "ended s" "schedule env s" 0 0 ?w "st\<lparr>world := wd\<rparr>"]
      by (simp add: handleStream_def)
  next
    case (Panic m)
    then show ?thesis using Pair by (auto simp: handleStream_def intro: exI [of _ "[]"])
  next
    case (Crash m)
    then show ?thesis using Pair by (auto simp: handleStream_def intro: exI [of _ "[]"])
  qed
qed

lemma serve_dispatch_stream_logs:
  assumes "Stream req"
  shows "\<exists>evs. list_all (\<lambda>ev. CostCents ev = 0 \<and> Status ev = 200 \<and> TenantID ev = ID t) evs \<and> length evs \<le> 1
     \<and> log_st (snd (serve_dispatch g env fl req t k st)) = fold (billed g) evs (log_st st)"
proof -
  obtain sel m where s: "Select (gw_pdq g) (at_select env) (monitor_st st) (gw_providers g)
      (value_or [] (ProviderAllowlist t)) = (sel, m)" by fastforce
  show ?thesis
  proof (cases sel)
    case None
    then show ?thesis using s by (auto simp: serve_dispatch_def intro: exI [of _ "[]"])
  next
    case (Some p)
    then show ?thesis
      using s assms handleStream_logs [of t g env p req fl no_response "st\<lparr>monitor_st := m\<rparr>"]
      by (simp add: serve_dispatch_def)
  qed
qed

text \<open>
  C31: streams are never billed: whatever chunks a stream delivers and whatever tokens they
  report, the request adds at most one record to the log, and its cost is zero cents; a
  stream also never stores anything in the response cache.
\<close>
theorem streams_never_billed:
  assumes "lookup_tenant g (key_hash (api_key r)) st = (Inr (Some t), st1)" and "api_key r \<noteq> []"
    and "Stream (fst (decode_request (body r)))" and "ServeHTTP g env r st = (out, st')"
  shows "cache_st st' = cache_st st1 \<and>
    (\<exists>evs. list_all (\<lambda>ev. CostCents ev = 0 \<and> Status ev = 200 \<and> TenantID ev = ID t) evs \<and> length evs \<le> 1
       \<and> log_st st' = fold (billed g) evs (log_st st))"
proof -
  have s: "serve_tenant g env r t st1 = (out, st')" using assms(1,2,4) by (simp add: ServeHTTP_def)
  obtain rl tb where a: "Allow (limiter_st st1) (ID t) (RateLimitRPM t) (at_bucket env) (at_refill env) = (rl, tb)"
    by fastforce
  obtain req err where d: "decode_request (body r) = (req, err)" by fastforce
  note f = lookup_frame [OF assms(1)]
  show ?thesis
  proof (cases "budget_exhausted t \<or> \<not> admits rl \<or> err \<noteq> None")
    case True
    then have "cache_st st' = cache_st st1" "log_st st' = log_st st1"
      using s by (auto simp: serve_tenant_stages [OF a d] split: if_splits)
    then show ?thesis using f by (auto intro: exI [of _ "[]"])
  next
    case False
    let ?k = "cache_key (ID t) (ReqModel req) (Messages req)"
    have req: "Stream req" using assms(3) d by simp
    have "serve_dispatch g env (can_flush r) req t ?k (st1\<lparr>limiter_st := tb\<rparr>) = (out, st')"
      using False s a d req by (simp add: serve_tenant_def serve_request_def)
    then show ?thesis
      using serve_dispatch_stream_logs [OF req, of t g env "can_flush r" ?k "st1\<lparr>limiter_st := tb\<rparr>"] f req
      by (auto simp: serve_dispatch_def Let_def handleStream_frame split: prod.splits option.splits
          dest: arg_cong [of _ _ "\<lambda>x. cache_st (snd x)"])
  qed
qed

definition stream_request :: request where
  "stream_request = hello_request\<lparr>body := encode (request_json (hello_chat\<lparr>Stream := True\<rparr>))\<rparr>"

lemma stream_decodes: "decode_request (body stream_request) = (hello_chat\<lparr>Stream := True\<rparr>, None)"
proof -
  have "request_valid (hello_chat\<lparr>Stream := True\<rparr>)"
    by (simp add: request_valid_def hello_chat_def valid_ascii byte_def)
  from decode_encoded_request [OF this, of "[]"] show ?thesis
    by (simp add: stream_request_def number_ends_def)
qed

theorem streams_never_billed_witness:
  "\<exists>out st' evs. ServeHTTP hello_gateway hello_env stream_request hello_state = (out, st')
     \<and> list_all (\<lambda>ev. CostCents ev = 0) evs \<and> log_st st' = evs"
proof -
  obtain out st' where s: "ServeHTTP hello_gateway hello_env stream_request hello_state = (out, st')" by fastforce
  have r: "api_key stream_request = seed_key" by (simp add: stream_request_def hello_request_def)
  then have "api_key stream_request \<noteq> []" by (simp add: seed_key_def)
  from streams_never_billed [OF _ this _ s] hello_lookup
  obtain evs where "list_all (\<lambda>ev. CostCents ev = 0) evs" "log_st st' = fold (billed hello_gateway) evs []"
    by (auto simp: r seed_hash_key stream_decodes list_all_iff hello_state_def)
  moreover have "fold (billed hello_gateway) evs l = l @ evs" for l
    by (induction evs arbitrary: l) (simp_all add: billed_def hello_gateway_def gateway_over_def)
  ultimately show ?thesis using s by auto
qed

section \<open>Deactivated tenants\<close>

lemma stream_events_activity:
  "stream_events g env p req (t\<lparr>IsActive := b\<rparr>) fl e es a c w st = stream_events g env p req t fl e es a c w st"
  by (induction g env p req t fl e es a c w st rule: stream_events.induct) (simp_all add: stream_log_def Let_def)

lemma dispatch_activity:
  "handleStream g env p req (t\<lparr>IsActive := b\<rparr>) fl w st = handleStream g env p req t fl w st"
  "handleSync g env p req (t\<lparr>IsActive := b\<rparr>) key w st = handleSync g env p req t key w st"
  by (simp_all add: handleStream_def handleSync_def stream_events_activity sync_event_def Let_def
      split: prod.split outcome.split sum.split)

lemma serve_dispatch_activity: "serve_dispatch g env fl req (t\<lparr>IsActive := b\<rparr>) key st = serve_dispatch g env fl req t key st"
  by (simp add: serve_dispatch_def dispatch_activity Let_def split: prod.split option.split)

lemma serve_tenant_activity: "serve_tenant g env r (t\<lparr>IsActive := b\<rparr>) st = serve_tenant g env r t st"
  by (simp add: serve_tenant_def serve_request_def budget_exhausted_def serve_dispatch_activity Let_def
      split: prod.split sum.split option.split)

text \<open>
  C39: a deactivated tenant is served like any other: once the tenant of a key is found, the
  answer and everything it leaves behind are what they would be with the tenant's
  \<open>is_active\<close> set or cleared. The column is read and never looked at.
\<close>
theorem deactivated_tenant_served:
  assumes "api_key r \<noteq> []" and "lookup_tenant g (key_hash (api_key r)) st = (Inr (Some t), st1)"
  shows "ServeHTTP g env r st = serve_tenant g env r (t\<lparr>IsActive := b\<rparr>) st1"
  using assms by (simp add: ServeHTTP_def serve_tenant_activity Let_def)

theorem deactivated_tenant_served_witness:
  "ServeHTTP hello_gateway hello_env hello_request hello_state
   = serve_tenant hello_gateway hello_env hello_request (seed_tenant\<lparr>IsActive := False\<rparr>)
       (hello_state\<lparr>cache_st := \<lparr>data = [tenant_key seed_hash \<mapsto> marshal_tenant seed_tenant]\<rparr>\<rparr>)"
proof -
  have "api_key hello_request \<noteq> []" by (simp add: hello_request_def seed_key_def)
  moreover have "lookup_tenant hello_gateway (key_hash (api_key hello_request)) hello_state =
      (Inr (Some seed_tenant), hello_state\<lparr>cache_st := \<lparr>data = [tenant_key seed_hash \<mapsto> marshal_tenant seed_tenant]\<rparr>\<rparr>)"
    using hello_lookup by (simp add: hello_request_def seed_hash_key)
  ultimately show ?thesis by (rule deactivated_tenant_served)
qed

end
