(* ===== verification/Gateway_Traffic.thy ===== *)
theory Gateway_Traffic
  imports Gateway_Properties Rate_Limit_Properties
begin

text \<open>
  Runs of the gateway over many requests: the limiter and the cache as the traffic of several
  tenants sees them. Handlers of concurrent requests meet in the limiter and in the cache,
  each of which answers its calls one after the other; a run gives the requests in that
  order.
\<close>

section \<open>Runs\<close>

type_synonym traffic = "(environment \<times> request) list"

fun gateway_run ::
  "('c, 'd, 'k, 'w) gateway \<Rightarrow> traffic \<Rightarrow> ('c, 'd, 'k, 'w) gw_state \<Rightarrow> ('c, 'd, 'k, 'w) gw_state" where
  "gateway_run g [] st = st"
| "gateway_run g ((env, r) # rs) st = gateway_run g rs (snd (ServeHTTP g env r st))"

text \<open>The tenant a request is served for.\<close>

definition served_tenant :: "('c, 'd, 'k, 'w) gateway \<Rightarrow> request \<Rightarrow> ('c, 'd, 'k, 'w) gw_state \<Rightarrow> Tenant option" where
  "served_tenant g r st =
     (if api_key r = [] then None
      else case fst (lookup_tenant g (key_hash (api_key r)) st) of Inr t \<Rightarrow> t | Inl _ \<Rightarrow> None)"

definition rejected :: "response outcome \<Rightarrow> bool" where
  "rejected out \<longleftrightarrow> (\<exists>w. out = Return w \<and> status_of w \<in> {400, 401, 402, 429})"

section \<open>What the limiter sees\<close>

definition limiter_request ::
  "('c, 'd, 'k, 'w) gateway \<Rightarrow> environment \<Rightarrow> request \<Rightarrow> ('c, 'd, 'k, 'w) gw_state \<Rightarrow> rl_request option" where
  "limiter_request g env r st =
     (case served_tenant g r st of
        None \<Rightarrow> None
      | Some t \<Rightarrow> if budget_exhausted t then None
                  else Some \<lparr>tenant_of = ID t, limit_of = RateLimitRPM t, created_at = at_bucket env, checked_at = at_refill env\<rparr>)"

fun limiter_trace ::
  "('c, 'd, 'k, 'w) gateway \<Rightarrow> traffic \<Rightarrow> ('c, 'd, 'k, 'w) gw_state \<Rightarrow> rl_request list" where
  "limiter_trace g [] st = []"
| "limiter_trace g ((env, r) # rs) st =
     (case limiter_request g env r st of None \<Rightarrow> [] | Some q \<Rightarrow> [q]) @ limiter_trace g rs (snd (ServeHTTP g env r st))"

text \<open>The requests of a tenant that were answered by the cache or passed on to routing.\<close>

fun passed :: "('c, 'd, 'k, 'w) gateway \<Rightarrow> string \<Rightarrow> traffic \<Rightarrow> ('c, 'd, 'k, 'w) gw_state \<Rightarrow> nat" where
  "passed g u [] st = 0"
| "passed g u ((env, r) # rs) st =
     (if (\<exists>t. served_tenant g r st = Some t \<and> ID t = u) \<and> \<not> rejected (fst (ServeHTTP g env r st)) then 1 else 0)
       + passed g u rs (snd (ServeHTTP g env r st))"

text \<open>The clock readings of the limiter follow each other, from \<open>c\<close> to \<open>e\<close>.\<close>

fun clock_runs :: "instant \<Rightarrow> traffic \<Rightarrow> instant \<Rightarrow> bool" where
  "clock_runs c [] e = (c \<le> e)"
| "clock_runs c ((env, r) # rs) e = (c \<le> at_bucket env \<and> at_bucket env \<le> at_refill env \<and> clock_runs (at_refill env) rs e)"

lemma lookup_served:
  assumes "api_key r \<noteq> []" "lookup_tenant g (key_hash (api_key r)) st = (res, st1)"
  shows "served_tenant g r st = (case res of Inr t \<Rightarrow> t | Inl _ \<Rightarrow> None)"
  using assms by (simp add: served_tenant_def)

lemma ServeHTTP_unserved:
  assumes "served_tenant g r st = None"
  shows "limiter_st (snd (ServeHTTP g env r st)) = limiter_st st"
proof (cases "api_key r = []")
  case True
  then show ?thesis by (simp add: ServeHTTP_def)
next
  case False
  obtain res st1 where l: "lookup_tenant g (key_hash (api_key r)) st = (res, st1)" by fastforce
  with False assms lookup_served [OF False l] lookup_frame(1) [OF l] show ?thesis
    by (auto simp: ServeHTTP_def split: sum.splits option.splits)
qed

lemma ServeHTTP_served:
  assumes "served_tenant g r st = Some t"
  obtains st1 where "api_key r \<noteq> []" "lookup_tenant g (key_hash (api_key r)) st = (Inr (Some t), st1)"
    "ServeHTTP g env r st = serve_tenant g env r t st1" "limiter_st st1 = limiter_st st"
proof -
  have k: "api_key r \<noteq> []" using assms by (auto simp: served_tenant_def)
  obtain res st1 where l: "lookup_tenant g (key_hash (api_key r)) st = (res, st1)" by fastforce
  with assms lookup_served [OF k l] have "res = Inr (Some t)" by (auto split: sum.splits)
  then show thesis using that [OF k] l lookup_frame(1) [OF l] k by (simp add: ServeHTTP_def)
qed

lemma serve_tenant_limiter:
  "limiter_st (snd (serve_tenant g env r t st)) =
     (if budget_exhausted t then limiter_st st
      else snd (Allow (limiter_st st) (ID t) (RateLimitRPM t) (at_bucket env) (at_refill env)))"
  by (auto simp: serve_tenant_def Let_def serve_request_frame split: prod.split option.split)

lemma serve_tenant_passes:
  assumes "\<not> rejected (fst (serve_tenant g env r t st))"
  shows "\<not> budget_exhausted t \<and> admits (fst (Allow (limiter_st st) (ID t) (RateLimitRPM t) (at_bucket env) (at_refill env)))"
  using assms
  by (auto simp: serve_tenant_def Let_def rejected_def value_or_def split: prod.splits if_splits)

lemma limiter_step:
  "limiter_st (snd (ServeHTTP g env r st)) =
     (case limiter_request g env r st of None \<Rightarrow> limiter_st st | Some q \<Rightarrow> snd (serve (limiter_st st) q))"
proof (cases "served_tenant g r st")
  case None
  then show ?thesis by (simp add: ServeHTTP_unserved limiter_request_def)
next
  case (Some t)
  then obtain st1 where "ServeHTTP g env r st = serve_tenant g env r t st1" "limiter_st st1 = limiter_st st"
    by (rule ServeHTTP_served)
  then show ?thesis by (simp add: Some limiter_request_def serve_tenant_limiter serve_def)
qed

lemma passed_admitted:
  assumes "served_tenant g r st = Some t" "\<not> rejected (fst (ServeHTTP g env r st))"
  shows "\<exists>q. limiter_request g env r st = Some q \<and> tenant_of q = ID t \<and> admits (fst (serve (limiter_st st) q))"
proof -
  obtain st1 where "ServeHTTP g env r st = serve_tenant g env r t st1" "limiter_st st1 = limiter_st st"
    using assms(1) by (rule ServeHTTP_served)
  with assms(2) serve_tenant_passes [of g env r t st1] show ?thesis
    by (simp add: limiter_request_def assms(1) serve_def)
qed

lemma passed_le_admitted:
  "passed g u rs st \<le> admitted u (limiter_st st) (limiter_trace g rs st)"
proof (induction rs arbitrary: st)
  case (Cons a rs)
  obtain env r where a: "a = (env, r)" by fastforce
  let ?st = "snd (ServeHTTP g env r st)"
  note IH = Cons.IH [of ?st]
  show ?case
  proof (cases "limiter_request g env r st")
    case None
    then have "\<nexists>t. served_tenant g r st = Some t \<and> \<not> rejected (fst (ServeHTTP g env r st))"
      using passed_admitted by fastforce
    with IH None show ?thesis by (auto simp: a limiter_step)
  next
    case (Some q)
    have "(if (\<exists>t. served_tenant g r st = Some t \<and> ID t = u) \<and> \<not> rejected (fst (ServeHTTP g env r st)) then 1 else 0)
        \<le> (if tenant_of q = u \<and> admits (fst (serve (limiter_st st) q)) then 1 else (0 :: nat))"
      using passed_admitted [of g r st _ env] Some by auto
    moreover have "limiter_st ?st = snd (serve (limiter_st st) q)" by (simp add: limiter_step Some)
    ultimately show ?thesis using IH by (simp add: a Some split_beta Let_def)
  qed
qed simp

lemma clock_timed: "clock_runs c rs e \<Longrightarrow> timed c (limiter_trace g rs st) \<and> end_time c (limiter_trace g rs st) \<le> e"
proof (induction rs arbitrary: c st)
  case (Cons a rs)
  obtain env r where a: "a = (env, r)" by fastforce
  let ?st = "snd (ServeHTTP g env r st)"
  have h: "c \<le> at_bucket env" "at_bucket env \<le> at_refill env" "clock_runs (at_refill env) rs e"
    using Cons.prems by (simp_all add: a)
  from h(3) have "clock_runs c rs e" using h(1,2)
    by (cases rs) (auto split: prod.splits)
  with h Cons.IH [of "at_refill env" ?st] Cons.IH [of c ?st] show ?case
    by (auto simp: a limiter_request_def split: option.split)
qed simp

lemma trace_length: "length (limiter_trace g rs st) \<le> length rs"
  by (induction g rs st rule: limiter_trace.induct) (auto split: option.split)

text \<open>
  C6: the gateway keeps the rate limit of every tenant: over any run of requests of all
  tenants, from any state the limiter can be in, the requests of a tenant with limit \<open>L\<close> per
  minute that get past the checks, to the cache or to a provider, are at most \<open>L\<close> plus the
  limit's share of the time that passed, up to a rounding slack far below one request.
\<close>
theorem gateway_keeps_rate_limit:
  assumes "limiter_wf c (limiter_st st)" and "clock_runs c rs e"
    and "limits_ok u L (limiter_trace g rs st)" and "sane_limit L"
  shows "(of_nat (passed g u rs st) :: rat)
     \<le> of_int L + of_int L / 60 * (of_int (e - c) / 10 ^ 9) * (1 + 1 / 10 ^ 14) + of_nat (length rs) * (of_int L / 10 ^ 14)"
proof -
  let ?tr = "limiter_trace g rs st"
  have t: "timed c ?tr" "end_time c ?tr \<le> e" using clock_timed [OF assms(2)] by auto
  have L: "0 \<le> (of_int L :: rat)" using assms(4) by (simp add: sane_limit_def)
  have "burst L c (limiter_st st) u \<le> of_int L" by (simp add: burst_def)
  from window_bound [OF assms(1) t(1) assms(3,4) this]
  have "(of_nat (admitted u (limiter_st st) ?tr) :: rat)
      \<le> of_int L + of_int L / 60 * (of_int (end_time c ?tr - c) / 10 ^ 9) * (1 + 1 / 10 ^ 14)
        + of_nat (length ?tr) * (of_int L / 10 ^ 14)" .
  moreover have "(of_nat (passed g u rs st) :: rat) \<le> of_nat (admitted u (limiter_st st) ?tr)"
    using passed_le_admitted by (simp only: of_nat_le_iff)
  moreover have "of_int L / 60 * (of_int (end_time c ?tr - c) / 10 ^ 9) * (1 + 1 / 10 ^ 14)
      \<le> of_int L / 60 * (of_int (e - c) / 10 ^ 9) * (1 + 1 / 10 ^ 14 :: rat)"
    using t(2) L by (intro mult_right_mono mult_left_mono divide_right_mono) simp_all
  moreover have "of_nat (length ?tr) * (of_int L / 10 ^ 14) \<le> of_nat (length rs) * (of_int L / 10 ^ 14 :: rat)"
    using trace_length [of g rs st] L by (intro mult_right_mono) simp_all
  ultimately show ?thesis by linarith
qed

lemma hello_trace:
  "limiter_trace hello_gateway [(hello_env, hello_request)] hello_state =
     [\<lparr>tenant_of = ''5e1f'', limit_of = 100, created_at = 1, checked_at = 2\<rparr>]"
proof -
  have "served_tenant hello_gateway hello_request hello_state = Some seed_tenant"
    using hello_lookup by (simp add: served_tenant_def hello_request_def seed_hash_key) (simp add: seed_key_def)
  then show ?thesis
    by (simp add: limiter_request_def budget_exhausted_def) (simp add: seed_tenant_def hello_env_def)
qed

theorem gateway_keeps_rate_limit_witness:
  "of_nat (passed hello_gateway ''5e1f'' [(hello_env, hello_request)] hello_state)
     \<le> 100 + 100 / 60 * (2 / 10 ^ 9) * (1 + 1 / 10 ^ 14) + of_nat (length [(hello_env, hello_request)]) * (100 / 10 ^ 14 :: rat)"
proof -
  have "limiter_wf 0 (limiter_st hello_state)" by (simp add: hello_state_def NewTokenBucket_wf)
  moreover have "clock_runs 0 [(hello_env, hello_request)] 2" by (simp add: hello_env_def)
  moreover have "limits_ok ''5e1f'' 100 (limiter_trace hello_gateway [(hello_env, hello_request)] hello_state)"
    by (simp only: hello_trace) (simp add: limits_ok_def sane_limit_def)
  moreover have "sane_limit 100" by (simp add: sane_limit_def)
  ultimately show ?thesis
    using gateway_keeps_rate_limit [of 0 hello_state "[(hello_env, hello_request)]" 2 "''5e1f''" 100 hello_gateway]
    by (simp del: passed.simps limiter_trace.simps length_Cons)
qed

section \<open>Where cached answers come from\<close>

text \<open>An answer a request obtained from a provider: tenant, model, digest of the messages, bytes.\<close>

type_synonym answer = "string \<times> string \<times> bytes \<times> bytes"

definition digest :: "ChatRequest \<Rightarrow> bytes" where
  "digest req = Sum256 (format_messages (Messages req))"

definition fresh_answer ::
  "('c, 'd, 'k, 'w) gateway \<Rightarrow> environment \<Rightarrow> request \<Rightarrow> ('c, 'd, 'k, 'w) gw_state \<Rightarrow> answer option" where
  "fresh_answer g env r st =
     (let req = fst (decode_request (body r))
      in case (served_tenant g r st, fst (ServeHTTP g env r st)) of
           (Some t, Return w) \<Rightarrow>
             if status_of w = 200 \<and> \<not> Stream req \<and> headers w ''X-Cache'' = None
             then Some (ID t, ReqModel req, digest req, written w) else None
         | _ \<Rightarrow> None)"

fun answers :: "('c, 'd, 'k, 'w) gateway \<Rightarrow> traffic \<Rightarrow> ('c, 'd, 'k, 'w) gw_state \<Rightarrow> answer set" where
  "answers g [] st = {}"
| "answers g ((env, r) # rs) st = set_option (fresh_answer g env r st) \<union> answers g rs (snd (ServeHTTP g env r st))"

text \<open>No tenant of the run has a colon in its ID. PostgreSQL's UUIDs have none.\<close>

definition plain :: "string \<Rightarrow> bool" where
  "plain u \<longleftrightarrow> CHR '':'' \<notin> set u"

fun plain_ids :: "('c, 'd, 'k, 'w) gateway \<Rightarrow> traffic \<Rightarrow> ('c, 'd, 'k, 'w) gw_state \<Rightarrow> bool" where
  "plain_ids g [] st = True"
| "plain_ids g ((env, r) # rs) st =
     ((case served_tenant g r st of None \<Rightarrow> True | Some t \<Rightarrow> plain (ID t)) \<and> plain_ids g rs (snd (ServeHTTP g env r st)))"

definition from_answers :: "answer set \<Rightarrow> string \<Rightarrow> bytes \<Rightarrow> bool" where
  "from_answers A k v \<longleftrightarrow>
     (\<forall>u m ms. plain u \<longrightarrow> k = cache_key u m ms \<longrightarrow> (u, m, Sum256 (format_messages ms), v) \<in> A)"

lemma from_answers_tenant: "from_answers A (tenant_key h) v"
  unfolding from_answers_def using tenant_key_not_cache_key by metis

lemma from_answers_own:
  assumes "plain (ID t)" "(ID t, ReqModel req, digest req, v) \<in> A"
  shows "from_answers A (cache_key (ID t) (ReqModel req) (Messages req)) v"
  unfolding from_answers_def
proof (intro allI impI)
  fix u m ms assume u: "plain u" "cache_key (ID t) (ReqModel req) (Messages req) = cache_key u m ms"
  have "ID t = u \<and> ReqModel req = m \<and> Sum256 (format_messages (Messages req)) = Sum256 (format_messages ms)"
    using assms(1) u by (intro cache_key_inject) (simp_all add: plain_def)
  with assms(2) show "(u, m, Sum256 (format_messages ms), v) \<in> A" by (simp add: digest_def)
qed

lemma from_answers_mono: "from_answers A k v \<Longrightarrow> A \<subseteq> B \<Longrightarrow> from_answers B k v"
  by (auto simp: from_answers_def)

lemma http_Error_headers [simp]: "headers (http_Error m c r) ''X-Cache'' = headers r ''X-Cache''"
  by (auto simp: http_Error_def Write_def WriteHeader_def set_header_def split: option.split)

lemma stream_events_headers:
  "fst (stream_events g env p req t fl e es a b w st) = Return w' \<Longrightarrow> headers w' = headers w"
  by (induction g env p req t fl e es a b w st rule: stream_events.induct)
    (auto simp: Let_def split: if_splits stream_end.splits)

lemma handleStream_headers:
  "fst (handleStream g env p req t fl w st) = Return w' \<Longrightarrow> headers w' ''X-Cache'' = headers w ''X-Cache''"
  by (auto simp: handleStream_def dest!: stream_events_headers split: prod.splits outcome.splits)

lemma handleSync_effect:
  assumes "handleSync g env p req t k w0 st = (out, st')"
  shows "cache_st st' = cache_st st \<and> (\<forall>w. out = Return w \<longrightarrow> headers w ''X-Cache'' = headers w0 ''X-Cache'')
    \<or> (\<exists>w resp. out = Return w \<and> headers w ''X-Cache'' = headers w0 ''X-Cache'' \<and> (code w0 = None \<longrightarrow> status_of w = 200)
         \<and> written w = written w0 @ marshal_response resp
         \<and> cache_st st' = snd (cache_Set (gw_cache g) k (marshal_response resp) Hour (cache_st st)))"
  using assms by (auto simp: handleSync_def Let_def split: prod.splits outcome.splits sum.splits)

lemma serve_dispatch_effect:
  assumes "serve_dispatch g env fl req t k st = (out, st')"
  shows "(\<forall>w. out = Return w \<longrightarrow> headers w ''X-Cache'' = None) \<and>
    (cache_st st' = cache_st st
      \<or> (\<exists>w. out = Return w \<and> status_of w = 200 \<and> \<not> Stream req
           \<and> cache_st st' = snd (cache_Set (gw_cache g) k (written w) Hour (cache_st st))))"
proof -
  obtain sel m where s: "Select (gw_pdq g) (at_select env) (monitor_st st) (gw_providers g)
      (value_or [] (ProviderAllowlist t)) = (sel, m)" by fastforce
  show ?thesis
  proof (cases sel)
    case None
    then show ?thesis using s assms by (auto simp: serve_dispatch_def)
  next
    case (Some p)
    let ?st = "st\<lparr>monitor_st := m\<rparr>"
    show ?thesis
    proof (cases "Stream req")
      case True
      then have h: "handleStream g env p req t fl no_response ?st = (out, st')"
        using assms s Some by (simp add: serve_dispatch_def)
      then have "cache_st st' = cache_st st"
        using handleStream_frame(1) [of g env p req t fl no_response ?st] by simp
      then show ?thesis using h handleStream_headers [of g env p req t fl no_response ?st] by auto
    next
      case False
      then have "handleSync g env p req t k no_response ?st = (out, st')"
        using assms s Some by (simp add: serve_dispatch_def)
      from handleSync_effect [OF this] False show ?thesis by auto
    qed
  qed
qed

lemma serve_request_effect:
  assumes "serve_request g env fl req t st = (out, st')"
  defines "k \<equiv> cache_key (ID t) (ReqModel req) (Messages req)"
  obtains (stream) "Stream req" "cache_st st' = cache_st st" "\<And>w. out = Return w \<Longrightarrow> headers w ''X-Cache'' = None"
  | (hit) v where "\<not> Stream req" "cache_Get (gw_cache g) k (cache_st st) = (Inr (Some v), cache_st st')" "out = Return (hit_response v)"
  | (miss) "\<not> Stream req" "cache_st st' = snd (cache_Get (gw_cache g) k (cache_st st))"
      "\<And>w. out = Return w \<Longrightarrow> headers w ''X-Cache'' = None"
  | (fresh) w where "\<not> Stream req" "out = Return w" "status_of w = 200" "headers w ''X-Cache'' = None"
      "cache_st st' = snd (cache_Set (gw_cache g) k (written w) Hour (snd (cache_Get (gw_cache g) k (cache_st st))))"
proof (cases "Stream req")
  case True
  then have "serve_dispatch g env fl req t k st = (out, st')"
    using assms(1) by (simp add: serve_request_def k_def)
  from serve_dispatch_effect [OF this] True stream show thesis by auto
next
  case False
  obtain r c where c: "cache_Get (gw_cache g) k (cache_st st) = (r, c)" by fastforce
  show thesis
  proof (cases "\<exists>v. r = Inr (Some v)")
    case True
    then obtain v where "r = Inr (Some v)" by blast
    with False c assms(1) show thesis by (intro hit [of v]) (auto simp: serve_request_def k_def)
  next
    case noval: False
    then have "serve_dispatch g env fl req t k (st\<lparr>cache_st := c\<rparr>) = (out, st')"
      using False c assms(1) by (auto simp: serve_request_def k_def Let_def split: sum.splits option.splits)
    from serve_dispatch_effect [OF this] c False miss fresh show thesis by auto
  qed
qed

text \<open>What serving a tenant does to the cache.\<close>

lemma serve_tenant_effect:
  assumes "serve_tenant g env r t st = (out, st')"
  obtains (early) "cache_st st' = cache_st st" "\<And>w. out = Return w \<Longrightarrow> headers w ''X-Cache'' = None"
  | (late) req tb where "decode_request (body r) = (req, None)"
      "serve_request g env (can_flush r) req t (st\<lparr>limiter_st := tb\<rparr>) = (out, st')"
proof -
  obtain rl tb where a: "Allow (limiter_st st) (ID t) (RateLimitRPM t) (at_bucket env) (at_refill env) = (rl, tb)"
    by fastforce
  obtain req err where d: "decode_request (body r) = (req, err)" by fastforce
  show thesis
  proof (cases "budget_exhausted t \<or> \<not> admits rl \<or> err \<noteq> None")
    case True
    then show thesis
      using assms by (intro early) (auto simp: serve_tenant_stages [OF a d] split: if_splits)
  next
    case False
    then show thesis using assms d by (intro late [of req tb]) (simp_all add: serve_tenant_stages [OF a d])
  qed
qed

context gateway_env
begin

lemma lookup_guarded:
  "cache.guarded P (cache_st st) \<Longrightarrow> (\<And>h v. P (tenant_key h) v) \<Longrightarrow> lookup_tenant g h st = (res, st1) \<Longrightarrow>
     cache.guarded P (cache_st st1)"
  by (rule lookup_tenant_guarded)

text \<open>One request: what it caches is its own answer, and what it is answered from the cache is in \<open>A\<close>.\<close>

lemma unserved_cache:
  assumes "cache.guarded P (cache_st st)" "\<And>h v. P (tenant_key h) v" "served_tenant g r st = None"
  shows "cache.guarded P (cache_st (snd (ServeHTTP g env r st)))
    \<and> (\<forall>w. fst (ServeHTTP g env r st) = Return w \<longrightarrow> headers w ''X-Cache'' = None)"
proof (cases "api_key r = []")
  case True
  then show ?thesis using assms(1) by (simp add: ServeHTTP_def)
next
  case False
  obtain res st1 where l: "lookup_tenant g (key_hash (api_key r)) st = (res, st1)" by fastforce
  have "cache.guarded P (cache_st st1)" using assms(1,2) l by (rule lookup_guarded)
  then show ?thesis
    using assms(3) False l lookup_served [OF False l]
    by (auto simp: ServeHTTP_def split: sum.splits option.splits)
qed

lemma request_provenance:
  assumes "cache.guarded (from_answers A) (cache_st st)" "served_tenant g r st = Some t" "plain (ID t)"
  defines "req \<equiv> fst (decode_request (body r))"
  shows "cache.guarded (from_answers (A \<union> set_option (fresh_answer g env r st))) (cache_st (snd (ServeHTTP g env r st)))
    \<and> (\<forall>w. fst (ServeHTTP g env r st) = Return w \<longrightarrow> headers w ''X-Cache'' \<noteq> None \<longrightarrow>
         (ID t, ReqModel req, digest req, written w) \<in> A)"
proof -
  obtain st1 where l: "lookup_tenant g (key_hash (api_key r)) st = (Inr (Some t), st1)"
    and s: "ServeHTTP g env r st = serve_tenant g env r t st1"
    using assms(2) by (rule ServeHTTP_served [where env = env])
  obtain out st' where o: "serve_tenant g env r t st1 = (out, st')" by fastforce
  let ?B = "A \<union> set_option (fresh_answer g env r st)" and ?k = "cache_key (ID t) (ReqModel req) (Messages req)"
  have gA: "cache.guarded (from_answers A) (cache_st st1)"
    using assms(1) from_answers_tenant l by (rule lookup_guarded)
  have weaken: "cache.guarded (from_answers ?B) c" if "cache.guarded (from_answers A) c" for c
    using that from_answers_mono [of A _ _ ?B] by (auto simp: cache.guarded_def)
  from o have "cache.guarded (from_answers ?B) (cache_st st') \<and>
      (\<forall>w. out = Return w \<longrightarrow> headers w ''X-Cache'' \<noteq> None \<longrightarrow> (ID t, ReqModel req, digest req, written w) \<in> A)"
  proof (cases rule: serve_tenant_effect)
    case early
    then show ?thesis using weaken gA by auto
  next
    case (late rq tb)
    have rq: "rq = req" using late(1) by (simp add: req_def)
    from late(2) show ?thesis unfolding rq
    proof (cases rule: serve_request_effect)
      case stream
      then show ?thesis using weaken gA by auto
    next
      case (hit v)
      then have c: "cache_Get (gw_cache g) ?k (cache_st st1) = (Inr (Some v), cache_st st')" by simp
      have "from_answers A ?k v" using cache.guarded_hit [OF gA c] .
      then have "(ID t, ReqModel req, digest req, v) \<in> A"
        using assms(3) by (auto simp: from_answers_def digest_def)
      then show ?thesis using hit(3) weaken guarded_after_get [OF gA c] by auto
    next
      case miss
      then show ?thesis using weaken cache.guarded_get [OF gA, of ?k] by auto
    next
      case (fresh w)
      have "fresh_answer g env r st = Some (ID t, ReqModel req, digest req, written w)"
        using fresh s o assms(2) by (simp add: fresh_answer_def Let_def req_def)
      then have "from_answers ?B ?k (written w)" by (intro from_answers_own assms(3)) simp
      then have "cache.guarded (from_answers ?B) (cache_st st')"
        using weaken [OF cache.guarded_get [OF gA, of ?k]] fresh(5) by (simp add: cache.guarded_set)
      then show ?thesis using fresh(2,4) by auto
    qed
  qed
  then show ?thesis using s o by simp
qed

lemma run_provenance:
  assumes "cache.guarded (from_answers A) (cache_st st)" "plain_ids g rs st"
  shows "cache.guarded (from_answers (A \<union> answers g rs st)) (cache_st (gateway_run g rs st))"
  using assms
proof (induction rs arbitrary: A st)
  case (Cons a rs)
  obtain env r where a: "a = (env, r)" by fastforce
  let ?st = "snd (ServeHTTP g env r st)" and ?B = "A \<union> set_option (fresh_answer g env r st)"
  have "cache.guarded (from_answers ?B) (cache_st ?st)"
  proof (cases "served_tenant g r st")
    case None
    then have "fresh_answer g env r st = None" by (simp add: fresh_answer_def Let_def)
    with None show ?thesis using unserved_cache [OF Cons.prems(1) from_answers_tenant None] by simp
  next
    case (Some t)
    with Cons.prems show ?thesis using request_provenance [OF Cons.prems(1) Some] by (simp add: a)
  qed
  from Cons.IH [OF this] Cons.prems(2) show ?case by (simp add: a Un_assoc)
qed simp

end

text \<open>
  C7: the response cache never crosses tenants: over any run of a gateway that started with
  an empty cache, an answer marked as a cache hit was computed by a provider for an earlier
  request of the run by the same tenant, for the same model and for messages with the same
  digest. This needs tenant IDs without a colon, which the cache key uses as a separator.
\<close>
theorem cache_hits_stay_with_tenant:
  assumes "gateway_env g holds db_inv" and "\<forall>k v. \<not> holds (cache_st st) k v"
    and "plain_ids g (rs @ [(env, r)]) st"
    and "ServeHTTP g env r (gateway_run g rs st) = (Return w, st')" and "headers w ''X-Cache'' = Some ''HIT''"
  shows "\<exists>t. served_tenant g r (gateway_run g rs st) = Some t
    \<and> (let req = fst (decode_request (body r)) in (ID t, ReqModel req, digest req, written w) \<in> answers g rs st)"
proof -
  let ?st = "gateway_run g rs st"
  have p: "plain_ids g (qs @ [(env, r)]) st0 \<Longrightarrow> plain_ids g qs st0
      \<and> (case served_tenant g r (gateway_run g qs st0) of None \<Rightarrow> True | Some t \<Rightarrow> plain (ID t))" for qs st0
    by (induction g qs st0 rule: gateway_run.induct) (auto split: option.splits)
  have c: "byte_cache (gw_cache g) holds" using assms(1) by (simp add: gateway_env_def)
  have "byte_cache.guarded holds (from_answers {}) (cache_st st)"
    using assms(2) by (simp add: byte_cache.guarded_def [OF c])
  from gateway_env.run_provenance [OF assms(1) this] p [OF assms(3)]
  have A: "byte_cache.guarded holds (from_answers (answers g rs st)) (cache_st ?st)" by simp
  show ?thesis
  proof (cases "served_tenant g r ?st")
    case None
    have "\<And>h v. from_answers (answers g rs st) (tenant_key h) v" by (rule from_answers_tenant)
    from gateway_env.unserved_cache [OF assms(1) A this None, of env] assms(4,5) show ?thesis by simp
  next
    case (Some t)
    with p [OF assms(3)] have "plain (ID t)" by simp
    from gateway_env.request_provenance [OF assms(1) A Some this, of env] assms(4,5) Some show ?thesis
      by (simp add: Let_def)
  qed
qed

lemma hello_served:
  assumes "data (cache_st st) (tenant_key seed_hash) = Some (marshal_tenant seed_tenant)" "api_key r = seed_key"
  shows "served_tenant hello_gateway r st = Some seed_tenant"
  using memory_lookup_cached [OF assms(1) seed_tenant_valid] assms(2)
  by (simp add: served_tenant_def hello_gateway_def seed_hash_key) (simp add: seed_key_def)

theorem cache_hits_stay_with_tenant_witness:
  "\<exists>w. fst (ServeHTTP hello_gateway hello_env merged_request (gateway_run hello_gateway [(hello_env, hello_request)] hello_state)) = Return w
     \<and> (ID seed_tenant, ReqModel merged_chat, digest merged_chat, written w) \<in> answers hello_gateway [(hello_env, hello_request)] hello_state"
proof -
  obtain w st' where s: "ServeHTTP hello_gateway hello_env hello_request hello_state = (Return w, st')" and
    c: "data (cache_st st') = [tenant_key seed_hash \<mapsto> marshal_tenant seed_tenant, hello_key \<mapsto> marshal_response hello]" and
    l: "limiter_st st' = snd (Allow (NewTokenBucket (100 * Millisecond)) ''5e1f'' 100 1 2)"
    by (rule hello_answer)
  let ?g = hello_gateway and ?rs = "[(hello_env, hello_request)]"
  have run: "gateway_run ?g ?rs hello_state = st'" by (simp add: s)
  obtain out st2 where s2: "ServeHTTP ?g hello_env merged_request st' = (out, st2)" by fastforce
  with merged_hit [OF c l] have out: "out = Return (hit_response (marshal_response hello))" by simp
  have k: "api_key hello_request = seed_key" "api_key merged_request = seed_key"
    by (simp_all add: merged_request_def hello_request_def)
  have "tenant_key seed_hash \<noteq> hello_key" using tenant_key_not_cache_key by (metis hello_key_def)
  then have t2: "served_tenant ?g merged_request st' = Some seed_tenant" by (intro hello_served) (simp_all add: c k)
  have t1: "served_tenant ?g hello_request hello_state = Some seed_tenant"
    using hello_lookup by (simp add: served_tenant_def k seed_hash_key) (simp add: seed_key_def)
  have "plain (ID seed_tenant)" by (simp add: plain_def seed_tenant_def)
  then have "plain_ids ?g (?rs @ [(hello_env, merged_request)]) hello_state" by (simp add: t1 t2 s)
  moreover have "\<forall>k v. data (cache_st hello_state) k \<noteq> Some v" by (simp add: hello_state_def NewMemoryCache_def)
  ultimately show ?thesis
    using cache_hits_stay_with_tenant [OF hello_env, of hello_state ?rs hello_env merged_request] run s2 out t2
    by (auto simp: merged_decodes Let_def)
qed

end
