(* ===== verification/Json_Float.thy ===== *)
theory Json_Float
  imports Json_Struct
begin

text \<open>
  How \<open>encoding/json\<close> prints a \<open>float64\<close>: the shortest decimal that reads back as the same
  value, the nearest of them, in positional form from \<open>1e-6\<close> up to \<open>1e21\<close> and with an
  exponent outside; and the proof that it does read back.
\<close>

section \<open>The shortest decimal\<close>

function decimal_length :: "int \<Rightarrow> int" where
  "decimal_length n = (if n < 10 then 1 else 1 + decimal_length (n div 10))"
  by pat_completeness auto
termination
  by (relation "measure nat") auto

declare decimal_length.simps [simp del]

text \<open>The place of the decimal point: \<open>10 powi (p - 1) \<le> q < 10 powi p\<close>.\<close>

definition decimal_point :: "rat \<Rightarrow> int" where
  "decimal_point q =
     (if 1 \<le> q then decimal_length \<lfloor>q\<rfloor>
      else let k = decimal_length \<lfloor>1 / q\<rfloor> in if q = 10 powi (1 - k) then 2 - k else 1 - k)"

text \<open>
  The decimals with \<open>n\<close> digits on either side of \<open>q\<close>; the first \<open>n\<close> for which one of them
  rounds to \<open>q\<close> gives the shortest. Seventeen digits are always enough.
\<close>

fun shortest :: "nat \<Rightarrow> rat \<Rightarrow> int \<Rightarrow> int \<times> int" where
  "shortest 0 q n = (let x = decimal_point q - n in (round_even (q / 10 powi x), x))"
| "shortest (Suc fuel) q n =
     (let x = decimal_point q - n; s = q / 10 powi x; lo = \<lfloor>s\<rfloor>;
          below = (rnd (of_int lo * 10 powi x) = q);
          above = (rnd (of_int (lo + 1) * 10 powi x) = q)
      in if below \<and> (\<not> above \<or> s - of_int lo \<le> of_int lo + 1 - s) then (lo, x)
         else if above then (lo + 1, x)
         else shortest fuel q (n + 1))"

fun strip_zeros :: "nat \<Rightarrow> int \<times> int \<Rightarrow> int \<times> int" where
  "strip_zeros 0 d = d"
| "strip_zeros (Suc fuel) (m, x) =
     (if m mod 10 = 0 then strip_zeros fuel (m div 10, x + 1) else (m, x))"

definition shortest_decimal :: "rat \<Rightarrow> int \<times> int" where
  "shortest_decimal q = strip_zeros 17 (shortest 17 q 1)"

section \<open>Printing\<close>

definition zeros :: "int \<Rightarrow> string" where
  "zeros k = replicate (nat k) (CHR ''0'')"

definition positional :: "int \<times> int \<Rightarrow> string" where
  "positional d =
     (let (m, x) = d; ds = itoa m; p = int (length ds) + x
      in if 0 \<le> x then ds @ zeros x
         else if 0 < p then take (nat p) ds @ CHR ''.'' # drop (nat p) ds
         else ''0.'' @ zeros (- p) @ ds)"

definition scientific :: "int \<times> int \<Rightarrow> string" where
  "scientific d =
     (let (m, x) = d; ds = itoa m; e = int (length ds) + x - 1
      in take 1 ds @ (if length ds = 1 then [] else CHR ''.'' # drop 1 ds)
         @ CHR ''e'' # (if e < 0 then CHR ''-'' else CHR ''+'') # itoa \<bar>e\<bar>)"

definition format_positive :: "rat \<Rightarrow> string" where
  "format_positive q =
     (if q < rnd (1 / 10 ^ 6) \<or> rnd (10 ^ 21) \<le> q then scientific (shortest_decimal q)
      else positional (shortest_decimal q))"

definition format_float :: "rat \<Rightarrow> string" where
  "format_float q =
     (if q = 0 then ''0'' else if q < 0 then CHR ''-'' # format_positive (- q) else format_positive q)"

text \<open>Infinities and NaN have no JSON form: the encoder fails.\<close>

definition json_float :: "float64 \<Rightarrow> json option" where
  "json_float v = (case v of Fin q \<Rightarrow> Some (JNum (format_float q)) | _ \<Rightarrow> None)"

section \<open>Decimal places\<close>

lemma decimal_length_pos: "1 \<le> decimal_length n"
  by (induction n rule: decimal_length.induct) (subst decimal_length.simps, auto)

lemma decimal_length_bounds:
  "0 < n \<Longrightarrow> 10 powi (decimal_length n - 1) \<le> (of_int n :: rat) \<and> (of_int n :: rat) < 10 powi (decimal_length n)"
proof (induction n rule: decimal_length.induct)
  case (1 n)
  show ?case
  proof (cases "n < 10")
    case True
    then show ?thesis using 1(2) by (subst (1 2) decimal_length.simps) (simp add: power_int_def)
  next
    case False
    let ?k = "decimal_length (n div 10)"
    have IH: "10 powi (?k - 1) \<le> (of_int (n div 10) :: rat)" "(of_int (n div 10) :: rat) < 10 powi ?k"
      using 1 False by auto
    have k: "1 \<le> ?k" by (rule decimal_length_pos)
    have p: "(10 :: rat) powi ?k = of_int (10 ^ nat ?k)" "(10 :: rat) powi (?k - 1) = of_int (10 ^ nat (?k - 1))"
      using k by (simp_all add: power_int_def)
    have up: "n div 10 + 1 \<le> 10 ^ nat ?k" using IH(2) unfolding p by (simp only: of_int_less_iff)
    have lo: "10 ^ nat (?k - 1) \<le> n div 10" using IH(1) unfolding p by (simp only: of_int_le_iff)
    have "n < 10 * (n div 10 + 1)" by presburger
    also have "\<dots> \<le> 10 * 10 ^ nat ?k" using up by simp
    finally have u: "(of_int n :: rat) < of_int (10 * 10 ^ nat ?k)" by (simp only: of_int_less_iff)
    have "10 * 10 ^ nat (?k - 1) \<le> 10 * (n div 10)" using lo by simp
    also have "\<dots> \<le> n" by presburger
    finally have l: "(of_int (10 * 10 ^ nat (?k - 1)) :: rat) \<le> of_int n" by (simp only: of_int_le_iff)
    have "(10 :: rat) powi (1 + ?k) = of_int (10 * 10 ^ nat ?k)" "(10 :: rat) powi ?k = of_int (10 * 10 ^ nat (?k - 1))"
      using k by (simp_all add: power_int_add p) (simp add: power_int_def nat_diff_distrib' flip: power_Suc)
    with u l False show ?thesis by (subst (1 2) decimal_length.simps) simp
  qed
qed

lemma decimal_point_lower:
  assumes "0 < q" shows "10 powi (decimal_point q - 1) \<le> q"
proof (cases "1 \<le> q")
  case True
  then have "0 < \<lfloor>q\<rfloor>" by simp
  from decimal_length_bounds [OF this] have "10 powi (decimal_length \<lfloor>q\<rfloor> - 1) \<le> (of_int \<lfloor>q\<rfloor> :: rat)" ..
  also have "\<dots> \<le> q" by simp
  finally show ?thesis using True by (simp add: decimal_point_def)
next
  case False
  let ?k = "decimal_length \<lfloor>1 / q\<rfloor>"
  have "0 < \<lfloor>1 / q\<rfloor>" using assms False by (simp add: pos_le_divide_eq)
  from decimal_length_bounds [OF this] have u: "(of_int \<lfloor>1 / q\<rfloor> :: rat) < 10 powi ?k" ..
  have k: "1 \<le> ?k" by (rule decimal_length_pos)
  have "(10 :: rat) powi ?k = of_int (10 ^ nat ?k)" using k by (simp add: power_int_def)
  with u have "1 / q < 10 powi ?k" by (simp add: floor_less_iff flip: of_int_less_iff)
  then have "10 powi (- ?k) < q"
    using assms by (simp add: power_int_minus divide_simps mult.commute)
  then show ?thesis using False by (simp add: decimal_point_def Let_def)
qed

section \<open>A near decimal reads back\<close>

lemma round_even_near: "\<bar>x - of_int n\<bar> < 1 / 2 \<Longrightarrow> round_even x = n"
proof -
  assume "\<bar>x - of_int n\<bar> < 1 / 2"
  moreover have "\<bar>of_int (round_even x) - x\<bar> \<le> 1 / 2" by (rule round_even_error)
  ultimately have "\<bar>of_int (round_even x) - (of_int n :: rat)\<bar> < 1" by linarith
  then have "\<bar>round_even x - n\<bar> < 1" by (simp only: of_int_less_1_iff flip: of_int_diff of_int_abs)
  then show ?thesis by simp
qed

lemma rnd_eq_near:
  assumes "c \<noteq> 0" "\<bar>c - of_int n * 2 powi (ulp_exp c)\<bar> < 2 powi (ulp_exp c) / 2"
  shows "rnd c = of_int n * 2 powi (ulp_exp c)"
proof -
  let ?u = "2 powi (ulp_exp c) :: rat"
  have u: "0 < ?u" by simp
  have "c / ?u - of_int n = (c - of_int n * ?u) / ?u" using u by (simp add: diff_divide_distrib)
  then have "\<bar>c / ?u - of_int n\<bar> = \<bar>c - of_int n * ?u\<bar> / ?u" by (simp add: abs_divide)
  also have "\<dots> < 1 / 2" using assms(2) u by (simp add: pos_divide_less_eq)
  finally show ?thesis using assms(1) by (simp add: rnd_def round_even_near)
qed

lemma rnd_fixed_multiple:
  assumes "rnd q = q" "q \<noteq> 0"
  obtains n where "q = of_int n * 2 powi (ulp_exp q)"
  using assms that [of "round_even (q / 2 powi (ulp_exp q))"] by (simp add: rnd_def)

lemma two_powi_multiple:
  assumes "e \<le> k" shows "2 powi k = of_int (2 ^ nat (k - e)) * (2 :: rat) powi e"
proof -
  have "(2 :: rat) powi k = 2 powi (k - e) * 2 powi e" by (subst power_int_add [symmetric]) simp_all
  moreover have "(2 :: rat) powi (k - e) = of_int (2 ^ nat (k - e))" using assms by (simp add: power_int_def)
  ultimately show ?thesis by simp
qed

text \<open>
  A decimal that differs from a value \<open>q\<close> by at most a relative \<open>5e-17\<close> rounds to it.
\<close>

lemma near_rounds:
  assumes "0 < q" "rnd q = q" "\<bar>c - q\<bar> \<le> q / (2 * 10 ^ 16)"
  shows "rnd c = q"
proof -
  define k where "k = ilog2 q"
  define e where "e = ulp_exp q"
  have k: "2 powi k \<le> q" "q < 2 powi (k + 1)" using ilog2_bounds [OF assms(1)] by (simp_all add: k_def)
  obtain n where n: "q = of_int n * 2 powi e"
    using assms(1,2) by (metis e_def less_irrefl rnd_fixed_multiple)
  have e: "e = max (k - 52) (- 1074)" using assms(1) by (simp add: e_def ulp_exp_def k_def)
  have c0: "0 < c"
  proof -
    have "q / (2 * 10 ^ 16) < q" using assms(1) by simp
    then show ?thesis using assms(3) by (simp add: abs_if split: if_splits)
  qed
  have half: "q / (2 * 10 ^ 16) < 2 powi e / 2"
  proof -
    have "q / (2 * 10 ^ 16) < 2 powi (k + 1) / (2 * 10 ^ 16)" using k(2) by (simp add: divide_strict_right_mono)
    also have "\<dots> \<le> 2 powi (k - 52) / 2" by (simp add: power_int_diff power_int_add)
    also have "\<dots> \<le> 2 powi e / 2" by (simp add: e)
    finally show ?thesis .
  qed
  have d: "\<bar>c - q\<bar> < 2 powi e / 2" using assms(3) half by simp
  have n0: "0 < n"
    using zero_less_mult_pos2 [OF assms(1) [unfolded n] two_powi_pos] by simp
  have ek: "e \<le> k"
  proof -
    have "1 * 2 powi e \<le> of_int n * (2 :: rat) powi e"
      using n0 less_imp_le [OF two_powi_pos [of e]] by (intro mult_right_mono) simp_all
    then have "2 powi e \<le> q" by (simp add: n)
    then have "2 powi e < (2 :: rat) powi (k + 1)" using k(2) by linarith
    then show ?thesis by simp
  qed
  define t where "t = (2 :: int) ^ nat (k - e)"
  have t: "2 powi k = of_int t * (2 :: rat) powi e" unfolding t_def using ek by (rule two_powi_multiple)
  have t2: "2 powi (k + 1) = of_int (2 * t) * (2 :: rat) powi e" by (simp add: power_int_add t)
  have nt: "t \<le> n" "n < 2 * t"
    using k unfolding n t t2 by (simp_all only: mult_le_cancel_right mult_less_cancel_right) simp_all
  show ?thesis
  proof (cases "2 powi k \<le> c")
    case True
    have "c < 2 powi (k + 1)"
    proof -
      have "of_int (n + 1) * 2 powi e \<le> of_int (2 * t) * (2 :: rat) powi e"
        using nt(2) by (intro mult_right_mono) (simp_all only: of_int_le_iff, simp_all)
      then have "q + 2 powi e \<le> 2 powi (k + 1)" by (simp only: n t2 of_int_add of_int_1 distrib_right mult_1)
      then show ?thesis using d by (simp add: abs_if split: if_splits)
    qed
    with True have "ilog2 c = k" by (intro ilog2_eqI)
    then have "ulp_exp c = e" using c0 by (simp add: ulp_exp_def e)
    then show ?thesis using rnd_eq_near [of c n] c0 d by (simp add: n)
  next
    case False
    have "n = t"
    proof (rule ccontr)
      assume "n \<noteq> t"
      then have "of_int (t + 1) * 2 powi e \<le> of_int n * (2 :: rat) powi e"
        using nt(1) by (intro mult_right_mono) (simp_all only: of_int_le_iff, simp_all)
      then have "2 powi k + 2 powi e \<le> q" by (simp only: n t of_int_add of_int_1 distrib_right mult_1)
      moreover have "0 < (2 :: rat) powi e" by simp
      ultimately show False using d False by (simp add: abs_if split: if_splits)
    qed
    then have q: "q = 2 powi k" by (simp add: n t)
    have low: "2 powi (k - 1) \<le> c"
    proof -
      have "q / (2 * 10 ^ 16) \<le> q / 2" using assms(1) by (simp add: field_simps)
      then have "q / 2 \<le> c" using assms(3) by (simp add: abs_if split: if_splits)
      then show ?thesis by (simp add: q power_int_diff)
    qed
    with False have "ilog2 c = k - 1" by (intro ilog2_eqI) simp_all
    then have uc: "ulp_exp c = max (k - 53) (- 1074)" using c0 by (simp add: ulp_exp_def)
    have ck: "ulp_exp c \<le> k" using uc ek e by simp
    have "\<bar>c - q\<bar> \<le> 2 powi k / (2 * 10 ^ 16)" using assms(3) by (simp add: q)
    also have "\<dots> < 2 powi (k - 53) / 2" by (simp add: power_int_diff)
    also have "\<dots> \<le> 2 powi (ulp_exp c) / 2" by (simp add: uc)
    finally have "\<bar>c - q\<bar> < 2 powi (ulp_exp c) / 2" .
    moreover have "q = of_int (2 ^ nat (k - ulp_exp c)) * 2 powi (ulp_exp c)"
      unfolding q using ck by (rule two_powi_multiple)
    ultimately show ?thesis using rnd_eq_near [of c "2 ^ nat (k - ulp_exp c)"] c0 by simp
  qed
qed

text \<open>The search ends with a decimal that reads back, after seventeen digits at the latest.\<close>

definition decimal_value :: "int \<times> int \<Rightarrow> rat" where
  "decimal_value d = of_int (fst d) * 10 powi (snd d)"

lemma ten_powi_pos: "0 < (10 :: rat) powi k"
  by simp

lemma nearest_17:
  assumes "0 < q" "rnd q = q"
  defines "x \<equiv> decimal_point q - 17"
  shows "rnd (of_int \<lfloor>q / 10 powi x\<rfloor> * 10 powi x) = q \<or> rnd (of_int (\<lfloor>q / 10 powi x\<rfloor> + 1) * 10 powi x) = q"
proof -
  define T where "T = (10 :: rat) powi x"
  define lo where "lo = \<lfloor>q / T\<rfloor>"
  have T: "0 < T" by (simp add: T_def)
  have "(10 :: rat) powi (decimal_point q - 1) = T * 10 ^ 16"
    by (simp add: T_def x_def power_int_diff)
  then have Tq: "T / 2 \<le> q / (2 * 10 ^ 16)" using decimal_point_lower [OF assms(1)] by (simp add: field_simps)
  have "of_int lo \<le> q / T" "q / T < of_int (lo + 1)" unfolding lo_def by linarith+
  then have b: "of_int lo * T \<le> q" "q < of_int (lo + 1) * T"
    using T by (simp_all add: pos_le_divide_eq pos_divide_less_eq)
  have "of_int (lo + 1) * T = of_int lo * T + T" by (simp add: distrib_right)
  then have "\<bar>of_int lo * T - q\<bar> \<le> T / 2 \<or> \<bar>of_int (lo + 1) * T - q\<bar> \<le> T / 2" using b by linarith
  then show ?thesis
    using near_rounds [OF assms(1,2)] Tq unfolding lo_def T_def by (meson order_trans)
qed

lemma floor_scaled_pos:
  assumes "0 < q" "1 \<le> n" shows "1 \<le> \<lfloor>q / 10 powi (decimal_point q - n)\<rfloor>"
proof -
  have "(10 :: rat) powi (decimal_point q - n) \<le> 10 powi (decimal_point q - 1)"
    using assms(2) by (intro power_int_increasing) simp_all
  also have "\<dots> \<le> q" by (rule decimal_point_lower [OF assms(1)])
  finally have "1 \<le> q / 10 powi (decimal_point q - n)" using ten_powi_pos by (simp add: pos_le_divide_eq)
  then show ?thesis by simp
qed

lemma shortest_reads:
  assumes "0 < q" "rnd q = q"
  shows "1 \<le> n \<Longrightarrow> n \<le> 17 \<Longrightarrow> 17 < n + int fuel \<Longrightarrow>
    1 \<le> fst (shortest fuel q n) \<and> rnd (decimal_value (shortest fuel q n)) = q"
proof (induction fuel arbitrary: n)
  case (Suc fuel)
  let ?x = "decimal_point q - n"
  let ?lo = "\<lfloor>q / 10 powi ?x\<rfloor>"
  have lo: "1 \<le> ?lo" using assms(1) Suc.prems(1) by (rule floor_scaled_pos)
  show ?case
  proof (cases "rnd (of_int ?lo * 10 powi ?x) = q \<or> rnd (of_int (?lo + 1) * 10 powi ?x) = q")
    case True
    have "0 \<le> q / 10 powi ?x" using divide_pos_pos [OF assms(1) ten_powi_pos] by (rule less_imp_le)
    with True show ?thesis using lo by (auto simp: Let_def decimal_value_def)
  next
    case False
    then have "n \<noteq> 17" using nearest_17 [OF assms] by auto
    then have "1 \<le> n + 1" "n + 1 \<le> 17" "17 < n + 1 + int fuel" using Suc.prems by simp_all
    from Suc.IH [OF this] False show ?thesis by (simp add: Let_def)
  qed
qed simp

lemma strip_zeros_value:
  "1 \<le> fst d \<Longrightarrow> 1 \<le> fst (strip_zeros fuel d) \<and> decimal_value (strip_zeros fuel d) = decimal_value d"
proof (induction fuel d rule: strip_zeros.induct)
  case (2 fuel m x)
  show ?case
  proof (cases "m mod 10 = 0")
    case True
    then have m: "m = 10 * (m div 10)" by presburger
    have pos: "1 \<le> m div 10" using 2(2) True by (simp add: zdiv_int) presburger
    have "decimal_value (m div 10, x + 1) = decimal_value (m, x)"
      by (subst (2) m) (simp add: decimal_value_def power_int_add)
    with 2(1) [OF True] pos True show ?thesis by simp
  qed (use 2 in simp)
qed simp

lemma shortest_decimal_reads:
  assumes "0 < q" "rnd q = q"
  shows "1 \<le> fst (shortest_decimal q)" "rnd (decimal_value (shortest_decimal q)) = q"
  using shortest_reads [OF assms, of 1 17] strip_zeros_value [of "shortest 17 q 1" 17]
  by (simp_all add: shortest_decimal_def)

section \<open>Number literals\<close>

definition frac_text :: "string \<Rightarrow> string" where
  "frac_text fd = (if fd = [] then [] else CHR ''.'' # fd)"

definition exp_text :: "(bool \<times> string) option \<Rightarrow> string" where
  "exp_text ex = (case ex of None \<Rightarrow> [] | Some (neg, xd) \<Rightarrow> CHR ''e'' # (if neg then CHR ''-'' else CHR ''+'') # xd)"

definition number_text :: "string \<Rightarrow> string \<Rightarrow> (bool \<times> string) option \<Rightarrow> string" where
  "number_text i fd ex = i @ frac_text fd @ exp_text ex"

definition well_formed :: "string \<Rightarrow> string \<Rightarrow> (bool \<times> string) option \<Rightarrow> bool" where
  "well_formed i fd ex \<longleftrightarrow> i \<noteq> [] \<and> list_all is_digit i \<and> (hd i = CHR ''0'' \<longrightarrow> i = ''0'') \<and> list_all is_digit fd
     \<and> (case ex of None \<Rightarrow> True | Some (neg, xd) \<Rightarrow> xd \<noteq> [] \<and> list_all is_digit xd)"

lemma well_formed_head:
  assumes "well_formed i fd ex" obtains c cs where "i = c # cs" "c \<noteq> CHR ''-''"
proof (cases i)
  case (Cons c cs)
  then have "is_digit c" using assms by (simp add: well_formed_def)
  then have "c \<noteq> CHR ''-''" by auto
  with Cons show thesis by (rule that)
qed (use assms in \<open>simp add: well_formed_def\<close>)

definition stops :: "string \<Rightarrow> bool" where
  "stops t \<longleftrightarrow> t = [] \<or> \<not> is_digit (hd t)"

lemma digits_stop:
  assumes "list_all is_digit ds" "stops t"
  shows "takeWhile is_digit (ds @ t) = ds" "dropWhile is_digit (ds @ t) = t"
proof -
  have "takeWhile is_digit t = []" "dropWhile is_digit t = t"
    using assms(2) by (cases t; simp add: stops_def)+
  then show "takeWhile is_digit (ds @ t) = ds" "dropWhile is_digit (ds @ t) = t"
    using assms(1) by (simp_all add: takeWhile_append list_all_iff)
qed

lemma not_digits [simp]: "\<not> is_digit (CHR ''.'')" "\<not> is_digit (CHR ''e'')"
  by (simp_all add: is_digit_def byte_def)

lemma number_ends_stops: "number_ends r \<Longrightarrow> stops r"
  using number_ends_chars(1) [of r "hd r" "tl r"] by (cases r) (auto simp: stops_def)

lemma exp_text_stops: "stops r \<Longrightarrow> stops (exp_text ex @ r)"
  by (auto simp: exp_text_def stops_def split: option.split)

lemma frac_text_stops: "stops r \<Longrightarrow> stops (frac_text fd @ r)"
  by (auto simp: frac_text_def stops_def)

lemma scan_int_text:
  assumes "i \<noteq> []" "list_all is_digit i" "hd i = CHR ''0'' \<longrightarrow> i = ''0''" "stops t"
  shows "scan_int (i @ t) = Some (i, t)"
  using assms digits_stop [OF assms(2,4)] by (cases i) (auto simp: scan_int_def digits_of_def)

lemma scan_frac_text:
  assumes "list_all is_digit fd" "stops t" "t = [] \<or> hd t \<noteq> CHR ''.''"
  shows "scan_frac (frac_text fd @ t) = Some (frac_text fd, t)"
proof (cases "fd = []")
  case True
  then show ?thesis using assms(3) by (cases t) (auto simp: scan_frac_def frac_text_def)
next
  case False
  then show ?thesis using digits_stop [OF assms(1,2)] by (simp add: scan_frac_def frac_text_def digits_of_def)
qed

lemma scan_exp_text:
  assumes "case ex of None \<Rightarrow> True | Some (neg, xd) \<Rightarrow> xd \<noteq> [] \<and> list_all is_digit xd" "number_ends r"
  shows "scan_exp (exp_text ex @ r) = Some (exp_text ex, r)"
proof (cases ex)
  case None
  then show ?thesis using number_ends_scan [OF assms(2)] by (simp add: exp_text_def)
next
  case (Some e)
  then obtain neg xd where e: "ex = Some (neg, xd)" by (cases e) auto
  with assms(1) digits_stop [OF _ number_ends_stops [OF assms(2)], of xd]
  show ?thesis by (auto simp: e scan_exp_def exp_text_def digits_of_def)
qed

lemma no_dot_after: "number_ends r \<Longrightarrow> exp_text ex @ r = [] \<or> hd (exp_text ex @ r) \<noteq> CHR ''.''"
  using number_ends_chars(2) [of r "hd r" "tl r"]
  by (cases r) (auto simp: exp_text_def split: option.split)

lemma scan_number_text:
  assumes "well_formed i fd ex" "number_ends r"
  shows "scan_number (number_text i fd ex @ r) = Some (number_text i fd ex, r)"
    and "scan_number (CHR ''-'' # number_text i fd ex @ r) = Some (CHR ''-'' # number_text i fd ex, r)"
proof -
  note st = exp_text_stops [OF number_ends_stops [OF assms(2)], of ex]
  have parts: "scan_int (i @ frac_text fd @ exp_text ex @ r) = Some (i, frac_text fd @ exp_text ex @ r)"
    "scan_frac (frac_text fd @ exp_text ex @ r) = Some (frac_text fd, exp_text ex @ r)"
    "scan_exp (exp_text ex @ r) = Some (exp_text ex, r)"
    using assms(1) scan_int_text [of i "frac_text fd @ exp_text ex @ r"] frac_text_stops [OF st]
      scan_frac_text [OF _ st no_dot_after [OF assms(2)]] scan_exp_text [OF _ assms(2)]
    by (auto simp: well_formed_def)
  obtain c cs where i: "i = c # cs" "c \<noteq> CHR ''-''" using assms(1) by (rule well_formed_head)
  show "scan_number (number_text i fd ex @ r) = Some (number_text i fd ex, r)"
    using parts i by (simp add: scan_number_def number_text_def)
  show "scan_number (CHR ''-'' # number_text i fd ex @ r) = Some (CHR ''-'' # number_text i fd ex, r)"
    using parts by (simp add: scan_number_def number_text_def)
qed

lemma number_literal_text:
  assumes "well_formed i fd ex"
  shows "number_literal (number_text i fd ex)" "number_literal (CHR ''-'' # number_text i fd ex)"
  using scan_number_text [OF assms] assms
  by (auto simp: number_literal_def number_text_def well_formed_def list_all_iff)

definition exponent :: "(bool \<times> string) option \<Rightarrow> int" where
  "exponent ex = (case ex of None \<Rightarrow> 0 | Some (neg, xd) \<Rightarrow>
     (if neg then - 1 else 1) * int (value_or 0 (digits_value 0 xd)))"

lemma literal_value_text:
  assumes "well_formed i fd ex"
  shows "literal_value (number_text i fd ex)
       = of_nat (value_or 0 (digits_value 0 (i @ fd))) * 10 powi (exponent ex - int (length fd))"
    and "literal_value (CHR ''-'' # number_text i fd ex) = - literal_value (number_text i fd ex)"
proof -
  have e: "stops (exp_text ex)" using exp_text_stops [of "[]" ex] by (simp add: stops_def)
  have i: "takeWhile is_digit (i @ frac_text fd @ exp_text ex) = i"
    "dropWhile is_digit (i @ frac_text fd @ exp_text ex) = frac_text fd @ exp_text ex"
    using digits_stop [of i, OF _ frac_text_stops [OF e]] assms by (auto simp: well_formed_def)
  have f: "takeWhile is_digit (fd @ exp_text ex) = fd" "dropWhile is_digit (fd @ exp_text ex) = exp_text ex"
    using digits_stop [of fd, OF _ e] assms by (auto simp: well_formed_def)
  obtain c cs where c: "i = c # cs" "c \<noteq> CHR ''-''" using assms by (rule well_formed_head)
  note facts = literal_value_def number_text_def Let_def
  show neg: "literal_value (CHR ''-'' # number_text i fd ex) = - literal_value (number_text i fd ex)"
    using c by (simp add: facts)
  show "literal_value (number_text i fd ex)
       = of_nat (value_or 0 (digits_value 0 (i @ fd))) * 10 powi (exponent ex - int (length fd))"
  proof (cases ex)
    case None
    then show ?thesis using i f c by (cases fd) (auto simp: facts frac_text_def exp_text_def exponent_def)
  next
    case (Some e)
    then obtain neg xd where "ex = Some (neg, xd)" by (cases e) auto
    moreover have "\<not> is_digit (CHR ''-'')" "\<not> is_digit (CHR ''+'')" by simp_all
    ultimately show ?thesis
      using i f c assms by (cases fd; cases neg) (auto simp: facts frac_text_def exp_text_def exponent_def)
  qed
qed

section \<open>Reading a printed float\<close>

lemma digits_value_append:
  "digits_value acc (s @ t) = (case digits_value acc s of None \<Rightarrow> None | Some v \<Rightarrow> digits_value v t)"
  by (induction s arbitrary: acc) auto

lemma zero_digit [simp]: "is_digit (CHR ''0'')" "byte (CHR ''0'') = 48"
  by (simp_all add: is_digit_def byte_def)

lemma digits_value_zeros: "digits_value acc (replicate k (CHR ''0'')) = Some (acc * 10 ^ k)"
  by (induction k arbitrary: acc) simp_all

lemma zeros_digits [simp]: "list_all is_digit (zeros k)"
  by (simp add: zeros_def list_all_iff)

lemma positive_digits:
  assumes "1 \<le> m"
  shows "itoa m = nat_digits (nat m)" "list_all is_digit (itoa m)" "itoa m \<noteq> []" "hd (itoa m) \<noteq> CHR ''0''"
    "digits_value 0 (itoa m) = Some (nat m)"
proof -
  show i: "itoa m = nat_digits (nat m)" using assms by (simp add: itoa_def)
  show "list_all is_digit (itoa m)" "itoa m \<noteq> []" "digits_value 0 (itoa m) = Some (nat m)"
    by (simp_all add: i nat_digits_are_digits digits_value_nat_digits)
  obtain c cs where "nat_digits (nat m) = c # cs" "c = CHR ''0'' \<longrightarrow> nat m = 0"
    using nat_digits_leading [of "nat m"] by blast
  then show "hd (itoa m) \<noteq> CHR ''0''" using assms by (auto simp: i)
qed

text \<open>Both forms are literals with the value of the decimal.\<close>

definition denotes :: "string \<Rightarrow> rat \<Rightarrow> bool" where
  "denotes l v \<longleftrightarrow> (\<exists>i fd ex. l = number_text i fd ex \<and> well_formed i fd ex \<and> literal_value l = v)"

lemma denotesI:
  assumes "l = number_text i fd ex" "well_formed i fd ex" "digits_value 0 (i @ fd) = Some n"
    "v = of_nat n * 10 powi (exponent ex - int (length fd))"
  shows "denotes l v"
  using assms literal_value_text(1) [OF assms(2)] by (auto simp: denotes_def)

lemma positional_denotes:
  assumes "1 \<le> m" shows "denotes (positional (m, x)) (decimal_value (m, x))"
proof -
  let ?ds = "itoa m"
  note d = positive_digits [OF assms]
  have v: "of_nat (nat m) = (of_int m :: rat)" using assms by simp
  show ?thesis
  proof (cases "0 \<le> x")
    case True
    have "well_formed (?ds @ zeros x) [] None" using d by (simp add: well_formed_def)
    moreover have "digits_value 0 ((?ds @ zeros x) @ []) = Some (nat m * 10 ^ nat x)"
      using d by (simp add: digits_value_append zeros_def digits_value_zeros)
    moreover have "decimal_value (m, x) = of_nat (nat m * 10 ^ nat x) * 10 powi (exponent None - int (length []))"
      using True v by (simp add: decimal_value_def exponent_def power_int_def)
    ultimately show ?thesis
      by (rule denotesI [rotated]) (simp add: positional_def True number_text_def frac_text_def exp_text_def)
  next
    case neg: False
    define p where "p = int (length ?ds) + x"
    show ?thesis
    proof (cases "0 < p")
      case True
      let ?i = "take (nat p) ?ds" and ?f = "drop (nat p) ?ds"
      have p: "nat p < length ?ds" "0 < nat p" using neg True by (simp_all add: p_def)
      then have ne: "?f \<noteq> []" "?i \<noteq> []" "hd ?i = hd ?ds" using d(3) by simp_all
      have "list_all is_digit ?i" "list_all is_digit ?f"
        using d(2) by (auto simp: list_all_iff dest: in_set_takeD in_set_dropD)
      then have "well_formed ?i ?f None" using ne d(4) by (simp add: well_formed_def)
      moreover have "digits_value 0 (?i @ ?f) = Some (nat m)" using d(5) by simp
      moreover have "decimal_value (m, x) = of_nat (nat m) * 10 powi (exponent None - int (length ?f))"
        using p v by (simp add: decimal_value_def exponent_def p_def of_nat_diff)
      ultimately show ?thesis
        by (rule denotesI [rotated])
          (use neg True ne in \<open>simp add: positional_def Let_def p_def number_text_def frac_text_def exp_text_def\<close>)
    next
      case False
      let ?f = "zeros (- p) @ ?ds"
      have "well_formed ''0'' ?f None" using d by (simp add: well_formed_def)
      moreover have "digits_value 0 (''0'' @ ?f) = Some (nat m)"
        using d by (simp add: digits_value_append zeros_def digits_value_zeros)
      moreover have "int (length ?f) = - x" using False by (simp add: zeros_def p_def)
      then have "decimal_value (m, x) = of_nat (nat m) * 10 powi (exponent None - int (length ?f))"
        using v by (simp only: decimal_value_def exponent_def) simp
      ultimately show ?thesis
        by (rule denotesI [rotated])
          (use neg False d in \<open>simp add: positional_def Let_def p_def number_text_def frac_text_def exp_text_def\<close>)
    qed
  qed
qed

lemma scientific_denotes:
  assumes "1 \<le> m" shows "denotes (scientific (m, x)) (decimal_value (m, x))"
proof -
  let ?ds = "itoa m"
  note d = positive_digits [OF assms]
  define e where "e = int (length ?ds) + x - 1"
  obtain c cs where c: "?ds = c # cs" using d(3) by (cases ?ds) auto
  have xd: "itoa \<bar>e\<bar> = nat_digits (nat \<bar>e\<bar>)" by (simp add: itoa_def)
  let ?ex = "Some (e < 0, itoa \<bar>e\<bar>)"
  have "well_formed [c] cs ?ex"
    using d(2,4) nat_digits_are_digits by (simp add: c well_formed_def xd)
  moreover have "digits_value 0 ([c] @ cs) = Some (nat m)" using d(5) by (simp add: c del: digits_value.simps)
  moreover have "exponent ?ex = e" by (simp add: exponent_def xd digits_value_nat_digits)
  then have "decimal_value (m, x) = of_nat (nat m) * 10 powi (exponent ?ex - int (length cs))"
    using assms by (simp add: decimal_value_def e_def c)
  ultimately show ?thesis
    by (rule denotesI [rotated])
      (cases cs; simp add: scientific_def Let_def c e_def number_text_def frac_text_def exp_text_def)
qed

text \<open>What the encoder prints for a float is a literal that the decoder reads as the same float.\<close>

lemma format_positive_reads:
  assumes "0 < q" "rnd q = q"
  shows "\<exists>v. denotes (format_positive q) v \<and> rnd v = q"
proof -
  obtain m x where d: "shortest_decimal q = (m, x)" by fastforce
  with shortest_decimal_reads [OF assms] have "1 \<le> m" "rnd (decimal_value (m, x)) = q" by simp_all
  then show ?thesis
    using positional_denotes [of m x] scientific_denotes [of m x] by (auto simp: format_positive_def d)
qed

lemma format_float_literal: "rnd q = q \<Longrightarrow> number_literal (format_float q)"
  and format_float_value: "rnd q = q \<Longrightarrow> rnd (literal_value (format_float q)) = q"
proof -
  assume q: "rnd q = q"
  have "number_literal (format_float q) \<and> rnd (literal_value (format_float q)) = q"
  proof (cases "q = 0")
    case True
    have "well_formed ''0'' [] None" by (simp add: well_formed_def)
    from number_literal_text(1) [OF this] literal_value_text(1) [OF this] show ?thesis
      by (simp add: True format_float_def number_text_def frac_text_def exp_text_def exponent_def)
  next
    case False
    then have "0 < \<bar>q\<bar>" "rnd \<bar>q\<bar> = \<bar>q\<bar>" using q by (auto simp: abs_if)
    from format_positive_reads [OF this] obtain i fd ex where
      t: "format_positive \<bar>q\<bar> = number_text i fd ex" "well_formed i fd ex"
      and r: "rnd (literal_value (number_text i fd ex)) = \<bar>q\<bar>"
      by (auto simp: denotes_def)
    show ?thesis
      using False t r number_literal_text [OF t(2)] literal_value_text(2) [OF t(2)]
      by (auto simp: format_float_def abs_if split: if_splits)
  qed
  then show "number_literal (format_float q)" "rnd (literal_value (format_float q)) = q" by auto
qed

end
