(* ===== verification/Multi_Logger.thy ===== *)
theory Multi_Logger
  imports Json_Float Log_Event Go_Time
begin

text \<open>
  The logger of \<open>internal/logging/logging.go\<close>: each record goes to the Kafka topic under its
  tenant's key and to the Redis channel the dashboard listens to. Kafka and Redis are
  parameters over the state \<open>'k\<close> they keep.
\<close>

section \<open>The JSON of a record\<close>

definition event_json :: "LogEvent \<Rightarrow> json option" where
  "event_json e =
     map_option
       (\<lambda>cost. JObj [(''request_id'', JStr (RequestID e)), (''tenant_id'', JStr (TenantID e)),
          (''provider'', JStr (LogProvider e)), (''model'', JStr (LogModel e)),
          (''prompt_tokens'', json_int (LogPromptTokens e)), (''completion_tokens'', json_int (LogCompletionTokens e)),
          (''cost_cents'', cost), (''latency_ms'', json_int (LatencyMs e)), (''status'', json_int (Status e)),
          (''cached'', JBool (Cached e)), (''timestamp'', json_int (Timestamp e))])
       (json_float (CostCents e))"

definition unsupported :: "float64 \<Rightarrow> go_error" where
  "unsupported x = GoError (''json: unsupported value: '' @ (case x of PInf \<Rightarrow> ''+Inf'' | NInf \<Rightarrow> ''-Inf'' | _ \<Rightarrow> ''NaN''))"

definition marshal_event :: "LogEvent \<Rightarrow> bytes go_result" where
  "marshal_event e = (case event_json e of None \<Rightarrow> Inl (unsupported (CostCents e)) | Some v \<Rightarrow> Inr (encode v))"

section \<open>The logger\<close>

record kafka_writer =
  writer_brokers :: "string list"
  writer_topic :: string
  writer_async :: bool
  writer_batch_size :: int
  writer_batch_timeout :: duration

definition NewMultiLogger :: "string list \<Rightarrow> string \<Rightarrow> kafka_writer" where
  "NewMultiLogger brokers topic =
     \<lparr>writer_brokers = brokers, writer_topic = topic, writer_async = True, writer_batch_size = 1000,
      writer_batch_timeout = 10 * Millisecond\<rparr>"

record 'k log_backend =
  WriteMessages :: "bytes \<Rightarrow> bytes \<Rightarrow> 'k \<Rightarrow> go_error option \<times> 'k"
  Publish :: "string \<Rightarrow> bytes \<Rightarrow> 'k \<Rightarrow> go_error option \<times> 'k"
  CloseWriter :: "'k \<Rightarrow> go_error option \<times> 'k"

definition multi_Log :: "'k log_backend \<Rightarrow> LogEvent \<Rightarrow> 'k \<Rightarrow> go_error option \<times> 'k" where
  "multi_Log b event k =
     (case marshal_event event of
        Inl (GoError e) \<Rightarrow> (Some (GoError (''failed to marshal log event: '' @ e)), k)
      | Inr payload \<Rightarrow> WriteMessages b (TenantID event) payload k)"

text \<open>Every record is broadcast. When it has no JSON form, an empty message is sent.\<close>

definition multi_Broadcast :: "'k log_backend \<Rightarrow> LogEvent \<Rightarrow> 'k \<Rightarrow> go_error option \<times> 'k" where
  "multi_Broadcast b event k =
     (let shouldBroadcast = True
      in if \<not> shouldBroadcast then (None, k)
         else
           let payload = (case marshal_event event of Inl _ \<Rightarrow> [] | Inr p \<Rightarrow> p)
           in Publish b ''logs:live'' payload k)"

definition multi_Close :: "'k log_backend \<Rightarrow> 'k \<Rightarrow> go_error option \<times> 'k" where
  "multi_Close b k = CloseWriter b k"

section \<open>Reading back a record\<close>

text \<open>A record with a finite cost, 64-bit counts and valid UTF-8 texts.\<close>

definition event_valid :: "LogEvent \<Rightarrow> bool" where
  "event_valid e \<longleftrightarrow> valid_utf8 (RequestID e) \<and> valid_utf8 (TenantID e) \<and> valid_utf8 (LogProvider e) \<and> valid_utf8 (LogModel e)
     \<and> is_int64 (LogPromptTokens e) \<and> is_int64 (LogCompletionTokens e) \<and> is_int64 (LatencyMs e) \<and> is_int64 (Status e)
     \<and> is_int64 (Timestamp e) \<and> (\<exists>q. CostCents e = Fin q \<and> f64 q = Fin q)"

lemma event_names [simp]:
  "sanitize ''request_id'' = ''request_id''" "sanitize ''tenant_id'' = ''tenant_id''"
  "sanitize ''provider'' = ''provider''" "sanitize ''prompt_tokens'' = ''prompt_tokens''"
  "sanitize ''completion_tokens'' = ''completion_tokens''" "sanitize ''cost_cents'' = ''cost_cents''"
  "sanitize ''latency_ms'' = ''latency_ms''" "sanitize ''status'' = ''status''" "sanitize ''cached'' = ''cached''"
  "sanitize ''timestamp'' = ''timestamp''" "sanitize ''model'' = ''model''"
  by (simp_all add: sanitize_ascii byte_def)

lemma set_float_json:
  assumes "f64 q = Fin q"
  shows "set_float upd (JNum (format_float q)) x = (upd (Fin q) x, None)"
proof -
  have q: "rnd q = q" using assms by (rule f64_FinD)
  have "f64 (literal_value (format_float q)) = f64 q"
    using format_float_value [OF q] q by (simp add: f64_def Let_def)
  then show ?thesis using assms by (simp add: set_float_def)
qed

lemma decode_event:
  assumes "event_valid e" "event_json e = Some v"
  shows "decode_struct event_fields v e0 = (e, None)"
proof -
  obtain q where q: "CostCents e = Fin q" "f64 q = Fin q" using assms(1) by (auto simp: event_valid_def)
  have i: "is_int64 (LogPromptTokens e)" "is_int64 (LogCompletionTokens e)" "is_int64 (LatencyMs e)"
    "is_int64 (Status e)" "is_int64 (Timestamp e)"
    using assms(1) by (simp_all add: event_valid_def)
  have "v = JObj [(''request_id'', JStr (RequestID e)), (''tenant_id'', JStr (TenantID e)),
          (''provider'', JStr (LogProvider e)), (''model'', JStr (LogModel e)),
          (''prompt_tokens'', json_int (LogPromptTokens e)), (''completion_tokens'', json_int (LogCompletionTokens e)),
          (''cost_cents'', JNum (format_float q)), (''latency_ms'', json_int (LatencyMs e)), (''status'', json_int (Status e)),
          (''cached'', JBool (Cached e)), (''timestamp'', json_int (Timestamp e))]"
    using assms(2) q by (simp add: event_json_def json_float_def)
  then show ?thesis
    using i q by (simp add: decode_struct_def find_field_def event_fields_def set_float_json)
qed

lemma unmarshal_marshal_event:
  assumes "event_valid e"
  shows "\<exists>s. marshal_event e = Inr s \<and> unmarshal_event s = Some e"
proof -
  obtain q where q: "CostCents e = Fin q" "f64 q = Fin q" using assms by (auto simp: event_valid_def)
  obtain v where v: "event_json e = Some v" using q by (simp add: event_json_def json_float_def)
  have "number_literal (format_float q)" using q(2) by (intro format_float_literal f64_FinD)
  then have p: "printable v" using v q by (auto simp: event_json_def json_float_def)
  have n: "nesting v \<le> max_depth" using v q by (auto simp: event_json_def json_float_def max_depth_def)
  have c: "cleaned v = v" using v q assms by (auto simp: event_json_def json_float_def event_valid_def valid_utf8_def)
  have "unmarshal_value (encode v) = Some v" using unmarshal_encode [OF p n] c by simp
  then have "unmarshal_event (encode v) = Some e"
    using decode_event [OF assms v] by (simp add: unmarshal_event_def Unmarshal_def)
  then show ?thesis using v by (simp add: marshal_event_def)
qed

end
