(* ===== verification/Multi_Logger_Properties.thy ===== *)
theory Multi_Logger_Properties
  imports Multi_Logger Budget_Processor Gateway
begin

text \<open>
  The properties of the logger, and what they give end to end: the cost the gateway computes
  for an answer is the cost the budget processor adds to the tenant's account.
\<close>

section \<open>Records survive the topic\<close>

text \<open>
  C25: a record survives the topic: the message the logger writes for a record with valid
  UTF-8 texts, 64-bit counts and a finite cost decodes, in the consumer, to exactly the same
  record; in particular the cost comes back as the same binary64 value although it travels
  as a decimal.
\<close>
theorem log_record_roundtrip:
  assumes "event_valid e"
  shows "\<exists>payload. marshal_event e = Inr payload \<and> unmarshal_event payload = Some e"
  using unmarshal_marshal_event [OF assms] .

definition third_event :: LogEvent where
  "third_event = zero_event\<lparr>TenantID := ''t1'', LogModel := ''gpt-4o'', CostCents := f64 (1 / 3)\<rparr>"

lemma third_valid: "event_valid third_event"
proof -
  have "case f64 (1 / 3) of Fin q \<Rightarrow> f64 q = Fin q | _ \<Rightarrow> False" by code_simp
  then have "\<exists>q. f64 (1 / 3) = Fin q \<and> f64 q = Fin q" by (auto split: float64.splits)
  then show ?thesis
    by (simp add: event_valid_def third_event_def zero_event_def is_int64_def valid_ascii byte_def)
qed

theorem log_record_roundtrip_witness:
  "\<exists>payload. marshal_event third_event = Inr payload \<and> unmarshal_event payload = Some third_event"
  by (rule log_record_roundtrip [OF third_valid])

text \<open>An infinite cost has no JSON form: the record is not written and the error says so.\<close>

lemma infinite_cost_not_logged:
  assumes "CostCents e = PInf"
  shows "multi_Log b e k = (Some (GoError ''failed to marshal log event: json: unsupported value: +Inf''), k)"
  using assms by (simp add: multi_Log_def marshal_event_def event_json_def json_float_def unsupported_def)

section \<open>From the answer to the account\<close>

lemma f64_fixed: "f64 y = Fin x \<Longrightarrow> f64 x = Fin x"
  by (auto simp: f64_def Let_def split: if_splits)

lemma plus_fixed: "(x :: float64) + y = Fin z \<Longrightarrow> f64 z = Fin z"
  by (cases x; cases y) (auto dest: f64_fixed)

definition answer_valid :: "Tenant \<Rightarrow> string \<Rightarrow> ChatResponse \<Rightarrow> bool" where
  "answer_valid t name resp \<longleftrightarrow> valid_utf8 (ID t) \<and> valid_utf8 name \<and> valid_utf8 (RespModel resp)
     \<and> 0 \<le> PromptTokens resp \<and> is_int64 (PromptTokens resp) \<and> 0 \<le> CompletionTokens resp \<and> is_int64 (CompletionTokens resp)"

lemma quot_int64: "is_int64 d \<Longrightarrow> is_int64 (Milliseconds d)"
  unfolding is_int64_def Milliseconds_def quot_def by (auto simp: abs_if sgn_if)

lemma sync_event_valid:
  assumes "answer_valid t name resp" "is_int64 latency" "is_int64 stamp"
  shows "event_valid (sync_event t name resp latency stamp)"
proof -
  obtain x where x: "EstimateCost (RespModel resp) (PromptTokens resp) (CompletionTokens resp) = Fin x"
    using EstimateCost_close assms(1) unfolding answer_valid_def by metis
  then have "f64 x = Fin x" by (auto simp: EstimateCost_def Let_def split_beta dest: plus_fixed)
  then show ?thesis
    using assms x quot_int64 [OF assms(2)]
    by (simp add: event_valid_def sync_event_def zero_event_def answer_valid_def is_int64_def valid_utf8_def)
qed

text \<open>
  What an answer costs reaches the account: the record of a synchronous answer is
  written to the topic once, under its tenant's key, and when the budget processor reads
  that message it adds to the tenant's pending sum exactly the cost that was estimated from
  the answer's own tokens, and to no other tenant's.
\<close>
theorem answer_cost_reaches_account:
  assumes "answer_valid t name resp" and "is_int64 latency" and "is_int64 stamp"
    and "multi_Log b (sync_event t name resp latency stamp) k = (err, k')"
  shows "\<exists>payload. WriteMessages b (ID t) payload k = (err, k') \<and>
    (\<forall>upd F p d p' d'. processor_step upd F (Received payload) (p, d) (p', d') \<longrightarrow> card (dom (pending p)) + 1 < batchSize p \<longrightarrow>
       d' = d \<and> pending p' = (pending p)(ID t \<mapsto> value_or 0 (pending p (ID t))
         + EstimateCost (RespModel resp) (PromptTokens resp) (CompletionTokens resp)))"
proof -
  let ?ev = "sync_event t name resp latency stamp"
  from unmarshal_marshal_event [OF sync_event_valid [OF assms(1-3)]] obtain payload where
    m: "marshal_event ?ev = Inr payload" "unmarshal_event payload = Some ?ev" by blast
  have id: "TenantID ?ev = ID t" "CostCents ?ev = EstimateCost (RespModel resp) (PromptTokens resp) (CompletionTokens resp)"
    by (simp_all add: sync_event_def)
  have "WriteMessages b (ID t) payload k = (err, k')" using assms(4) m(1) id by (simp add: multi_Log_def)
  moreover have "d' = d \<and> pending p' = (pending p)(ID t \<mapsto> value_or 0 (pending p (ID t))
         + EstimateCost (RespModel resp) (PromptTokens resp) (CompletionTokens resp))"
    if "processor_step upd F (Received payload) (p, d) (p', d')" "card (dom (pending p)) + 1 < batchSize p" for upd F p d p' d'
  proof -
    have "card (dom (pending (add_event ?ev p))) \<le> card (dom (pending p)) + 1"
      by (cases "finite (dom (pending p))") (simp_all add: add_event_def card_insert_if)
    then have "\<not> should_flush (add_event ?ev p)" using that(2) by (simp add: should_flush_def add_event_def)
    with that(1) have "p' = add_event ?ev p \<and> d' = d" by (auto simp: m(2) elim!: step_received)
    then show ?thesis using id by (simp add: add_event_def)
  qed
  ultimately show ?thesis by blast
qed

text \<open>A topic that keeps what is written to it, and a stored answer.\<close>

definition topic_backend :: "(bytes \<times> bytes) list log_backend" where
  "topic_backend = \<lparr>WriteMessages = (\<lambda>key v k. (None, k @ [(key, v)])), Publish = (\<lambda>c v k. (None, k)), CloseWriter = (\<lambda>k. (None, k))\<rparr>"

definition small_answer :: ChatResponse where
  "small_answer = \<lparr>RespContent = ''hello'', RespModel = ''gpt-4o'', RespProvider = ''openai'', PromptTokens = 10, CompletionTokens = 20\<rparr>"

theorem answer_cost_reaches_account_witness:
  "\<exists>payload. multi_Log topic_backend (sync_event (zero_tenant\<lparr>ID := ''t1''\<rparr>) ''openai'' small_answer Second 7) [] = (None, [(''t1'', payload)])
     \<and> (\<forall>p'. processor_step (UpdateTenantSpend Some) UNIV (Received payload) (NewBudgetProcessor, []) (p', []) \<longrightarrow>
          pending p' ''t1'' = Some (0 + EstimateCost ''gpt-4o'' 10 20))"
proof -
  let ?t = "zero_tenant\<lparr>ID := ''t1''\<rparr>"
  have v: "answer_valid ?t ''openai'' small_answer"
    by (simp add: answer_valid_def small_answer_def zero_tenant_def is_int64_def valid_ascii byte_def)
  obtain err k where l: "multi_Log topic_backend (sync_event ?t ''openai'' small_answer Second 7) [] = (err, k)" by fastforce
  have "is_int64 Second" "is_int64 7" by (simp_all add: is_int64_def Second_def)
  from answer_cost_reaches_account [OF v this l] obtain payload where
    p: "WriteMessages topic_backend ''t1'' payload [] = (err, k)" and
    s: "\<And>p'. processor_step (UpdateTenantSpend Some) UNIV (Received payload) (NewBudgetProcessor, []) (p', []) \<Longrightarrow>
      pending p' = (pending NewBudgetProcessor)(''t1'' \<mapsto> value_or 0 (pending NewBudgetProcessor ''t1'') + EstimateCost ''gpt-4o'' 10 20)"
    by (fastforce simp: NewBudgetProcessor_def small_answer_def)
  then show ?thesis using l by (auto simp: topic_backend_def NewBudgetProcessor_def)
qed

end
