(* ===== verification/Mock_Provider.thy ===== *)
theory Mock_Provider
  imports Resilient
begin

text \<open>
  \<open>internal/provider/mock.go\<close>: the provider that stands in when no API key is configured. It
  repeats the last message, after a delay, and streams its answer character by character.
  \<open>nap\<close> is \<open>time.Sleep\<close>; \<open>noticed\<close> says before which character of the answer the goroutine
  first finds its context done, if it does.
\<close>

section \<open>The characters of a string\<close>

text \<open>\<open>range\<close> over a string decodes it; a byte that starts no character gives \<open>RuneError\<close>.\<close>

function runes :: "bytes \<Rightarrow> bytes list" where
  "runes s =
     (if s = [] then []
      else if rune_length s = 0 then RuneError # runes (tl s)
      else take (rune_length s) s # runes (drop (rune_length s) s))"
  by pat_completeness auto
termination
  by (relation "measure length") auto

declare runes.simps [simp del]

lemma concat_runes: "concat (runes s) = sanitize s"
proof (induction s rule: runes.induct)
  case (1 s)
  show ?case
  proof (cases "s = []")
    case False
    then show ?thesis using 1 by (subst runes.simps, subst sanitize.simps) simp
  qed (simp add: runes.simps)
qed

section \<open>The provider\<close>

text \<open>The index \<open>len(req.Messages)-1\<close> of an empty conversation is out of range.\<close>

definition bad_index :: string where
  "bad_index = ''index out of range [-1]''"

definition mock_text :: "string \<Rightarrow> string \<Rightarrow> Message list \<Rightarrow> string" where
  "mock_text what name ms = ''[MOCK '' @ what @ '' from '' @ name @ ''] You said: '' @ Content (last ms)"

definition mock_Chat ::
  "(duration \<Rightarrow> 'w \<Rightarrow> 'w) \<Rightarrow> string \<Rightarrow> duration option \<Rightarrow> ChatRequest \<Rightarrow> 'w \<Rightarrow> ChatResponse go_result outcome \<times> 'w" where
  "mock_Chat nap name outer req w =
     (let w1 = nap (100 * Millisecond) w
      in if Messages req = [] then (Panic bad_index, w1)
         else (Return (Inr \<lparr>RespContent = mock_text ''RESPONSE'' name (Messages req), RespModel = ReqModel req,
                            RespProvider = name, PromptTokens = 10, CompletionTokens = 20\<rparr>), w1))"

definition content_chunk :: "string \<Rightarrow> ChatChunk" where
  "content_chunk s = \<lparr>ChunkContent = s, FinishReason = [], ChunkPromptTokens = 0, ChunkCompletionTokens = 0\<rparr>"

definition first_chunk :: ChatChunk where
  "first_chunk = \<lparr>ChunkContent = [], FinishReason = [], ChunkPromptTokens = 10, ChunkCompletionTokens = 0\<rparr>"

definition last_chunk :: ChatChunk where
  "last_chunk = \<lparr>ChunkContent = [], FinishReason = ''stop'', ChunkPromptTokens = 0, ChunkCompletionTokens = 20\<rparr>"

definition mock_ChatStream ::
  "(duration option \<Rightarrow> nat option \<Rightarrow> 'w \<Rightarrow> nat option) \<Rightarrow> (duration \<Rightarrow> 'w \<Rightarrow> 'w) \<Rightarrow> string
    \<Rightarrow> duration option \<Rightarrow> nat option \<Rightarrow> ChatRequest \<Rightarrow> 'w \<Rightarrow> stream outcome \<times> 'w" where
  "mock_ChatStream noticed nap name outer cancel req w =
     (if Messages req = [] then (Return \<lparr>sent = [], ended = StreamCrash bad_index\<rparr>, w)
      else
        let chars = map content_chunk (runes (mock_text ''STREAM'' name (Messages req)));
            step = nap (20 * Millisecond)
        in (case noticed outer cancel w of
              Some n \<Rightarrow>
                if n < length chars then
                  (Return \<lparr>sent = first_chunk # take n chars, ended = StreamClosed\<rparr>, (step ^^ n) w)
                else (Return \<lparr>sent = first_chunk # chars @ [last_chunk], ended = StreamClosed\<rparr>, (step ^^ length chars) w)
            | None \<Rightarrow>
                (Return \<lparr>sent = first_chunk # chars @ [last_chunk], ended = StreamClosed\<rparr>, (step ^^ length chars) w)))"

definition NewMockProvider ::
  "(duration option \<Rightarrow> nat option \<Rightarrow> 'w \<Rightarrow> nat option) \<Rightarrow> (duration \<Rightarrow> 'w \<Rightarrow> 'w) \<Rightarrow> string \<Rightarrow> 'w provider" where
  "NewMockProvider noticed nap name =
     \<lparr>Name = name, Chat = mock_Chat nap name, ChatStream = mock_ChatStream noticed nap name\<rparr>"

section \<open>The whole stream\<close>

lemma content_of_chunks: "concat (map ChunkContent (map content_chunk cs)) = concat cs"
  by (induction cs) (simp_all add: content_chunk_def)

lemma tokens_of_chunks:
  "sum_list (map ChunkPromptTokens (map content_chunk cs)) = 0"
  "sum_list (map ChunkCompletionTokens (map content_chunk cs)) = 0"
  by (induction cs) (simp_all add: content_chunk_def)

end
