(* ===== verification/Http_Providers.thy ===== *)
theory Http_Providers
  imports Chat_Json
begin

text \<open>
  \<open>internal/provider/anthropic.go\<close> and \<open>internal/provider/ollama.go\<close>: the providers that speak
  HTTP themselves. The HTTP client is a parameter over the world: it fails, or answers with a
  status and a body, which ends or breaks off with an error. A request is an error of
  \<open>http.NewRequestWithContext\<close>, and then nil, when its URL does not parse; the error is
  ignored and the nil request dereferenced.
\<close>

section \<open>HTTP\<close>

record http_request =
  http_method :: string
  url :: string
  http_headers :: "(string \<times> string) list"
  http_body :: bytes

record http_response =
  StatusCode :: int
  payload :: bytes
  cut :: "go_error option"

record 'w http_client =
  url_ok :: "string \<Rightarrow> bool"
  Do :: "duration option \<Rightarrow> nat option \<Rightarrow> http_request \<Rightarrow> 'w \<Rightarrow> http_response go_result \<times> 'w"
  decode_failure :: "json_error \<Rightarrow> bytes \<Rightarrow> go_error"
  nil_messages :: "ChatRequest \<Rightarrow> bool"

definition nil_request :: string where
  "nil_request = ''invalid memory address or nil pointer dereference''"

text \<open>A nil slice of messages is printed as null, any other as an array.\<close>

definition messages_json :: "'w http_client \<Rightarrow> ChatRequest \<Rightarrow> json" where
  "messages_json c req =
     (if Messages req = [] \<and> nil_messages c req then JNull else JArr (map message_json (Messages req)))"

text \<open>The first index of an empty slice.\<close>

definition no_first :: string where
  "no_first = ''index out of range [0] with length 0''"

section \<open>Anthropic\<close>

record anthropic_result =
  Texts :: "string list option"
  InputTokens :: int
  OutputTokens :: int

definition usage_fields :: "(bytes \<times> anthropic_result setter) list" where
  "usage_fields =
     [(''input_tokens'', set_int (\<lambda>n r. r\<lparr>InputTokens := n\<rparr>)),
      (''output_tokens'', set_int (\<lambda>n r. r\<lparr>OutputTokens := n\<rparr>))]"

definition anthropic_fields :: "(bytes \<times> anthropic_result setter) list" where
  "anthropic_fields =
     [(''content'', set_slice Texts (\<lambda>l r. r\<lparr>Texts := l\<rparr>) (decode_struct [(''text'', set_string (\<lambda>s _. s))]) []),
      (''usage'', decode_struct usage_fields)]"

definition anthropic_request :: "'w http_client \<Rightarrow> string \<Rightarrow> ChatRequest \<Rightarrow> http_request" where
  "anthropic_request c apiKey req =
     \<lparr>http_method = ''POST'', url = ''https://api.anthropic.com/v1/messages'',
      http_headers = [(''x-api-key'', apiKey), (''anthropic-version'', ''2023-06-01''), (''content-type'', ''application/json'')],
      http_body = encode (JObj [(''max_tokens'', json_int 1024), (''messages'', messages_json c req), (''model'', JStr (ReqModel req))])\<rparr>"

definition anthropic_answer :: "'w http_client \<Rightarrow> ChatRequest \<Rightarrow> http_response \<Rightarrow> ChatResponse go_result outcome" where
  "anthropic_answer c req resp =
     (if StatusCode resp \<noteq> 200 then Return (Inl (GoError (''anthropic error: status '' @ itoa (StatusCode resp))))
      else
        (case Decode anthropic_fields (payload resp) \<lparr>Texts = None, InputTokens = 0, OutputTokens = 0\<rparr> of
           (r, Some e) \<Rightarrow> Return (Inl (decode_failure c e (payload resp)))
         | (r, None) \<Rightarrow>
             (case value_or [] (Texts r) of
                [] \<Rightarrow> Panic no_first
              | t # _ \<Rightarrow>
                  Return (Inr \<lparr>RespContent = t, RespModel = ReqModel req, RespProvider = ''anthropic'',
                               PromptTokens = InputTokens r, CompletionTokens = OutputTokens r\<rparr>))))"

definition anthropic_Chat ::
  "'w http_client \<Rightarrow> string \<Rightarrow> duration option \<Rightarrow> ChatRequest \<Rightarrow> 'w \<Rightarrow> ChatResponse go_result outcome \<times> 'w" where
  "anthropic_Chat c apiKey outer req w =
     (case Do c outer None (anthropic_request c apiKey req) w of
        (Inl err, w1) \<Rightarrow> (Return (Inl err), w1)
      | (Inr resp, w1) \<Rightarrow> (anthropic_answer c req resp, w1))"

text \<open>Streaming is not implemented: the error is in the channel before both are closed.\<close>

definition anthropic_ChatStream ::
  "duration option \<Rightarrow> nat option \<Rightarrow> ChatRequest \<Rightarrow> 'w \<Rightarrow> stream outcome \<times> 'w" where
  "anthropic_ChatStream outer cancel req w =
     (Return \<lparr>sent = [], ended = StreamError (GoError ''anthropic streaming not implemented in this re-arch turn'')\<rparr>, w)"

definition NewAnthropicProvider :: "'w http_client \<Rightarrow> string \<Rightarrow> 'w provider" where
  "NewAnthropicProvider c apiKey =
     \<lparr>Name = ''anthropic'', Chat = anthropic_Chat c apiKey, ChatStream = anthropic_ChatStream\<rparr>"

section \<open>Ollama\<close>

record ollama_line =
  LineContent :: string
  LineDone :: bool
  PromptEvalCount :: int
  EvalCount :: int

definition zero_line :: ollama_line where
  "zero_line = \<lparr>LineContent = [], LineDone = False, PromptEvalCount = 0, EvalCount = 0\<rparr>"

text \<open>The answer to a chat has the same fields but for \<open>done\<close>, which it ignores.\<close>

definition ollama_fields :: "(bytes \<times> ollama_line setter) list" where
  "ollama_fields =
     [(''message'', decode_struct [(''content'', set_string (\<lambda>s r. r\<lparr>LineContent := s\<rparr>))]),
      (''prompt_eval_count'', set_int (\<lambda>n r. r\<lparr>PromptEvalCount := n\<rparr>)),
      (''eval_count'', set_int (\<lambda>n r. r\<lparr>EvalCount := n\<rparr>))]"

definition line_fields :: "(bytes \<times> ollama_line setter) list" where
  "line_fields = (''done'', set_bool (\<lambda>b r. r\<lparr>LineDone := b\<rparr>)) # ollama_fields"

definition ollama_request :: "'w http_client \<Rightarrow> string \<Rightarrow> bool \<Rightarrow> ChatRequest \<Rightarrow> http_request" where
  "ollama_request c host streaming req =
     \<lparr>http_method = ''POST'', url = host @ ''/api/chat'', http_headers = [(''Content-Type'', ''application/json'')],
      http_body = encode (JObj [(''messages'', messages_json c req), (''model'', JStr (ReqModel req)), (''stream'', JBool streaming)])\<rparr>"

definition ollama_answer :: "'w http_client \<Rightarrow> ChatRequest \<Rightarrow> http_response \<Rightarrow> ChatResponse go_result" where
  "ollama_answer c req resp =
     (if StatusCode resp \<noteq> 200 then Inl (GoError (''ollama returned status: '' @ itoa (StatusCode resp)))
      else
        (case Decode ollama_fields (payload resp) zero_line of
           (r, Some e) \<Rightarrow> Inl (decode_failure c e (payload resp))
         | (r, None) \<Rightarrow>
             Inr \<lparr>RespContent = LineContent r, RespModel = ReqModel req, RespProvider = ''ollama'',
                  PromptTokens = PromptEvalCount r, CompletionTokens = EvalCount r\<rparr>))"

definition ollama_Chat ::
  "'w http_client \<Rightarrow> string \<Rightarrow> duration option \<Rightarrow> ChatRequest \<Rightarrow> 'w \<Rightarrow> ChatResponse go_result outcome \<times> 'w" where
  "ollama_Chat c host outer req w =
     (let r = ollama_request c host False req
      in if \<not> url_ok c (url r) then (Panic nil_request, w)
         else
           (case Do c outer None r w of
              (Inl (GoError e), w1) \<Rightarrow> (Return (Inl (GoError (''ollama error: '' @ e))), w1)
            | (Inr resp, w1) \<Rightarrow> (Return (ollama_answer c req resp), w1)))"

definition line_chunk :: "ollama_line \<Rightarrow> ChatChunk" where
  "line_chunk l = \<lparr>ChunkContent = LineContent l, FinishReason = [], ChunkPromptTokens = PromptEvalCount l,
     ChunkCompletionTokens = EvalCount l\<rparr>"

text \<open>
  The loop over the JSON values of the body. A body that ends between two values ends the
  stream as if it were complete. The test on the lengths only serves the termination proof.
\<close>

function ollama_lines :: "'w http_client \<Rightarrow> go_error option \<Rightarrow> bytes \<Rightarrow> stream" where
  "ollama_lines c brk s =
     (if skip s = [] then \<lparr>sent = [], ended = (case brk of None \<Rightarrow> StreamClosed | Some e \<Rightarrow> StreamError e)\<rparr>
      else
        (case parse_value 0 s of
           None \<Rightarrow> \<lparr>sent = [], ended = StreamError (decode_failure c JsonSyntax s)\<rparr>
         | Some (v, rest) \<Rightarrow>
             (case decode_struct line_fields v zero_line of
                (l, Some e) \<Rightarrow> \<lparr>sent = [], ended = StreamError (decode_failure c e s)\<rparr>
              | (l, None) \<Rightarrow>
                  if LineDone l \<or> \<not> length rest < length s then \<lparr>sent = [line_chunk l], ended = StreamClosed\<rparr>
                  else let t = ollama_lines c brk rest in t\<lparr>sent := line_chunk l # sent t\<rparr>)))"
  by pat_completeness auto
termination
  by (relation "measure (\<lambda>(c, brk, s). length s)") auto

declare ollama_lines.simps [simp del]

text \<open>The status of a streamed answer is not looked at.\<close>

definition ollama_ChatStream ::
  "'w http_client \<Rightarrow> string \<Rightarrow> duration option \<Rightarrow> nat option \<Rightarrow> ChatRequest \<Rightarrow> 'w \<Rightarrow> stream outcome \<times> 'w" where
  "ollama_ChatStream c host outer cancel req w =
     (let r = ollama_request c host True req
      in if \<not> url_ok c (url r) then (Panic nil_request, w)
         else
           (case Do c outer cancel r w of
              (Inl err, w1) \<Rightarrow> (Return \<lparr>sent = [], ended = StreamError err\<rparr>, w1)
            | (Inr resp, w1) \<Rightarrow> (Return (ollama_lines c (cut resp) (payload resp)), w1)))"

definition ollama_host :: "string \<Rightarrow> string" where
  "ollama_host host = (if host = [] then ''http://localhost:11434'' else host)"

definition NewOllamaProvider :: "'w http_client \<Rightarrow> string \<Rightarrow> 'w provider" where
  "NewOllamaProvider c host =
     \<lparr>Name = ''ollama'', Chat = ollama_Chat c (ollama_host host), ChatStream = ollama_ChatStream c (ollama_host host)\<rparr>"

end
