(* ===== verification/Sdk_Providers.thy ===== *)
theory Sdk_Providers
  imports Provider
begin

text \<open>
  \<open>internal/provider/openai.go\<close> and \<open>internal/provider/gemini.go\<close>: the providers that go
  through a vendor's SDK. The SDK is a parameter over the world: what it is called with is
  what the code builds, what it answers is left open. Fields that are pointers in the SDK's
  types are options, and the code dereferences them without a test.
\<close>

section \<open>OpenAI\<close>

record openai_request =
  oa_model :: string
  oa_messages :: "(string \<times> string) list"
  oa_stream :: bool

record openai_response =
  oa_choices :: "string list"
  oa_answer_model :: string
  oa_prompt :: int
  oa_completion :: int

text \<open>What a stream's \<open>Recv\<close> gives: the deltas of each message, then the end or an error.\<close>

record openai_stream =
  oa_deltas :: "(string \<times> string) list list"
  oa_error :: "go_error option"

record 'w openai_client =
  CreateChatCompletion :: "duration option \<Rightarrow> openai_request \<Rightarrow> 'w \<Rightarrow> openai_response go_result \<times> 'w"
  CreateChatCompletionStream :: "duration option \<Rightarrow> nat option \<Rightarrow> openai_request \<Rightarrow> 'w \<Rightarrow> openai_stream go_result \<times> 'w"

definition no_choice :: string where
  "no_choice = ''index out of range [0] with length 0''"

definition openai_request_of :: "bool \<Rightarrow> ChatRequest \<Rightarrow> openai_request" where
  "openai_request_of streaming req =
     \<lparr>oa_model = ReqModel req, oa_messages = map (\<lambda>m. (Role m, Content m)) (Messages req), oa_stream = streaming\<rparr>"

definition openai_Chat ::
  "'w openai_client \<Rightarrow> duration option \<Rightarrow> ChatRequest \<Rightarrow> 'w \<Rightarrow> ChatResponse go_result outcome \<times> 'w" where
  "openai_Chat c outer req w =
     (case CreateChatCompletion c outer (openai_request_of False req) w of
        (Inl err, w1) \<Rightarrow> (Return (Inl err), w1)
      | (Inr resp, w1) \<Rightarrow>
          (case oa_choices resp of
             [] \<Rightarrow> (Panic no_choice, w1)
           | content # _ \<Rightarrow>
               (Return (Inr \<lparr>RespContent = content, RespModel = oa_answer_model resp, RespProvider = ''openai'',
                            PromptTokens = oa_prompt resp, CompletionTokens = oa_completion resp\<rparr>), w1)))"

text \<open>A message without choices is skipped; tokens are not reported.\<close>

definition delta_chunks :: "(string \<times> string) list \<Rightarrow> ChatChunk list" where
  "delta_chunks ds =
     (case ds of
        [] \<Rightarrow> []
      | (content, finish) # _ \<Rightarrow>
          [\<lparr>ChunkContent = content, FinishReason = finish, ChunkPromptTokens = 0, ChunkCompletionTokens = 0\<rparr>])"

definition openai_ChatStream ::
  "'w openai_client \<Rightarrow> duration option \<Rightarrow> nat option \<Rightarrow> ChatRequest \<Rightarrow> 'w \<Rightarrow> stream outcome \<times> 'w" where
  "openai_ChatStream c outer cancel req w =
     (case CreateChatCompletionStream c outer cancel (openai_request_of True req) w of
        (Inl err, w1) \<Rightarrow> (Return \<lparr>sent = [], ended = StreamError err\<rparr>, w1)
      | (Inr s, w1) \<Rightarrow>
          (Return \<lparr>sent = concat (map delta_chunks (oa_deltas s)),
                   ended = (case oa_error s of None \<Rightarrow> StreamClosed | Some e \<Rightarrow> StreamError e)\<rparr>, w1))"

definition NewOpenAIProvider :: "'w openai_client \<Rightarrow> 'w provider" where
  "NewOpenAIProvider c = \<lparr>Name = ''openai'', Chat = openai_Chat c, ChatStream = openai_ChatStream c\<rparr>"

section \<open>Gemini\<close>

text \<open>A candidate is the texts of its content's parts, or nothing when the content is nil.\<close>

record gemini_response =
  candidates :: "string list option list"
  usage :: "(int \<times> int) option"

record gemini_stream =
  gm_parts :: "gemini_response list"
  gm_error :: "go_error option"

record 'w gemini_client =
  SendMessage :: "string \<Rightarrow> (string \<times> string) list \<Rightarrow> string \<Rightarrow> duration option \<Rightarrow> 'w \<Rightarrow> gemini_response go_result \<times> 'w"
  SendMessageStream :: "string \<Rightarrow> (string \<times> string) list \<Rightarrow> string \<Rightarrow> duration option \<Rightarrow> nat option \<Rightarrow> 'w \<Rightarrow> gemini_stream \<times> 'w"

definition nil_pointer :: string where
  "nil_pointer = ''invalid memory address or nil pointer dereference''"

definition no_last :: string where
  "no_last = ''index out of range [-1]''"

definition gemini_role :: "string \<Rightarrow> string" where
  "gemini_role r = (if r = ''assistant'' \<or> r = ''model'' then ''model'' else ''user'')"

text \<open>The history is all messages but the last.\<close>

definition gemini_history :: "Message list \<Rightarrow> (string \<times> string) list" where
  "gemini_history ms = map (\<lambda>m. (gemini_role (Role m), Content m)) (butlast ms)"

text \<open>The texts of all parts, in order; \<open>None\<close> is a nil dereference on the way.\<close>

definition candidate_text :: "gemini_response \<Rightarrow> string option" where
  "candidate_text r =
     (if None \<in> set (candidates r) then None else Some (concat (map (concat \<circ> the) (candidates r))))"

definition gemini_tokens :: "gemini_response \<Rightarrow> (string \<times> int \<times> int) option" where
  "gemini_tokens r =
     (case (candidate_text r, usage r) of
        (Some t, Some (p, c)) \<Rightarrow> Some (t, p, c)
      | _ \<Rightarrow> None)"

text \<open>The receiver is a pointer; its methods are called on nil when the client could not be made.\<close>

definition gemini_Chat ::
  "'w gemini_client option \<Rightarrow> duration option \<Rightarrow> ChatRequest \<Rightarrow> 'w \<Rightarrow> ChatResponse go_result outcome \<times> 'w" where
  "gemini_Chat p outer req w =
     (case p of
        None \<Rightarrow> (Panic nil_pointer, w)
      | Some c \<Rightarrow>
          if Messages req = [] then (Panic no_last, w)
          else
            (case SendMessage c (ReqModel req) (gemini_history (Messages req)) (Content (last (Messages req))) outer w of
               (Inl err, w1) \<Rightarrow> (Return (Inl err), w1)
             | (Inr resp, w1) \<Rightarrow>
                 (case gemini_tokens resp of
                    None \<Rightarrow> (Panic nil_pointer, w1)
                  | Some (t, pt, ct) \<Rightarrow>
                      (Return (Inr \<lparr>RespContent = t, RespModel = ReqModel req, RespProvider = ''gemini'',
                                   PromptTokens = pt, CompletionTokens = ct\<rparr>), w1))))"

fun gemini_chunks :: "gemini_response list \<Rightarrow> go_error option \<Rightarrow> stream" where
  "gemini_chunks [] e = \<lparr>sent = [], ended = (case e of None \<Rightarrow> StreamClosed | Some err \<Rightarrow> StreamError err)\<rparr>"
| "gemini_chunks (r # rs) e =
     (case gemini_tokens r of
        None \<Rightarrow> \<lparr>sent = [], ended = StreamCrash nil_pointer\<rparr>
      | Some (t, pt, ct) \<Rightarrow>
          let s = gemini_chunks rs e
          in s\<lparr>sent := \<lparr>ChunkContent = t, FinishReason = [], ChunkPromptTokens = pt, ChunkCompletionTokens = ct\<rparr> # sent s\<rparr>)"

text \<open>The nil receiver and the empty conversation panic before the goroutine starts.\<close>

definition gemini_ChatStream ::
  "'w gemini_client option \<Rightarrow> duration option \<Rightarrow> nat option \<Rightarrow> ChatRequest \<Rightarrow> 'w \<Rightarrow> stream outcome \<times> 'w" where
  "gemini_ChatStream p outer cancel req w =
     (case p of
        None \<Rightarrow> (Panic nil_pointer, w)
      | Some c \<Rightarrow>
          if Messages req = [] then (Panic no_last, w)
          else
            (case SendMessageStream c (ReqModel req) (gemini_history (Messages req)) (Content (last (Messages req))) outer cancel w of
               (s, w1) \<Rightarrow> (Return (gemini_chunks (gm_parts s) (gm_error s)), w1)))"

definition gemini_provider :: "'w gemini_client option \<Rightarrow> 'w provider" where
  "gemini_provider p = \<lparr>Name = ''gemini'', Chat = gemini_Chat p, ChatStream = gemini_ChatStream p\<rparr>"

text \<open>The constructor gives the client, or nil and the error.\<close>

definition NewGeminiProvider :: "(string \<Rightarrow> 'w gemini_client go_result) \<Rightarrow> string \<Rightarrow> 'w gemini_client option \<times> go_error option" where
  "NewGeminiProvider connect apiKey =
     (case connect apiKey of Inl err \<Rightarrow> (None, Some err) | Inr c \<Rightarrow> (Some c, None))"

end
