(* ===== verification/Gateway_Main.thy ===== *)
theory Gateway_Main
  imports Config Mock_Provider Http_Providers Sdk_Providers Cache Rate_Limit Selector
begin

text \<open>
  \<open>cmd/gateway/main.go\<close>: how the program is put together from its configuration: the cache it
  uses, the providers and their order, the failures that end it at the start, and the routes.
\<close>

section \<open>The cache\<close>

datatype cache_choice = InMemory | TwoTier

definition gateway_cache :: "Config \<Rightarrow> cache_choice" where
  "gateway_cache cfg =
     (if length (RedisAddrs cfg) = 0 \<or> RedisAddrs cfg ! 0 = [] then InMemory else TwoTier)"

section \<open>The providers\<close>

text \<open>
  What the providers reach: the clients the SDKs make for a key, the HTTP client, the clock
  and the contexts. An interface value is nil, or holds a value, which may itself be a nil
  pointer.
\<close>

record 'w upstreams =
  openai_client_for :: "string \<Rightarrow> 'w openai_client"
  http_client_of :: "'w http_client"
  gemini_connect :: "string \<Rightarrow> 'w gemini_client go_result"
  contexts :: "'w context_ops"
  mock_noticed :: "duration option \<Rightarrow> nat option \<Rightarrow> 'w \<Rightarrow> nat option"

datatype 'a interface = NilInterface | Holds 'a

definition max_retries :: int where "max_retries = 2"

definition provider_timeout :: duration where "provider_timeout = 30 * Second"

definition mock :: "'w upstreams \<Rightarrow> string \<Rightarrow> 'w provider" where
  "mock u name = NewMockProvider (mock_noticed u) (sleep (contexts u)) name"

definition openai_prov :: "'w upstreams \<Rightarrow> env \<Rightarrow> 'w provider" where
  "openai_prov u e =
     (let key = value_or [] (e ''OPENAI_API_KEY'')
      in if key = [] then mock u ''openai'' else NewOpenAIProvider (openai_client_for u key))"

definition anthropic_prov :: "'w upstreams \<Rightarrow> env \<Rightarrow> 'w provider" where
  "anthropic_prov u e =
     (let key = value_or [] (e ''ANTHROPIC_API_KEY'')
      in if key = [] then mock u ''anthropic'' else NewAnthropicProvider (http_client_of u) key)"

text \<open>The pointer is put into the interface before the test for nil.\<close>

definition gemini_prov :: "'w upstreams \<Rightarrow> Config \<Rightarrow> 'w provider" where
  "gemini_prov u cfg =
     (let geminiProv = Holds (gemini_provider (fst (NewGeminiProvider (gemini_connect u) (GeminiAPIKey cfg))))
      in case geminiProv of NilInterface \<Rightarrow> mock u ''gemini'' | Holds p \<Rightarrow> p)"

definition resilient :: "'w upstreams \<Rightarrow> 'w provider \<Rightarrow> 'w provider" where
  "resilient u p = as_provider (contexts u) (NewResilientProvider p max_retries provider_timeout)"

definition gateway_providers :: "'w upstreams \<Rightarrow> env \<Rightarrow> Config \<Rightarrow> 'w provider list" where
  "gateway_providers u e cfg =
     [resilient u (openai_prov u e), resilient u (anthropic_prov u e), resilient u (gemini_prov u cfg),
      resilient u (NewOllamaProvider (http_client_of u) (OllamaHost cfg))]"

section \<open>Starting\<close>

text \<open>
  The database is opened first and ends the program when it cannot be. The limiter starts a
  ticker with the synchronisation interval of the configuration in a goroutine;
  \<open>time.NewTicker\<close> panics when the interval is not positive. An error of ClickHouse or of the
  cache is not fatal.
\<close>

datatype startup = Exits int | Crashes string | Serves string

definition start_gateway :: "go_error option \<Rightarrow> Config \<Rightarrow> startup" where
  "start_gateway db_error cfg =
     (case db_error of
        Some _ \<Rightarrow> Exits 1
      | None \<Rightarrow>
          if RateLimitSyncFreq cfg \<le> 0 then Crashes ''non-positive interval for NewTicker''
          else Serves (CHR '':'' # Port cfg))"

section \<open>Routes\<close>

datatype endpoint = Health | ChatCompletions | AdminApi

definition routes :: "(string \<times> string \<times> endpoint) list" where
  "routes = [(''GET'', ''/health'', Health), (''POST'', ''/v1/chat/completions'', ChatCompletions), (''*'', ''/admin'', AdminApi)]"

end
