(* ===== verification/Upstream_Properties.thy ===== *)
theory Upstream_Properties
  imports Gateway_Main Resilient_Properties
begin

text \<open>The properties of the upstream providers and of the way the program is put together.\<close>

section \<open>The mock\<close>

text \<open>
  The mock's stream spells its answer: unless its context is done first, the chunks of
  the stream put together are the answer's text, character by character, with invalid bytes
  replaced; the tokens of all chunks add up to 10 and 20, and the stream ends without error.
\<close>
theorem mock_stream_spells_answer:
  assumes "Messages req \<noteq> []" and "noticed outer cancel w = None"
  shows "\<exists>s w'. mock_ChatStream noticed nap name outer cancel req w = (Return s, w')
    \<and> ended s = StreamClosed
    \<and> concat (map ChunkContent (sent s)) = sanitize (mock_text ''STREAM'' name (Messages req))
    \<and> sum_list (map ChunkPromptTokens (sent s)) = 10 \<and> sum_list (map ChunkCompletionTokens (sent s)) = 20"
proof -
  let ?cs = "map content_chunk (runes (mock_text ''STREAM'' name (Messages req)))"
  have "mock_ChatStream noticed nap name outer cancel req w
      = (Return \<lparr>sent = first_chunk # ?cs @ [last_chunk], ended = StreamClosed\<rparr>, (nap (20 * Millisecond) ^^ length ?cs) w)"
    using assms by (simp add: mock_ChatStream_def Let_def)
  moreover have "concat (map ChunkContent ?cs) = sanitize (mock_text ''STREAM'' name (Messages req))"
    by (simp only: content_of_chunks concat_runes)
  ultimately show ?thesis
    using tokens_of_chunks [of "runes (mock_text ''STREAM'' name (Messages req))"]
    by (simp add: first_chunk_def last_chunk_def del: map_map)
qed

definition greeting :: ChatRequest where
  "greeting = \<lparr>ReqModel = ''m'', Messages = [\<lparr>Role = ''user'', Content = ''hi''\<rparr>], Stream = True\<rparr>"

theorem mock_stream_spells_answer_witness:
  "\<exists>s. fst (mock_ChatStream (\<lambda>_ _ _. None) (\<lambda>_ w. w) ''openai'' None None greeting (0 :: nat)) = Return s
     \<and> concat (map ChunkContent (sent s)) = ''[MOCK STREAM from openai] You said: hi''"
proof -
  have "valid_utf8 (mock_text ''STREAM'' ''openai'' (Messages greeting))"
    by (rule valid_ascii) (simp add: mock_text_def greeting_def byte_def)
  then have "sanitize (mock_text ''STREAM'' ''openai'' (Messages greeting)) = ''[MOCK STREAM from openai] You said: hi''"
    by (simp add: valid_utf8_def) (simp add: mock_text_def greeting_def)
  then show ?thesis
    using mock_stream_spells_answer [of greeting "\<lambda>_ _ _. None" None None "0 :: nat" "\<lambda>_ w. w" "''openai''"]
    by (auto simp: greeting_def)
qed

text \<open>
  A conversation without messages brings the mock down, retries or not: the synchronous
  call panics in the handler, and the stream panics in the goroutine that feeds it, where
  nothing recovers it and the whole process goes down.
\<close>
theorem empty_conversation_panics:
  assumes "Messages req = []" and "0 \<le> maxRetries p" and "base p = NewMockProvider noticed nap name"
    and "\<forall>s w. possible_first s (fst (first_of ctx s w))"
  shows "fst (resilient_Chat ctx p outer req w) = Panic bad_index
    \<and> fst (resilient_ChatStream ctx p outer cancel req w) = Return \<lparr>sent = [], ended = StreamCrash bad_index\<rparr>"
proof
  show "fst (resilient_Chat ctx p outer req w) = Panic bad_index"
    unfolding resilient_Chat_def using assms(1-3)
    by (subst chat_loop.simps) (simp add: NewMockProvider_def mock_Chat_def)
  let ?s = "\<lparr>sent = [], ended = StreamCrash bad_index\<rparr>"
  obtain ev w2 where ev: "first_of ctx ?s w = (ev, w2)" by fastforce
  have "ev \<noteq> FirstChunk" using assms(4) [rule_format, of ?s w] ev by auto
  then have "fst (stream_loop ctx p outer req 0 None w) = ?s"
    using assms(1-3) ev
    by (subst stream_loop.simps) (cases ev; simp add: NewMockProvider_def mock_ChatStream_def)
  then show "fst (resilient_ChatStream ctx p outer cancel req w) = Return ?s"
    by (simp add: resilient_ChatStream_def split_beta)
qed

text \<open>Contexts that are never done, and selects that take a chunk when there is one.\<close>

definition calm :: "nat context_ops" where
  "calm = \<lparr>ctx_Err = (\<lambda>w. None), wait_or_done = (\<lambda>d w. (None, w)), sleep = (\<lambda>d w. w),
     first_of = (\<lambda>s w. (if sent s = [] then ChunksClosed else FirstChunk, w))\<rparr>"

lemma calm_possible: "\<forall>s w. possible_first s (fst (first_of calm s w))"
  by (simp add: calm_def)

theorem empty_conversation_panics_witness:
  "fst (resilient_ChatStream calm (NewResilientProvider (NewMockProvider (\<lambda>_ _ _. None) (\<lambda>_ w. w) ''openai'') 2 (30 * Second))
     None None (greeting\<lparr>Messages := []\<rparr>) 0) = Return \<lparr>sent = [], ended = StreamCrash bad_index\<rparr>"
  using empty_conversation_panics [OF _ _ _ calm_possible, of "greeting\<lparr>Messages := []\<rparr>"
      "NewResilientProvider (NewMockProvider (\<lambda>_ _ _. None) (\<lambda>_ w. w) ''openai'') 2 (30 * Second)"
      "\<lambda>_ _ _. None" "\<lambda>_ w. w" "''openai''" None 0 None]
  by (simp add: NewResilientProvider_def)

section \<open>Streams that fail\<close>

lemma failing_stream_loop:
  assumes "\<forall>t c w. \<exists>e w'. ChatStream (base p) t c req w = (Return \<lparr>sent = [], ended = StreamError e\<rparr>, w')"
    and "\<forall>s w. sent s = [] \<longrightarrow> fst (first_of ctx s w) = ChunksClosed" and "\<forall>w. ctx_Err ctx w = None"
  shows "fst (stream_loop ctx p outer req i None w) = \<lparr>sent = [], ended = StreamClosed\<rparr>"
proof (induction "nat (maxRetries p + 1 - i)" arbitrary: i w rule: less_induct)
  case less
  obtain e w1 where c: "ChatStream (base p) (attempt_deadline outer (timeout p)) (Some 1) req w
      = (Return \<lparr>sent = [], ended = StreamError e\<rparr>, w1)" using assms(1) by blast
  obtain ev w2 where f: "first_of ctx \<lparr>sent = [], ended = StreamError e\<rparr> w1 = (ev, w2)" by fastforce
  then have "ev = ChunksClosed" using assms(2) by (metis fst_conv stream.select_convs(1))
  with c f assms(3) less show ?case
    by (subst stream_loop.simps) (simp add: attempt_error_def error_end_def)
qed

text \<open>
  C37: a stream that fails can end like a complete one: the select that waits for the first
  chunk may see the closed chunk channel instead of the error beside it. When it does in
  every attempt, a provider that refused all of them gives the client an empty answer and no
  error, and so does Anthropic, whose streaming is not implemented.
\<close>
theorem failed_stream_looks_complete:
  assumes "\<forall>t c w. \<exists>e w'. ChatStream (base p) t c req w = (Return \<lparr>sent = [], ended = StreamError e\<rparr>, w')"
    and "\<forall>s w. sent s = [] \<longrightarrow> fst (first_of ctx s w) = ChunksClosed" and "\<forall>w. ctx_Err ctx w = None"
  shows "fst (ChatStream (as_provider ctx p) outer cancel req w) = Return \<lparr>sent = [], ended = StreamClosed\<rparr>
    \<and> possible_first \<lparr>sent = [], ended = StreamError e\<rparr> ChunksClosed"
  using failing_stream_loop [OF assms] by (simp add: as_provider_def resilient_ChatStream_def split_beta)

text \<open>An HTTP client that reaches nobody.\<close>

definition silent :: "nat http_client" where
  "silent = \<lparr>url_ok = (\<lambda>_. True), Do = (\<lambda>_ _ _ w. (Inl (GoError ''offline''), w)),
     decode_failure = (\<lambda>_ _. GoError ''decode''), nil_messages = (\<lambda>_. False)\<rparr>"

theorem failed_stream_looks_complete_witness:
  "fst (ChatStream (as_provider calm (NewResilientProvider (NewAnthropicProvider silent ''key'') 2 (30 * Second))) None None greeting 0)
     = Return \<lparr>sent = [], ended = StreamClosed\<rparr>"
proof -
  let ?p = "NewResilientProvider (NewAnthropicProvider silent ''key'') 2 (30 * Second)"
  have "\<forall>t c' w. \<exists>e w'. ChatStream (base ?p) t c' greeting w = (Return \<lparr>sent = [], ended = StreamError e\<rparr>, w')"
    by (simp add: NewResilientProvider_def NewAnthropicProvider_def anthropic_ChatStream_def)
  moreover have "\<forall>s w. sent s = [] \<longrightarrow> fst (first_of calm s w) = ChunksClosed" "\<forall>w. ctx_Err calm w = None"
    by (simp_all add: calm_def)
  ultimately show ?thesis by (rule failed_stream_looks_complete [THEN conjunct1])
qed

section \<open>Ollama\<close>

text \<open>The lines an Ollama server sends: one JSON object each.\<close>

definition line_json :: "ollama_line \<Rightarrow> json" where
  "line_json l = JObj [(''message'', JObj [(''role'', JStr ''assistant''), (''content'', JStr (LineContent l))]),
     (''done'', JBool (LineDone l)), (''prompt_eval_count'', json_int (PromptEvalCount l)), (''eval_count'', json_int (EvalCount l))]"

definition line_valid :: "ollama_line \<Rightarrow> bool" where
  "line_valid l \<longleftrightarrow> valid_utf8 (LineContent l) \<and> is_int64 (PromptEvalCount l) \<and> is_int64 (EvalCount l)"

definition lines_text :: "ollama_line list \<Rightarrow> bytes" where
  "lines_text ls = concat (map (\<lambda>l. encode (line_json l) @ [CHR 0x0A]) ls)"

fun up_to_done :: "ollama_line list \<Rightarrow> ollama_line list" where
  "up_to_done [] = []"
| "up_to_done (l # ls) = (if LineDone l then [l] else l # up_to_done ls)"

lemma line_names [simp]:
  "sanitize ''message'' = ''message''" "sanitize ''assistant'' = ''assistant''" "sanitize ''done'' = ''done''"
  "sanitize ''prompt_eval_count'' = ''prompt_eval_count''" "sanitize ''eval_count'' = ''eval_count''"
  by (simp_all add: sanitize_ascii byte_def)

lemma newline_space [simp]: "is_space (CHR 0x0A)"
  by (simp add: is_space_def byte_def)

lemma skip_newline [simp]: "skip (CHR 0x0A # s) = skip s"
  by (simp add: skip_def)

lemma parse_newline: "parse_value d (CHR 0x0A # s) = parse_value d s"
  by (subst (1 2) parse_value.simps) simp

lemma parse_line:
  assumes "line_valid l"
  shows "parse_value 0 (encode (line_json l) @ CHR 0x0A # r) = Some (line_json l, CHR 0x0A # r)"
proof -
  have "printable (line_json l)" by (simp add: line_json_def)
  moreover have "0 + nesting (line_json l) \<le> max_depth" by (simp add: line_json_def max_depth_def)
  moreover have "number_ends (CHR 0x0A # r)" by (simp add: number_ends_def)
  ultimately have "parse_value 0 (encode (line_json l) @ CHR 0x0A # r) = Some (cleaned (line_json l), CHR 0x0A # r)"
    by (rule parse_encode)
  moreover have "cleaned (line_json l) = line_json l"
    using assms by (simp add: line_json_def line_valid_def valid_utf8_def)
  ultimately show ?thesis by simp
qed

lemma decode_line: "line_valid l \<Longrightarrow> decode_struct line_fields (line_json l) zero_line = (l, None)"
  by (simp add: decode_struct_def line_json_def find_field_def line_fields_def ollama_fields_def line_valid_def zero_line_def)

lemma ollama_lines_line:
  assumes "line_valid l" "nl = [] \<or> nl = [CHR 0x0A]"
  shows "ollama_lines c brk (nl @ encode (line_json l) @ CHR 0x0A # r) =
    (if LineDone l then \<lparr>sent = [line_chunk l], ended = StreamClosed\<rparr>
     else let t = ollama_lines c brk (CHR 0x0A # r) in t\<lparr>sent := line_chunk l # sent t\<rparr>)"
proof -
  let ?s = "nl @ encode (line_json l) @ CHR 0x0A # r"
  have e: "encode (line_json l) = CHR ''{'' # tl (encode (line_json l))" by (simp add: line_json_def)
  have "skip ?s \<noteq> []" using assms(2) by (subst e) auto
  moreover have "parse_value 0 ?s = Some (line_json l, CHR 0x0A # r)"
    using assms(2) parse_line [OF assms(1), of r] by (auto simp: parse_newline)
  moreover have "length (CHR 0x0A # r) < length ?s" by (subst e) simp
  ultimately show ?thesis
    using decode_line [OF assms(1)] by (subst ollama_lines.simps) (simp add: Let_def)
qed

lemma ollama_lines_text:
  assumes "nl = [] \<or> nl = [CHR 0x0A]" "list_all line_valid ls"
  shows "ollama_lines c brk (nl @ lines_text ls) =
    \<lparr>sent = map line_chunk (up_to_done ls),
     ended = (if list_ex LineDone ls then StreamClosed else case brk of None \<Rightarrow> StreamClosed | Some e \<Rightarrow> StreamError e)\<rparr>"
  using assms
proof (induction ls arbitrary: nl)
  case Nil
  have "skip nl = []" using Nil by (auto simp: skip_def)
  then show ?case by (subst ollama_lines.simps) (simp add: lines_text_def)
next
  case (Cons l ls)
  have t: "nl @ lines_text (l # ls) = nl @ encode (line_json l) @ CHR 0x0A # lines_text ls"
    by (simp add: lines_text_def)
  have v: "line_valid l" "list_all line_valid ls" using Cons.prems by simp_all
  have "ollama_lines c brk ([CHR 0x0A] @ lines_text ls) =
    \<lparr>sent = map line_chunk (up_to_done ls),
     ended = (if list_ex LineDone ls then StreamClosed else case brk of None \<Rightarrow> StreamClosed | Some e \<Rightarrow> StreamError e)\<rparr>"
    by (rule Cons.IH) (simp_all add: v)
  then show ?case using ollama_lines_line [OF v(1) Cons.prems(1), of c brk "lines_text ls"]
    by (simp add: t Let_def)
qed

text \<open>
  C36: an Ollama stream is read faithfully: from a body of JSON lines the provider sends the
  content and the counts of each line, in order, up to the first line that says it is done;
  a body that just ends is a complete stream, one that breaks off reports its error.
\<close>
theorem ollama_stream_reads_lines:
  assumes "list_all line_valid ls"
  shows "ollama_lines c brk (lines_text ls) =
    \<lparr>sent = map line_chunk (up_to_done ls),
     ended = (if list_ex LineDone ls then StreamClosed else case brk of None \<Rightarrow> StreamClosed | Some e \<Rightarrow> StreamError e)\<rparr>"
  using ollama_lines_text [of "[]" ls c brk] assms by simp

text \<open>A server that knows no model.\<close>

definition refusing :: "nat http_client" where
  "refusing = \<lparr>url_ok = (\<lambda>_. True),
     Do = (\<lambda>_ _ _ w. (Inr \<lparr>StatusCode = 404, payload = encode (JObj [(''error'', JStr ''model not found'')]), cut = None\<rparr>, w)),
     decode_failure = (\<lambda>_ _. GoError ''decode''), nil_messages = (\<lambda>_. False)\<rparr>"

definition two_lines :: "ollama_line list" where
  "two_lines = [zero_line\<lparr>LineContent := ''hel''\<rparr>, zero_line\<lparr>LineContent := ''lo'', LineDone := True, EvalCount := 2\<rparr>]"

theorem ollama_stream_reads_lines_witness:
  "map ChunkContent (sent (ollama_lines refusing (Some (GoError ''reset'')) (lines_text two_lines))) = [''hel'', ''lo'']
   \<and> ended (ollama_lines refusing (Some (GoError ''reset'')) (lines_text two_lines)) = StreamClosed"
proof -
  have "list_all line_valid two_lines"
    by (simp add: two_lines_def line_valid_def zero_line_def is_int64_def valid_ascii byte_def)
  then show ?thesis
    by (simp add: ollama_stream_reads_lines) (simp add: two_lines_def zero_line_def line_chunk_def)
qed

text \<open>
  A failed Ollama stream looks like an empty answer: the status of a streamed response is
  never read, so the error object of any refused request is taken for a line without content
  and the stream ends cleanly, while the synchronous call reports the status.
\<close>
theorem ollama_stream_hides_http_errors:
  assumes "url_ok c (host @ ''/api/chat'')"
    and "Do c outer cancel (ollama_request c host True req) w = (Inr resp, w1)"
    and "StatusCode resp \<noteq> 200" and "payload resp = encode (JObj [(''error'', JStr m)])"
  shows "ollama_ChatStream c host outer cancel req w =
      (Return \<lparr>sent = [line_chunk zero_line],
               ended = (case cut resp of None \<Rightarrow> StreamClosed | Some e \<Rightarrow> StreamError e)\<rparr>, w1)
    \<and> ollama_answer c req resp = Inl (GoError (''ollama returned status: '' @ itoa (StatusCode resp)))"
proof
  let ?v = "JObj [(''error'', JStr m)]"
  have ascii: "sanitize ''error'' = ''error''" by (simp add: sanitize_ascii byte_def)
  have "parse_value 0 (encode ?v @ []) = Some (cleaned ?v, [])"
    by (rule parse_encode) (simp_all add: max_depth_def number_ends_def)
  then have p: "parse_value 0 (encode ?v) = Some (JObj [(''error'', JStr (sanitize m))], [])" by (simp add: ascii)
  have d: "decode_struct line_fields (JObj [(''error'', JStr x)]) zero_line = (zero_line, None)" for x
    by (simp add: decode_struct_def find_field_def line_fields_def ollama_fields_def byte_def raise_letter_def)
  have z: "\<not> LineDone zero_line" by (simp add: zero_line_def)
  have s: "skip (encode ?v) \<noteq> []" by simp
  have e: "ollama_lines c (cut resp) [] =
      \<lparr>sent = [], ended = (case cut resp of None \<Rightarrow> StreamClosed | Some e \<Rightarrow> StreamError e)\<rparr>"
    by (subst ollama_lines.simps) (simp add: skip_def)
  have "ollama_lines c (cut resp) (encode ?v) =
      \<lparr>sent = [line_chunk zero_line], ended = (case cut resp of None \<Rightarrow> StreamClosed | Some e \<Rightarrow> StreamError e)\<rparr>"
    by (subst ollama_lines.simps) (simp only: p d s z e option.case prod.case if_False if_True Let_def length_greater_0_conv, simp)
  then show "ollama_ChatStream c host outer cancel req w =
      (Return \<lparr>sent = [line_chunk zero_line],
               ended = (case cut resp of None \<Rightarrow> StreamClosed | Some e \<Rightarrow> StreamError e)\<rparr>, w1)"
    using assms by (simp add: ollama_ChatStream_def ollama_request_def Let_def)
  show "ollama_answer c req resp = Inl (GoError (''ollama returned status: '' @ itoa (StatusCode resp)))"
    using assms(3) by (simp add: ollama_answer_def)
qed

theorem ollama_stream_hides_http_errors_witness:
  "fst (ollama_ChatStream refusing ''http://localhost:11434'' None None greeting 0)
     = Return \<lparr>sent = [line_chunk zero_line], ended = StreamClosed\<rparr>"
  using ollama_stream_hides_http_errors [of refusing "''http://localhost:11434''" None None greeting 0
      "\<lparr>StatusCode = 404, payload = encode (JObj [(''error'', JStr ''model not found'')]), cut = None\<rparr>" 0 "''model not found''"]
  by (simp add: refusing_def)

section \<open>The program\<close>

text \<open>
  The mock never replaces Gemini: when the Gemini client cannot be made, the third
  provider of the gateway still goes by the name gemini and sits on a nil pointer. Every
  synchronous call that is routed to it panics, and every stream takes the process down.
\<close>
theorem gemini_without_client_panics:
  assumes "gemini_connect u (GeminiAPIKey cfg) = Inl err"
  shows "Name (gateway_providers u e cfg ! 2) = ''gemini''
    \<and> fst (Chat (gateway_providers u e cfg ! 2) outer req w) = Panic nil_pointer
    \<and> fst (ChatStream (gateway_providers u e cfg ! 2) outer cancel req w) = Return \<lparr>sent = [], ended = StreamCrash nil_pointer\<rparr>"
proof -
  have g: "gateway_providers u e cfg ! 2 = resilient u (gemini_provider None)"
    using assms(1) by (simp add: gateway_providers_def gemini_prov_def NewGeminiProvider_def)
  let ?p = "NewResilientProvider (gemini_provider None) max_retries provider_timeout"
  have "fst (resilient_Chat (contexts u) ?p outer req w) = Panic nil_pointer"
    unfolding resilient_Chat_def
    by (subst chat_loop.simps) (simp add: NewResilientProvider_def gemini_provider_def gemini_Chat_def max_retries_def)
  moreover have "fst (resilient_ChatStream (contexts u) ?p outer cancel req w) = Return \<lparr>sent = [], ended = StreamCrash nil_pointer\<rparr>"
    unfolding resilient_ChatStream_def
    by (subst stream_loop.simps) (simp add: NewResilientProvider_def gemini_provider_def gemini_ChatStream_def max_retries_def)
  ultimately show ?thesis
    by (simp add: g resilient_def as_provider_def resilient_Name_def) (simp add: NewResilientProvider_def gemini_provider_def)
qed

text \<open>Upstreams where nothing can be reached.\<close>

definition offline :: "nat upstreams" where
  "offline = \<lparr>openai_client_for = (\<lambda>_. \<lparr>CreateChatCompletion = (\<lambda>_ _ w. (Inl (GoError ''offline''), w)),
       CreateChatCompletionStream = (\<lambda>_ _ _ w. (Inl (GoError ''offline''), w))\<rparr>),
     http_client_of = refusing, gemini_connect = (\<lambda>_. Inl (GoError ''no key'')), contexts = calm, mock_noticed = (\<lambda>_ _ _. None)\<rparr>"

theorem gemini_without_client_panics_witness:
  "fst (Chat (gateway_providers offline Map.empty (Load (\<lambda>e. e) Map.empty) ! 2) None greeting 0) = Panic nil_pointer"
  using gemini_without_client_panics [of offline "Load (\<lambda>e. e) Map.empty" "GoError ''no key''"]
  by (simp add: offline_def)

text \<open>
  The in-memory cache is used exactly when the environment sets the Redis addresses and
  the first of them is empty: the list of addresses itself is never empty, and without the
  variable the default address selects the two-tier cache.
\<close>
theorem memory_cache_iff_no_redis:
  "gateway_cache (Load ld e) = InMemory \<longleftrightarrow>
     (case ld e ''REDIS_ADDRS'' of None \<Rightarrow> False | Some v \<Rightarrow> v = [] \<or> hd v = CHR '','')"
proof -
  have hd0: "Split s c ! 0 = [] \<longleftrightarrow> s = [] \<or> hd s = c" for s c
    by (cases s) (auto split: list.split)
  have "Split ''localhost:6379'' (CHR '','') ! 0 \<noteq> []" by (simp add: hd0)
  then show ?thesis
    by (auto simp: gateway_cache_def Load_def getEnv_def Let_def hd0 split: option.split)
qed

text \<open>
  A synchronisation frequency of zero or less stops the gateway: whatever the rest of
  the environment says, the value reaches the ticker unchecked, which panics in a goroutine.
  A value that is not a number is replaced by the default and is harmless.
\<close>
theorem sync_frequency_unchecked:
  assumes "ld e ''RL_SYNC_FREQ_MS'' = Some v"
  shows "start_gateway None (Load ld e) =
    (case Atoi v of
       None \<Rightarrow> Serves (CHR '':'' # getEnv (ld e) ''PORT'' ''8080'')
     | Some n \<Rightarrow> if wrap64 (n * Millisecond) \<le> 0 then Crashes ''non-positive interval for NewTicker''
                 else Serves (CHR '':'' # getEnv (ld e) ''PORT'' ''8080''))"
  using assms by (auto simp: start_gateway_def Load_def Let_def getEnvInt_def wrap64_def Millisecond_def split: option.split)

theorem sync_frequency_unchecked_witness:
  "start_gateway None (Load (\<lambda>e. e) [''RL_SYNC_FREQ_MS'' \<mapsto> ''0'']) = Crashes ''non-positive interval for NewTicker''"
proof -
  have "Atoi ''0'' = Some 0" by code_simp
  then show ?thesis
    using sync_frequency_unchecked [of "\<lambda>e. e" "[''RL_SYNC_FREQ_MS'' \<mapsto> ''0'']" "''0''"] by (simp add: wrap64_def)
qed

end
