(* ===== verification/Analytics.thy ===== *)
theory Analytics
  imports Json_Float Go_Time
begin

text \<open>
  \<open>internal/logging/clickhouse.go\<close>: the queries behind the dashboard. The connection to
  ClickHouse is a parameter over the world: it answers each of the four queries with rows of
  typed values, fails, or breaks off while the rows are read, which \<open>rows.Next\<close> reports like
  the end of the rows. \<open>Scan\<close> fails on a row whose columns do not have the types of its
  targets.
\<close>

section \<open>Queries and rows\<close>

datatype ch_query = GlobalQuery | ChartQuery | TenantQuery string | ModelQuery string

datatype ch_value = ChUInt64 int | ChFloat64 float64 | ChString string | ChTime int

record 'w ch_conn =
  QueryRow :: "ch_query \<Rightarrow> 'w \<Rightarrow> ch_value list go_result \<times> 'w"
  Query :: "ch_query \<Rightarrow> 'w \<Rightarrow> (ch_value list list \<times> nat option) go_result \<times> 'w"

text \<open>The rows a loop over \<open>rows.Next\<close> sees.\<close>

definition rows_seen :: "ch_value list list \<times> nat option \<Rightarrow> ch_value list list" where
  "rows_seen r = (case r of (rows, None) \<Rightarrow> rows | (rows, Some n) \<Rightarrow> take n rows)"

definition scan_mismatch :: go_error where
  "scan_mismatch = GoError ''clickhouse [ScanRow]: converting value is unsupported''"

section \<open>Results\<close>

record GlobalStats =
  TotalRequests :: int
  TotalTokens :: int
  TotalCost :: float64
  AvgLatency :: float64

text \<open>A point's time is its Unix second, in UTC.\<close>

record ChartPoint =
  PointTime :: int
  Requests :: int
  PointCost :: float64

record TenantStats =
  TenantRequests :: int
  TenantCost :: float64
  Models :: "string \<rightharpoonup> int"

definition GetGlobalStats :: "'w ch_conn \<Rightarrow> 'w \<Rightarrow> GlobalStats go_result \<times> 'w" where
  "GetGlobalStats c w =
     (case QueryRow c GlobalQuery w of
        (Inl err, w1) \<Rightarrow> (Inl err, w1)
      | (Inr row, w1) \<Rightarrow>
          ((case row of
              [ChUInt64 n, ChUInt64 t, ChFloat64 cost, ChFloat64 avg] \<Rightarrow>
                Inr \<lparr>TotalRequests = n, TotalTokens = t, TotalCost = cost, AvgLatency = avg\<rparr>
            | _ \<Rightarrow> Inl scan_mismatch), w1))"

fun scan_points :: "ch_value list list \<Rightarrow> ChartPoint list go_result" where
  "scan_points [] = Inr []"
| "scan_points (row # rows) =
     (case row of
        [ChTime ts, ChUInt64 n, ChFloat64 cost] \<Rightarrow>
          (case scan_points rows of
             Inl err \<Rightarrow> Inl err
           | Inr ps \<Rightarrow> Inr (\<lparr>PointTime = ts, Requests = n, PointCost = cost\<rparr> # ps))
      | _ \<Rightarrow> Inl scan_mismatch)"

definition GetChartData :: "'w ch_conn \<Rightarrow> 'w \<Rightarrow> ChartPoint list go_result \<times> 'w" where
  "GetChartData c w =
     (case Query c ChartQuery w of
        (Inl err, w1) \<Rightarrow> (Inl err, w1)
      | (Inr rows, w1) \<Rightarrow> (scan_points (rows_seen rows), w1))"

fun scan_models :: "ch_value list list \<Rightarrow> (string \<rightharpoonup> int) \<Rightarrow> (string \<rightharpoonup> int) go_result" where
  "scan_models [] m = Inr m"
| "scan_models (row # rows) m =
     (case row of
        [ChString model, ChUInt64 n] \<Rightarrow> scan_models rows (m(model \<mapsto> n))
      | _ \<Rightarrow> Inl scan_mismatch)"

definition GetTenantStats :: "'w ch_conn \<Rightarrow> string \<Rightarrow> 'w \<Rightarrow> TenantStats go_result \<times> 'w" where
  "GetTenantStats c tenantID w =
     (case QueryRow c (TenantQuery tenantID) w of
        (Inl err, w1) \<Rightarrow> (Inl err, w1)
      | (Inr [ChUInt64 n, ChFloat64 cost], w1) \<Rightarrow>
          (case Query c (ModelQuery tenantID) w1 of
             (Inl err, w2) \<Rightarrow> (Inl err, w2)
           | (Inr rows, w2) \<Rightarrow>
               (case scan_models (rows_seen rows) Map.empty of
                  Inl err \<Rightarrow> (Inl err, w2)
                | Inr m \<Rightarrow> (Inr \<lparr>TenantRequests = n, TenantCost = cost, Models = m\<rparr>, w2)))
      | (Inr _, w1) \<Rightarrow> (Inl scan_mismatch, w1))"

section \<open>What a connection answers\<close>

text \<open>
  The queries over the rows of the log table: a row is its tenant, its model, its tokens, its
  cost and its latency. \<open>sum_up\<close> is the aggregate of floats, whose
  order of summation is open.
\<close>

record log_row =
  lr_tenant :: string
  lr_model :: string
  lr_tokens :: int
  lr_cost :: float64
  lr_latency :: int

definition of_tenant :: "string \<Rightarrow> log_row list \<Rightarrow> log_row list" where
  "of_tenant t tbl = filter (\<lambda>r. lr_tenant r = t) tbl"

definition model_rows :: "log_row list \<Rightarrow> ch_value list list" where
  "model_rows tbl =
     map (\<lambda>m. [ChString m, ChUInt64 (int (length (filter (\<lambda>r. lr_model r = m) tbl)))]) (remdups (map lr_model tbl))"

text \<open>A connection that answers both tenant queries from the same table, to the end.\<close>

definition answers_from :: "log_row list \<Rightarrow> (float64 list \<Rightarrow> float64) \<Rightarrow> 'w ch_conn \<Rightarrow> bool" where
  "answers_from tbl sum_up c \<longleftrightarrow>
     (\<forall>t w. fst (QueryRow c (TenantQuery t) w)
        = Inr [ChUInt64 (int (length (of_tenant t tbl))), ChFloat64 (sum_up (map lr_cost (of_tenant t tbl)))]
      \<and> fst (Query c (ModelQuery t) w) = Inr (model_rows (of_tenant t tbl), None))"

lemma scan_models_rows:
  "distinct ms \<Longrightarrow> scan_models (map (\<lambda>m. [ChString m, ChUInt64 (f m)]) ms) m0
     = Inr (\<lambda>x. if x \<in> set ms then Some (f x) else m0 x)"
proof (induction ms arbitrary: m0)
  case (Cons m ms)
  then show ?case by (auto simp: fun_eq_iff)
qed simp

lemma count_by_model: "(\<Sum>m\<in>lr_model ` set tbl. length (filter (\<lambda>r. lr_model r = m) tbl)) = length tbl"
proof (induction tbl)
  case (Cons r tbl)
  have "(\<Sum>m\<in>lr_model ` set (r # tbl). length (filter (\<lambda>x. lr_model x = m) (r # tbl)))
      = (\<Sum>m\<in>lr_model ` set (r # tbl). length (filter (\<lambda>x. lr_model x = m) tbl) + (if m = lr_model r then 1 else 0))"
    by (intro sum.cong) auto
  also have "\<dots> = (\<Sum>m\<in>lr_model ` set (r # tbl). length (filter (\<lambda>x. lr_model x = m) tbl)) + 1"
    by (simp add: sum.distrib)
  also have "(\<Sum>m\<in>lr_model ` set (r # tbl). length (filter (\<lambda>x. lr_model x = m) tbl))
      = (\<Sum>m\<in>lr_model ` set tbl. length (filter (\<lambda>x. lr_model x = m) tbl))"
    by (intro sum.mono_neutral_right) (auto simp: filter_empty_conv)
  finally show ?case using Cons by simp
qed simp

text \<open>
  What the dashboard shows of a tenant adds up: the counts of its models are those of its
  rows, and their sum is its total.
\<close>

lemma tenant_stats_of_table:
  assumes "answers_from tbl sum_up c"
  obtains s w' where "GetTenantStats c t w = (Inr s, w')"
    "TenantRequests s = int (length (of_tenant t tbl))"
    "dom (Models s) = lr_model ` set (of_tenant t tbl)"
    "\<And>m. m \<in> dom (Models s) \<Longrightarrow> Models s m = Some (int (length (filter (\<lambda>r. lr_model r = m) (of_tenant t tbl))))"
proof -
  let ?rows = "of_tenant t tbl" and ?f = "\<lambda>m. int (length (filter (\<lambda>r. lr_model r = m) (of_tenant t tbl)))"
  let ?ms = "remdups (map lr_model ?rows)"
  obtain w1 where q1: "QueryRow c (TenantQuery t) w = (Inr [ChUInt64 (int (length ?rows)), ChFloat64 (sum_up (map lr_cost ?rows))], w1)"
    using assms by (metis answers_from_def prod.collapse)
  obtain w2 where q2: "Query c (ModelQuery t) w1 = (Inr (model_rows ?rows, None), w2)"
    using assms by (metis answers_from_def prod.collapse)
  have m: "scan_models (model_rows ?rows) Map.empty = Inr (\<lambda>x. if x \<in> set ?ms then Some (?f x) else None)"
    unfolding model_rows_def by (rule scan_models_rows) simp
  show thesis
    by (rule that [of "\<lparr>TenantRequests = int (length ?rows), TenantCost = sum_up (map lr_cost ?rows),
          Models = (\<lambda>x. if x \<in> set ?ms then Some (?f x) else None)\<rparr>" w2])
      (auto simp: GetTenantStats_def q1 q2 m rows_seen_def dom_def split: if_splits)
qed

end
