(* ===== verification/Admin.thy ===== *)
theory Admin
  imports Gateway Analytics "HOL-Library.Char_ord" "HOL-Library.List_Lexorder"
begin

text \<open>
  \<open>internal/router/admin.go\<close>: the admin interface behind its token: tenants, statistics, the
  live log and the switch that takes a provider out of service. Every route of the router is
  registered after the middleware, so each call passes it.
\<close>

section \<open>Requests and state\<close>

text \<open>What the live log's loop sees: a message, the closed channel, or the client leaving.\<close>

datatype log_message = LiveMessage bytes | ChannelClosed | ClientLeft

datatype admin_call =
    ListTenants
  | CreateTenantCall bytes
  | TenantStatsCall string
  | StatsCall
  | ChartsCall
  | LogStreamCall bool "log_message list"
  | FailProviderCall string

record admin_request =
  admin_token :: string
  token_param :: string
  admin_call :: admin_call

text \<open>
  The analytics repository is nil when ClickHouse could not be opened at the start.
  \<open>decode_text\<close> is the text of a decoding error.
\<close>

record ('d, 'a) admin =
  adminSecret :: string
  all_tenants :: "'d \<Rightarrow> Tenant list go_result \<times> 'd"
  create_tenant :: "string \<Rightarrow> string \<Rightarrow> int \<Rightarrow> int \<Rightarrow> string list option \<Rightarrow> 'd \<Rightarrow> Tenant go_result \<times> 'd"
  analytics :: "'a ch_conn option"
  decode_text :: "json_error \<Rightarrow> bytes \<Rightarrow> string"

record ('d, 'a) admin_state =
  admin_db :: 'd
  admin_analytics :: 'a
  admin_monitor :: EWMAMonitor

section \<open>Answers\<close>

definition error_text :: "go_error \<Rightarrow> string" where
  "error_text e = (case e of GoError s \<Rightarrow> s)"

text \<open>\<open>json.Encoder\<close> writes the value and a newline, or nothing when it has no JSON form.\<close>

definition write_json :: "json option \<Rightarrow> response \<Rightarrow> response" where
  "write_json v w = (case v of None \<Rightarrow> w | Some j \<Rightarrow> Write (encode j @ [CHR 0x0A]) w)"

definition jsonError :: "string \<Rightarrow> int \<Rightarrow> response" where
  "jsonError msg c =
     write_json (Some (JObj [(''error'', JStr msg)]))
       (WriteHeader c (set_header ''Content-Type'' ''application/json'' no_response))"

definition json_answer :: "json option \<Rightarrow> response" where
  "json_answer v = write_json v (set_header ''Content-Type'' ''application/json'' no_response)"

text \<open>No rows leave the slice of tenants, and of points, nil.\<close>

definition json_list :: "json list \<Rightarrow> json" where
  "json_list vs = (if vs = [] then JNull else JArr vs)"

section \<open>Times\<close>

text \<open>The civil date of a day counted from 1970-01-01, and the RFC 3339 text of a UTC second.\<close>

definition civil :: "int \<Rightarrow> int \<times> int \<times> int" where
  "civil days =
     (let z = days + 719468; era = z div 146097; doe = z - era * 146097;
          yoe = (doe - doe div 1460 + doe div 36524 - doe div 146096) div 365;
          doy = doe - (365 * yoe + yoe div 4 - yoe div 100);
          mp = (5 * doy + 2) div 153;
          d = doy - (153 * mp + 2) div 5 + 1;
          m = (if mp < 10 then mp + 3 else mp - 9)
      in (yoe + era * 400 + (if m \<le> 2 then 1 else 0), m, d))"

definition two_digits :: "int \<Rightarrow> string" where
  "two_digits n = (if n < 10 then CHR ''0'' # itoa n else itoa n)"

definition rfc3339 :: "int \<Rightarrow> string" where
  "rfc3339 t =
     (let (y, m, d) = civil (t div 86400); s = t mod 86400
      in itoa y @ ''-'' @ two_digits m @ ''-'' @ two_digits d @ ''T''
         @ two_digits (s div 3600) @ '':'' @ two_digits (s div 60 mod 60) @ '':'' @ two_digits (s mod 60) @ ''Z'')"

lemma rfc3339_examples:
  "rfc3339 0 = ''1970-01-01T00:00:00Z''" "rfc3339 951782400 = ''2000-02-29T00:00:00Z''"
  "rfc3339 1767225599 = ''2025-12-31T23:59:59Z''"
  by code_simp+

section \<open>Statistics\<close>

definition stats_json :: "GlobalStats \<Rightarrow> json option" where
  "stats_json s =
     (case (json_float (TotalCost s), json_float (AvgLatency s)) of
        (Some c, Some l) \<Rightarrow>
          Some (JObj [(''total_requests'', json_int (TotalRequests s)), (''total_tokens'', json_int (TotalTokens s)),
                      (''total_cost'', c), (''avg_latency_ms'', l)])
      | _ \<Rightarrow> None)"

definition point_json :: "ChartPoint \<Rightarrow> json option" where
  "point_json p =
     map_option (\<lambda>c. JObj [(''timestamp'', JStr (rfc3339 (PointTime p))), (''requests'', json_int (Requests p)), (''cost'', c)])
       (json_float (PointCost p))"

text \<open>A slice has a JSON form when every element has one.\<close>

definition points_json :: "ChartPoint list \<Rightarrow> json option" where
  "points_json ps =
     (if list_all (\<lambda>p. point_json p \<noteq> None) ps then Some (json_list (map (\<lambda>p. the (point_json p)) ps)) else None)"

text \<open>
  The keys of a map are printed in the order of their bytes, which is the library's order on
  lists of characters.
\<close>

definition tenant_stats_json :: "TenantStats \<Rightarrow> json option" where
  "tenant_stats_json s =
     map_option
       (\<lambda>c. JObj [(''total_requests'', json_int (TenantRequests s)), (''total_cost'', c),
                  (''models'',
                     JObj (map (\<lambda>k. (k, json_int (value_or 0 (Models s k)))) (sorted_list_of_set (dom (Models s)))))])
       (json_float (TenantCost s))"

section \<open>The handlers\<close>

definition AuthMiddleware ::
  "('d, 'a) admin \<Rightarrow> (('d, 'a) admin_state \<Rightarrow> response outcome \<times> ('d, 'a) admin_state)
    \<Rightarrow> admin_request \<Rightarrow> ('d, 'a) admin_state \<Rightarrow> response outcome \<times> ('d, 'a) admin_state" where
  "AuthMiddleware h next_handler r st =
     (let token = (if admin_token r = [] then token_param r else admin_token r)
      in if adminSecret h = [] \<or> token \<noteq> adminSecret h then (Return (http_Error ''unauthorized'' 401 no_response), st)
         else next_handler st)"

definition listTenants :: "('d, 'a) admin \<Rightarrow> ('d, 'a) admin_state \<Rightarrow> response outcome \<times> ('d, 'a) admin_state" where
  "listTenants h st =
     (case all_tenants h (admin_db st) of
        (Inl err, d) \<Rightarrow> (Return (jsonError (error_text err) 500), st\<lparr>admin_db := d\<rparr>)
      | (Inr ts, d) \<Rightarrow> (Return (json_answer (Some (json_list (map tenant_json ts)))), st\<lparr>admin_db := d\<rparr>))"

record create_request =
  cr_name :: string
  cr_rpm :: int
  cr_budget :: int
  cr_key :: string
  cr_allowlist :: "string list option"

definition zero_create :: create_request where
  "zero_create = \<lparr>cr_name = [], cr_rpm = 0, cr_budget = 0, cr_key = [], cr_allowlist = None\<rparr>"

definition create_fields :: "(bytes \<times> create_request setter) list" where
  "create_fields =
     [(''name'', set_string (\<lambda>s r. r\<lparr>cr_name := s\<rparr>)),
      (''rate_limit_rpm'', set_int (\<lambda>n r. r\<lparr>cr_rpm := n\<rparr>)),
      (''budget_cents'', set_int (\<lambda>n r. r\<lparr>cr_budget := n\<rparr>)),
      (''api_key'', set_string (\<lambda>s r. r\<lparr>cr_key := s\<rparr>)),
      (''provider_allowlist'', set_slice cr_allowlist (\<lambda>l r. r\<lparr>cr_allowlist := l\<rparr>) string_setter [])]"

definition createTenant :: "('d, 'a) admin \<Rightarrow> bytes \<Rightarrow> ('d, 'a) admin_state \<Rightarrow> response outcome \<times> ('d, 'a) admin_state" where
  "createTenant h b st =
     (case Decode create_fields b zero_create of
        (req, Some err) \<Rightarrow> (Return (jsonError (decode_text h err b) 400), st)
      | (req, None) \<Rightarrow>
          (case create_tenant h (cr_name req) (key_hash (cr_key req)) (cr_rpm req) (cr_budget req) (cr_allowlist req) (admin_db st) of
             (Inl err, d) \<Rightarrow> (Return (jsonError (error_text err) 500), st\<lparr>admin_db := d\<rparr>)
           | (Inr t, d) \<Rightarrow> (Return (json_answer (Some (tenant_json t))), st\<lparr>admin_db := d\<rparr>)))"

text \<open>A call of the nil analytics repository panics.\<close>

definition ask ::
  "('d, 'a) admin \<Rightarrow> ('a ch_conn \<Rightarrow> 'a \<Rightarrow> 'r go_result \<times> 'a) \<Rightarrow> ('r \<Rightarrow> json option)
    \<Rightarrow> ('d, 'a) admin_state \<Rightarrow> response outcome \<times> ('d, 'a) admin_state" where
  "ask h query to_json st =
     (case analytics h of
        None \<Rightarrow> (Panic nil_dereference, st)
      | Some c \<Rightarrow>
          (case query c (admin_analytics st) of
             (Inl err, a) \<Rightarrow> (Return (jsonError (error_text err) 500), st\<lparr>admin_analytics := a\<rparr>)
           | (Inr r, a) \<Rightarrow> (Return (json_answer (to_json r)), st\<lparr>admin_analytics := a\<rparr>)))"

definition getStats :: "('d, 'a) admin \<Rightarrow> ('d, 'a) admin_state \<Rightarrow> response outcome \<times> ('d, 'a) admin_state" where
  "getStats h st = ask h GetGlobalStats stats_json st"

definition getCharts :: "('d, 'a) admin \<Rightarrow> ('d, 'a) admin_state \<Rightarrow> response outcome \<times> ('d, 'a) admin_state" where
  "getCharts h st = ask h GetChartData points_json st"

definition getTenantStats ::
  "('d, 'a) admin \<Rightarrow> string \<Rightarrow> ('d, 'a) admin_state \<Rightarrow> response outcome \<times> ('d, 'a) admin_state" where
  "getTenantStats h i st = ask h (\<lambda>c. GetTenantStats c i) tenant_stats_json st"

definition failProvider :: "instant \<Rightarrow> string \<Rightarrow> ('d, 'a) admin_state \<Rightarrow> response outcome \<times> ('d, 'a) admin_state" where
  "failProvider stamp name st =
     (Return (WriteHeader 204 no_response), st\<lparr>admin_monitor := ForceFailure (admin_monitor st) name stamp\<rparr>)"

fun stream_messages :: "log_message list \<Rightarrow> response \<Rightarrow> response outcome" where
  "stream_messages [] w = Return w"
| "stream_messages (LiveMessage p # ms) w = stream_messages ms (Write (sse p) w)"
| "stream_messages (ChannelClosed # ms) w = Panic nil_dereference"
| "stream_messages (ClientLeft # ms) w = Return w"

definition streamLogs ::
  "('d, 'a) admin \<Rightarrow> bool \<Rightarrow> log_message list \<Rightarrow> ('d, 'a) admin_state \<Rightarrow> response outcome \<times> ('d, 'a) admin_state" where
  "streamLogs h flusher ms st =
     (let w = set_header ''Connection'' ''keep-alive''
                (set_header ''Cache-Control'' ''no-cache'' (set_header ''Content-Type'' ''text/event-stream'' no_response))
      in if \<not> flusher then (Return (http_Error ''Streaming unsupported'' 500 w), st)
         else (case analytics h of
                 None \<Rightarrow> (Return (http_Error ''Streaming unsupported'' 500 w), st)
               | Some _ \<Rightarrow> (stream_messages ms w, st)))"

section \<open>The router\<close>

definition admin_handler ::
  "('d, 'a) admin \<Rightarrow> instant \<Rightarrow> admin_call
    \<Rightarrow> ('d, 'a) admin_state \<Rightarrow> response outcome \<times> ('d, 'a) admin_state" where
  "admin_handler h stamp call st =
     (case call of
        ListTenants \<Rightarrow> listTenants h st
      | CreateTenantCall b \<Rightarrow> createTenant h b st
      | TenantStatsCall i \<Rightarrow> getTenantStats h i st
      | StatsCall \<Rightarrow> getStats h st
      | ChartsCall \<Rightarrow> getCharts h st
      | LogStreamCall flusher ms \<Rightarrow> streamLogs h flusher ms st
      | FailProviderCall name \<Rightarrow> failProvider stamp name st)"

definition serve_admin ::
  "('d, 'a) admin \<Rightarrow> instant \<Rightarrow> admin_request
    \<Rightarrow> ('d, 'a) admin_state \<Rightarrow> response outcome \<times> ('d, 'a) admin_state" where
  "serve_admin h stamp r st = AuthMiddleware h (admin_handler h stamp (admin_call r)) r st"

section \<open>Over PostgreSQL\<close>

definition postgres_admin ::
  "string \<Rightarrow> pg_fault \<Rightarrow> nat option \<Rightarrow> string \<Rightarrow> instant \<Rightarrow> 'a ch_conn option \<Rightarrow> (json_error \<Rightarrow> bytes \<Rightarrow> string)
    \<Rightarrow> (tenants_table, 'a) admin" where
  "postgres_admin secret f broken new_id created ch text =
     \<lparr>adminSecret = secret, all_tenants = GetAllTenants f broken, create_tenant = CreateTenant f new_id created,
      analytics = ch, decode_text = text\<rparr>"

lemma postgres_admin_simps [simp]:
  "adminSecret (postgres_admin s f b i c ch d) = s"
  "all_tenants (postgres_admin s f b i c ch d) = GetAllTenants f b"
  "create_tenant (postgres_admin s f b i c ch d) = CreateTenant f i c"
  "analytics (postgres_admin s f b i c ch d) = ch"
  by (simp_all add: postgres_admin_def)

end
