(* ===== verification/Admin_Properties.thy ===== *)
theory Admin_Properties
  imports Admin Gateway_Properties Rate_Limit_Properties
begin

text \<open>The properties of the admin interface, and of what it does to the rest of the gateway.\<close>

section \<open>An admin interface to try them on\<close>

text \<open>A connection that answers both tenant queries from a table of log rows.\<close>

definition table_conn :: "log_row list \<Rightarrow> unit ch_conn" where
  "table_conn tbl =
     \<lparr>QueryRow = (\<lambda>q w. (case q of
        TenantQuery t \<Rightarrow> Inr [ChUInt64 (int (length (of_tenant t tbl))), ChFloat64 (fold (+) (map lr_cost (of_tenant t tbl)) 0)]
      | _ \<Rightarrow> Inr [], w)),
      Query = (\<lambda>q w. (case q of ModelQuery t \<Rightarrow> Inr (model_rows (of_tenant t tbl), None) | _ \<Rightarrow> Inr ([], None), w))\<rparr>"

lemma json_answer_status [simp]: "status_of (json_answer v) = 200"
  by (simp add: json_answer_def write_json_def status_of_def Write_def WriteHeader_def set_header_def
      no_response_def value_or_def split: option.split)

lemma jsonError_status [simp]: "status_of (jsonError msg c) = c"
  by (simp add: jsonError_def write_json_def status_of_def Write_def WriteHeader_def set_header_def
      no_response_def value_or_def)

lemma http_Error_status [simp]: "code w = None \<Longrightarrow> status_of (http_Error msg c w) = c"
  by (simp add: http_Error_def status_of_def Write_def WriteHeader_def set_header_def value_or_def)

section \<open>Authorisation\<close>

definition authorised :: "('d, 'a) admin \<Rightarrow> admin_request \<Rightarrow> bool" where
  "authorised h r \<longleftrightarrow> adminSecret h \<noteq> []
     \<and> (admin_token r = adminSecret h \<or> admin_token r = [] \<and> token_param r = adminSecret h)"

lemma serve_admin_authorised:
  "authorised h r \<Longrightarrow> serve_admin h stamp r st = admin_handler h stamp (admin_call r) st"
  by (auto simp: serve_admin_def AuthMiddleware_def authorised_def Let_def)

text \<open>No handler behind the middleware answers 401.\<close>

definition not_401 :: "response outcome \<times> ('d, 'a) admin_state \<Rightarrow> bool" where
  "not_401 x = (case fst x of Return w \<Rightarrow> status_of w \<noteq> 401 | _ \<Rightarrow> True)"

lemma ask_not_401: "not_401 (ask h q j st)"
  by (simp add: ask_def not_401_def split: option.split prod.split sum.split)

lemma Write_code: "code w = None \<or> code w = Some 200 \<Longrightarrow> code (Write b w) = Some 200"
  by (auto simp: Write_def WriteHeader_def)

lemma stream_messages_not_401:
  "code w = None \<or> code w = Some 200 \<Longrightarrow> stream_messages ms w = Return w' \<Longrightarrow> status_of w' \<noteq> 401"
  by (induction ms w rule: stream_messages.induct) (auto simp: status_of_def value_or_def Write_code)

lemma streamLogs_not_401: "not_401 (streamLogs h fl ms st)"
  by (auto simp: streamLogs_def Let_def not_401_def set_header_def no_response_def
      split: option.split outcome.split dest!: stream_messages_not_401 [rotated])

lemma handler_not_401: "not_401 (admin_handler h stamp call st)"
proof (cases call)
  case (CreateTenantCall b)
  then show ?thesis
    by (auto simp: admin_handler_def createTenant_def not_401_def split: prod.split option.split sum.split)
next
  case (FailProviderCall n)
  then show ?thesis
    by (simp add: admin_handler_def failProvider_def not_401_def status_of_def WriteHeader_def no_response_def value_or_def)
next
  case ListTenants
  then show ?thesis
    by (auto simp: admin_handler_def listTenants_def not_401_def split: prod.split sum.split)
qed (simp_all add: admin_handler_def getStats_def getCharts_def getTenantStats_def ask_not_401 streamLogs_not_401)

text \<open>
  C26: the admin interface answers 401 exactly to the requests that do not present the
  configured secret, in the header or, with no header, in the query; without a configured
  secret that is every request. A refused request changes nothing: no tenant, no provider.
\<close>
theorem admin_requires_token:
  assumes "serve_admin h stamp r st = (out, st')"
  shows "(\<exists>w. out = Return w \<and> status_of w = 401) = (\<not> authorised h r) \<and> (authorised h r \<or> st' = st)"
proof (cases "authorised h r")
  case True
  have "not_401 (out, st')" using handler_not_401 assms by (metis serve_admin_authorised True)
  with True show ?thesis by (auto simp: not_401_def)
next
  case False
  then have "out = Return (http_Error ''unauthorized'' 401 no_response)" "st' = st"
    using assms by (auto simp: serve_admin_def AuthMiddleware_def authorised_def Let_def split: if_splits)
  with False show ?thesis by (auto simp: no_response_def)
qed

definition empty_admin :: "(tenants_table, unit) admin_state" where
  "empty_admin = \<lparr>admin_db = [], admin_analytics = (), admin_monitor = NewEWMAMonitor\<rparr>"

definition example_admin :: "(tenants_table, unit) admin" where
  "example_admin = postgres_admin ''s3cret'' Delivered None ''t1'' 5 None (\<lambda>e b. ''bad json'')"

theorem admin_requires_token_witness:
  "\<exists>w st'. serve_admin example_admin 0 \<lparr>admin_token = ''guess'', token_param = ''s3cret'', admin_call = FailProviderCall ''openai''\<rparr>
       empty_admin = (Return w, st') \<and> status_of w = 401 \<and> st' = empty_admin"
proof -
  let ?r = "\<lparr>admin_token = ''guess'', token_param = ''s3cret'', admin_call = FailProviderCall ''openai''\<rparr>"
  obtain out st' where s: "serve_admin example_admin 0 ?r empty_admin = (out, st')" by fastforce
  have "\<not> authorised example_admin ?r" by (simp add: authorised_def example_admin_def)
  with admin_requires_token [OF s] s show ?thesis by auto
qed

section \<open>Creating tenants\<close>

lemma find_new: "\<not> (\<exists>x \<in> set xs. P x) \<Longrightarrow> P y \<Longrightarrow> find P (xs @ [y]) = Some y"
  by (induction xs) auto

lemma CreateTenant_created:
  assumes "CreateTenant f i c name h rpm budget al tbl = (Inr t, tbl')"
  shows "t = \<lparr>ID = i, TenantName = name, APIKeyHash = h, RateLimitRPM = rpm, BudgetCents = budget,
           SpentCents = 0, ProviderAllowlist = al, IsActive = True\<rparr>"
    and "GetTenantByAPIKeyHash Delivered h tbl' = (Inr t, tbl')"
  using assms find_new [of tbl "\<lambda>r. APIKeyHash (row_tenant r) = h" "\<lparr>row_tenant = t, row_created_at = c\<rparr>"]
  by (auto simp: CreateTenant_def deliver_def GetTenantByAPIKeyHash_def Let_def split: pg_fault.splits if_splits)

text \<open>What an answer of 200 to the creation of a tenant means.\<close>

lemma createTenant_200:
  assumes "createTenant h b st = (Return w, st')" "status_of w = 200"
  obtains req t d where "Decode create_fields b zero_create = (req, None)"
    "create_tenant h (cr_name req) (key_hash (cr_key req)) (cr_rpm req) (cr_budget req) (cr_allowlist req) (admin_db st) = (Inr t, d)"
    "w = json_answer (Some (tenant_json t))" "admin_db st' = d"
proof -
  obtain req e where dec: "Decode create_fields b zero_create = (req, e)" by fastforce
  obtain res d where c: "create_tenant h (cr_name req) (key_hash (cr_key req)) (cr_rpm req) (cr_budget req) (cr_allowlist req) (admin_db st) = (res, d)"
    by fastforce
  have e: "e = None" using assms dec by (cases e) (auto simp: createTenant_def)
  moreover obtain t where "res = Inr t" using assms dec c e by (cases res) (auto simp: createTenant_def)
  ultimately show thesis
    using that [of req t d] assms dec c by (auto simp: createTenant_def)
qed

text \<open>The tenant the creation stores, and what the lookup makes of it.\<close>

lemma created_lookup:
  assumes "createTenant (postgres_admin secret f broken new_id created ch text) b st = (Return w, st')"
    and "status_of w = 200" and "db_st gst = admin_db st'" and "Decode create_fields b zero_create = (req, None)"
    and "data (cache_st gst) (tenant_key (key_hash (cr_key req))) = None"
  obtains t gst1 where
    "lookup_tenant (gateway_over memory_cache Delivered emit broadcast ps pdq) (key_hash (cr_key req)) gst = (Inr (Some t), gst1)"
    "limiter_st gst1 = limiter_st gst"
    "t = \<lparr>ID = new_id, TenantName = cr_name req, APIKeyHash = key_hash (cr_key req), RateLimitRPM = cr_rpm req,
       BudgetCents = cr_budget req, SpentCents = 0, ProviderAllowlist = cr_allowlist req, IsActive = True\<rparr>"
    "int4 (cr_rpm req)" "written w = encode (tenant_json t) @ [CHR 0x0A]"
proof -
  obtain t d where t: "CreateTenant f new_id created (cr_name req) (key_hash (cr_key req)) (cr_rpm req) (cr_budget req)
      (cr_allowlist req) (admin_db st) = (Inr t, d)" and w: "w = json_answer (Some (tenant_json t))" and d: "admin_db st' = d"
    using createTenant_200 [OF assms(1,2)] assms(4) by (metis Pair_inject postgres_admin_simps(3))
  note created = CreateTenant_created [OF t]
  have "int4 (cr_rpm req)" using t by (auto simp: CreateTenant_def deliver_def split: pg_fault.splits if_splits)
  moreover obtain gst1 where "lookup_tenant (gateway_over memory_cache Delivered emit broadcast ps pdq) (key_hash (cr_key req)) gst
      = (Inr (Some t), gst1)" "limiter_st gst1 = limiter_st gst"
    using assms(3,5) created(2) d by (simp add: lookup_tenant_def gateway_over_def memory_cache_def memory_Get_def)
  moreover have "written w = encode (tenant_json t) @ [CHR 0x0A]"
    by (simp add: w json_answer_def write_json_def Write_def WriteHeader_def set_header_def no_response_def)
  ultimately show thesis using that created(1) by blast
qed

text \<open>
  C27: a tenant the admin interface reports as created with an API key and a positive rate
  limit can use the gateway at once: the first request with its key passes the key check, the
  budget and the rate limit, and goes on as a request of the tenant the answer describes, with
  the name, limits and providers of the creation; only a body that is no chat request is
  refused, with 400. The interface checks neither field, and without them the tenant is of no
  use: without a rate limit its requests get 429, without a key 401. The cache is the one in
  memory, without an entry for the key; the database answers; and the new ID has no bucket yet.
\<close>
theorem created_tenant_is_served:
  assumes "createTenant (postgres_admin secret f broken new_id created ch text) b st = (Return w, st')"
    and "status_of w = 200" and "db_st gst = admin_db st'" and "Decode create_fields b zero_create = (req, None)"
    and "data (cache_st gst) (tenant_key (key_hash (cr_key req))) = None"
    and "buckets (limiter_st gst) new_id = None" and "at_bucket env \<le> at_refill env" and "api_key r = cr_key req"
    and "g = gateway_over memory_cache Delivered emit broadcast ps pdq"
  shows "\<exists>t gst1. t = \<lparr>ID = new_id, TenantName = cr_name req, APIKeyHash = key_hash (cr_key req), RateLimitRPM = cr_rpm req,
         BudgetCents = cr_budget req, SpentCents = 0, ProviderAllowlist = cr_allowlist req, IsActive = True\<rparr>
     \<and> written w = encode (tenant_json t) @ [CHR 0x0A]
     \<and> (if cr_key req = [] then fst (ServeHTTP g env r gst) = Return (http_Error ''missing_api_key'' 401 no_response)
        else if cr_rpm req \<le> 0 then
          fst (ServeHTTP g env r gst) = Return (http_Error ''rate_limited'' 429 (set_header ''Retry-After'' ''1'' no_response))
        else ServeHTTP g env r gst =
          (case decode_request (body r) of
             (chat, Some err) \<Rightarrow> (Return (http_Error ''invalid_request'' 400 no_response), gst1)
           | (chat, None) \<Rightarrow> serve_request g env (can_flush r) chat t gst1))"
proof -
  obtain t gst0 where l: "lookup_tenant g (key_hash (cr_key req)) gst = (Inr (Some t), gst0)" "limiter_st gst0 = limiter_st gst"
    and t: "t = \<lparr>ID = new_id, TenantName = cr_name req, APIKeyHash = key_hash (cr_key req), RateLimitRPM = cr_rpm req,
       BudgetCents = cr_budget req, SpentCents = 0, ProviderAllowlist = cr_allowlist req, IsActive = True\<rparr>"
    and rpm: "int4 (cr_rpm req)" and w: "written w = encode (tenant_json t) @ [CHR 0x0A]"
    unfolding assms(9) by (rule created_lookup [OF assms(1-5)])
  obtain rl tb where a: "Allow (limiter_st gst) new_id (cr_rpm req) (at_bucket env) (at_refill env) = (rl, tb)" by fastforce
  have "admits rl" if "0 < cr_rpm req"
    using first_request_admitted [OF assms(6) _ assms(7), of "cr_rpm req"] that rpm a by (simp add: sane_limit_def int4_def)
  moreover have "\<not> admits rl" if "cr_rpm req \<le> 0"
    using token_bucket.closed_limit [of "\<lparr>tenant_of = new_id, limit_of = cr_rpm req, created_at = at_bucket env, checked_at = at_refill env\<rparr>"
        "limiter_st gst"] that a by (simp add: serve_def)
  moreover have "\<not> budget_exhausted t" by (simp add: budget_exhausted_def t)
  moreover have "ID t = new_id" "RateLimitRPM t = cr_rpm req" by (simp_all add: t)
  ultimately show ?thesis
    using l a w t by (intro exI [of _ t] exI [of _ "gst0\<lparr>limiter_st := tb\<rparr>"] conjI)
      (simp_all add: ServeHTTP_def assms(8) serve_tenant_def Let_def split: prod.split option.split)
qed

definition example_body :: bytes where
  "example_body = ''{'' @ [CHR 0x22] @ ''name'' @ [CHR 0x22] @ '':'' @ [CHR 0x22] @ ''acme'' @ [CHR 0x22] @ '',''
     @ [CHR 0x22] @ ''api_key'' @ [CHR 0x22] @ '':'' @ [CHR 0x22] @ ''k'' @ [CHR 0x22] @ '',''
     @ [CHR 0x22] @ ''rate_limit_rpm'' @ [CHR 0x22] @ '':60,'' @ [CHR 0x22] @ ''budget_cents'' @ [CHR 0x22] @ '':500}''"

definition example_create :: create_request where
  "example_create = \<lparr>cr_name = ''acme'', cr_rpm = 60, cr_budget = 500, cr_key = ''k'', cr_allowlist = None\<rparr>"

lemma example_decodes: "Decode create_fields example_body zero_create = (example_create, None)"
  by code_simp

definition example_gateway_state :: "tenants_table \<Rightarrow> (MemoryCache, tenants_table, unit, unit) gw_state" where
  "example_gateway_state d = \<lparr>cache_st = NewMemoryCache, db_st = d, limiter_st = NewTokenBucket 1,
     monitor_st = NewEWMAMonitor, log_st = (), world = ()\<rparr>"

theorem created_tenant_is_served_witness:
  "\<exists>t gst. ServeHTTP (gateway_over memory_cache Delivered (\<lambda>e k. (None, k)) (\<lambda>e k. (None, k)) [] (\<lambda>_ ps. ps)) hello_env
       (hello_request\<lparr>api_key := ''k''\<rparr>) (example_gateway_state (admin_db (snd (createTenant example_admin example_body empty_admin))))
     = serve_request (gateway_over memory_cache Delivered (\<lambda>e k. (None, k)) (\<lambda>e k. (None, k)) [] (\<lambda>_ ps. ps)) hello_env True hello_chat t gst
     \<and> (TenantName t, RateLimitRPM t, BudgetCents t, SpentCents t) = (''acme'', 60, 500, 0)"
proof -
  let ?g = "gateway_over memory_cache Delivered (\<lambda>e k. (None, k)) (\<lambda>e k. (None, k)) [] (\<lambda>_ ps. ps)"
  obtain w st' where c: "createTenant example_admin example_body empty_admin = (Return w, st')" "status_of w = 200"
    by (simp add: createTenant_def example_decodes example_create_def example_admin_def CreateTenant_def deliver_def
        empty_admin_def int4_def Let_def)
  let ?gst = "example_gateway_state (admin_db st')"
  have p: "db_st ?gst = admin_db st'" "data (cache_st ?gst) (tenant_key (key_hash (cr_key example_create))) = None"
    "buckets (limiter_st ?gst) ''t1'' = None" "at_bucket hello_env \<le> at_refill hello_env"
    "api_key (hello_request\<lparr>api_key := ''k''\<rparr>) = cr_key example_create"
    by (simp_all add: example_gateway_state_def NewMemoryCache_def NewTokenBucket_def hello_env_def example_create_def)
  have b: "body (hello_request\<lparr>api_key := ''k''\<rparr>) = body hello_request" "can_flush (hello_request\<lparr>api_key := ''k''\<rparr>)"
    "cr_key example_create \<noteq> []" "\<not> cr_rpm example_create \<le> 0"
    by (simp_all add: hello_request_def example_create_def)
  show ?thesis
    using created_tenant_is_served [OF c(1) [unfolded example_admin_def] c(2) p(1) example_decodes p(2-5) refl,
        of "\<lambda>e k. (None, k)" "\<lambda>e k. (None, k)" "[]" "\<lambda>_ ps. ps"] hello_decodes b c(1)
    by (auto simp: example_create_def)
qed

section \<open>Taking a provider out of service\<close>

text \<open>
  The switch works: after an authorised request to fail a provider, answered 204, the
  selector does not return that provider until a success is recorded for it, whatever else
  happens in between.
\<close>
theorem failed_provider_leaves_rotation:
  assumes "monitor_wf (admin_monitor st)" and "authorised h r" and "admin_call r = FailProviderCall name"
    and "serve_admin h stamp r st = (out, st')"
    and "list_all call_ok es" and "list_all (\<lambda>c. \<not> is_success_for name c) es"
    and "length ps \<le> 12"
  shows "out = Return (WriteHeader 204 no_response)
     \<and> (\<forall>q. fst (Select pdq clock (fold perform_call es (admin_monitor st')) ps al) = Some q \<longrightarrow> Name q \<noteq> name)"
proof -
  let ?m = "perform_call (CallForceFailure name stamp) (admin_monitor st)"
  let ?m' = "fold perform_call es ?m"
  have s: "out = Return (WriteHeader 204 no_response)" "admin_monitor st' = ?m"
    using serve_admin_authorised [OF assms(2), of stamp st] assms(3,4)
    by (auto simp: admin_handler_def failProvider_def)
  have wf: "monitor_wf ?m" by (rule perform_call_wf [OF assms(1)]) simp
  have "monitor_state ?m name = StateUnhealthy" by (rule ewma.state_failure [OF assms(1)])
  then have u: "monitor_state ?m' name = StateUnhealthy" by (rule ewma.unhealthy_sticky [OF wf assms(5,6)])
  have "Name q \<noteq> name" if "fst (Select pdq clock ?m' ps al) = Some q" for q
  proof -
    have "q \<in> set (filter (eligible ?m' al) ps)"
      using Select_split [OF ewma.inv_fold [OF wf assms(5)] assms(7), of pdq clock al q] that
      by (metis in_set_conv_decomp prod.collapse)
    then show ?thesis using u by (auto simp: eligible_def)
  qed
  then show ?thesis using s by simp
qed

theorem failed_provider_leaves_rotation_witness:
  "\<exists>st'. serve_admin example_admin 0 \<lparr>admin_token = [], token_param = ''s3cret'', admin_call = FailProviderCall ''a''\<rparr>
       empty_admin = (Return (WriteHeader 204 no_response), st')
     \<and> (\<forall>q. fst (Select (\<lambda>_ xs. xs) (\<lambda>_. 0) (admin_monitor st') [named ''a'', named ''b''] []) = Some q \<longrightarrow> Name q \<noteq> ''a'')"
proof -
  let ?r = "\<lparr>admin_token = [], token_param = ''s3cret'', admin_call = FailProviderCall ''a''\<rparr>"
  obtain out st' where s: "serve_admin example_admin 0 ?r empty_admin = (out, st')" by fastforce
  have a: "authorised example_admin ?r" by (simp add: authorised_def example_admin_def)
  have "out = Return (WriteHeader 204 no_response)
      \<and> (\<forall>q. fst (Select (\<lambda>_ xs. xs) (\<lambda>_. 0) (fold perform_call [] (admin_monitor st')) [named ''a'', named ''b''] []) = Some q
           \<longrightarrow> Name q \<noteq> ''a'')"
    by (rule failed_provider_leaves_rotation [OF _ a _ s]) (simp_all add: empty_admin_def NewEWMAMonitor_wf)
  with s show ?thesis by simp
qed

section \<open>Statistics\<close>

text \<open>
  What the dashboard shows of a tenant adds up: with a connection that answers the two
  queries from the same table of log rows, the requests per model sum up to the tenant's
  requests, which are its rows in the table.
\<close>
theorem tenant_stats_add_up:
  assumes "answers_from tbl sum_up c"
  shows "\<exists>s w'. GetTenantStats c t w = (Inr s, w')
       \<and> (\<Sum>m\<in>dom (Models s). the (Models s m)) = TenantRequests s
       \<and> TenantRequests s = int (length (filter (\<lambda>r. lr_tenant r = t) tbl))"
proof -
  obtain s w' where s: "GetTenantStats c t w = (Inr s, w')" "TenantRequests s = int (length (of_tenant t tbl))"
    "dom (Models s) = lr_model ` set (of_tenant t tbl)"
    "\<And>m. m \<in> dom (Models s) \<Longrightarrow> Models s m = Some (int (length (filter (\<lambda>r. lr_model r = m) (of_tenant t tbl))))"
    using tenant_stats_of_table [OF assms] by blast
  have "(\<Sum>m\<in>dom (Models s). the (Models s m))
      = (\<Sum>m\<in>lr_model ` set (of_tenant t tbl). int (length (filter (\<lambda>r. lr_model r = m) (of_tenant t tbl))))"
    by (rule sum.cong) (simp_all add: s(3,4))
  also have "\<dots> = TenantRequests s" using count_by_model [of "of_tenant t tbl"] by (simp add: s(2) flip: of_nat_sum)
  finally show ?thesis using s(1,2) by (auto simp: of_tenant_def)
qed

lemma table_conn_answers: "answers_from tbl (\<lambda>xs. fold (+) xs 0) (table_conn tbl)"
  by (simp add: answers_from_def table_conn_def)

theorem tenant_stats_add_up_witness:
  "\<exists>s. fst (GetTenantStats (table_conn [\<lparr>lr_tenant = ''a'', lr_model = ''m'', lr_tokens = 1, lr_cost = 1, lr_latency = 5\<rparr>,
       \<lparr>lr_tenant = ''b'', lr_model = ''m'', lr_tokens = 1, lr_cost = 1, lr_latency = 5\<rparr>]) ''a'' ()) = Inr s
     \<and> (\<Sum>m\<in>dom (Models s). the (Models s m)) = 1"
  using tenant_stats_add_up [OF table_conn_answers, of
      "[\<lparr>lr_tenant = ''a'', lr_model = ''m'', lr_tokens = 1, lr_cost = 1, lr_latency = 5\<rparr>,
        \<lparr>lr_tenant = ''b'', lr_model = ''m'', lr_tokens = 1, lr_cost = 1, lr_latency = 5\<rparr>]" "''a''" "()"]
  by auto

end
