(* ===== verification/Json_Valid.thy ===== *)
theory Json_Valid
  imports Json_Struct
begin

text \<open>
  Whatever bytes arrive, the strings the JSON decoder hands to the program are valid UTF-8: it
  replaces what is not. The setters of a struct therefore only ever see such strings.
\<close>

section \<open>Characters\<close>

lemma valid_prepend:
  assumes "rune_length (p @ t) = length p" "p \<noteq> []" "valid_utf8 t"
  shows "valid_utf8 (p @ t)"
  using assms unfolding valid_utf8_def by (subst sanitize.simps) simp

text \<open>A code point in base 64.\<close>

lemma base64:
  fixes r :: nat
  obtains a b c d where "r div 262144 = a" "r div 4096 = a * 64 + b" "r div 4096 mod 64 = b" "r div 64 mod 64 = c"
    "r mod 64 = d" "r div 64 = (a * 64 + b) * 64 + c" "r = ((a * 64 + b) * 64 + c) * 64 + d" "b < 64" "c < 64" "d < 64"
proof -
  have e: "r div 64 div 64 = r div 4096" "r div 4096 div 64 = r div 262144" by (simp_all flip: div_mult2_eq)
  have "r = r div 64 * 64 + r mod 64" "r div 64 = r div 4096 * 64 + r div 64 mod 64"
    "r div 4096 = r div 262144 * 64 + r div 4096 mod 64"
    unfolding e [symmetric] by (simp_all only: div_mult_mod_eq)
  then show thesis
    using that [of "r div 262144" "r div 4096 mod 64" "r div 64 mod 64" "r mod 64"] by simp
qed

lemma rune_length_encode:
  assumes "r < 1114112" "\<not> is_surrogate r"
  shows "rune_length (encode_rune r @ t) = length (encode_rune r)"
proof -
  obtain a b c d where r: "r div 262144 = a" "r div 4096 = a * 64 + b" "r div 4096 mod 64 = b" "r div 64 mod 64 = c"
    "r mod 64 = d" "r div 64 = (a * 64 + b) * 64 + c" "r = ((a * 64 + b) * 64 + c) * 64 + d" "b < 64" "c < 64" "d < 64"
    by (rule base64)
  note facts = encode_rune_def rune_length_def lead_length_def byte_char_of second_ok_def cont_def Let_def
  consider "r < 128" | "128 \<le> r" "r < 2048" | "2048 \<le> r" "r < 65536" | "65536 \<le> r" by linarith
  then show ?thesis
  proof cases
    case 1
    then show ?thesis by (simp add: facts)
  next
    case 2
    then have "2 \<le> r div 64" "r div 64 < 32" using r by linarith+
    then show ?thesis using 2 r(5,10) by (simp add: facts)
  next
    case 3
    then have a: "a = 0" using r(7) by simp
    then have "b < 16" using 3 r(7) by simp
    note a = a this
    have "b = 0 \<Longrightarrow> 32 \<le> c" using 3 r(7-10) a by simp
    moreover have "b = 13 \<Longrightarrow> c < 32" using assms(2) r(7-10) a by (simp add: is_surrogate_def)
    ultimately show ?thesis using 3 r a by (auto simp: facts)
  next
    case 4
    then have a: "a < 5" using assms(1) r(7) by simp
    have "a = 0 \<Longrightarrow> 16 \<le> b" using 4 r(7-10) by simp
    moreover have "a = 4 \<Longrightarrow> b < 16" using assms(1) r(7) by simp
    ultimately show ?thesis using 4 r(1,3,4,5,8,9,10) a by (auto simp: facts)
  qed
qed

lemma encode_rune_nonempty: "encode_rune r \<noteq> []"
  by (simp add: encode_rune_def)

lemma valid_encode:
  "r < 1114112 \<Longrightarrow> \<not> is_surrogate r \<Longrightarrow> valid_utf8 t \<Longrightarrow> valid_utf8 (encode_rune r @ t)"
  by (intro valid_prepend rune_length_encode encode_rune_nonempty)

lemma valid_RuneError: "valid_utf8 t \<Longrightarrow> valid_utf8 (RuneError @ t)"
  unfolding RuneError_def by (rule valid_encode) (simp_all add: is_surrogate_def)

lemma valid_take_rune:
  assumes "rune_length s \<noteq> 0" "valid_utf8 t"
  shows "valid_utf8 (take (rune_length s) s @ t)"
proof (cases "rune_length s = 1")
  case True
  then obtain c cs where "s = c # cs" "byte c < 128" using rune_length_one by blast
  with True assms(2) show ?thesis by (simp add: valid_utf8_def sanitize_ascii)
next
  case False
  then have "rune_length (take (rune_length s) s @ t) = rune_length s"
    using assms(1) by (intro rune_length_take) auto
  moreover have "length (take (rune_length s) s) = rune_length s" using rune_length_le [of s] by simp
  ultimately show ?thesis using assms by (intro valid_prepend) auto
qed

lemma valid_unescape: "unescape e = Some x \<Longrightarrow> valid_utf8 t \<Longrightarrow> valid_utf8 ([x] @ t)"
  by (auto simp: unescape_def Let_def valid_utf8_def sanitize_ascii byte_char_of split: if_splits)

lemma hex4_bound: "hex4 s = Some r \<Longrightarrow> r < 65536"
proof -
  have u: "unhex c = Some n \<Longrightarrow> n < 16" for c n
    by (auto simp: unhex_def Let_def split: if_splits)
  show "hex4 s = Some r \<Longrightarrow> r < 65536"
    by (auto simp: hex4_def split: list.splits option.splits dest!: u)
qed

lemma valid_pair:
  assumes "is_surrogate r" "low_half r s = Some r2" "valid_utf8 t"
  shows "valid_utf8 (encode_rune ((r - 55296) * 1024 + (r2 - 56320) + 65536) @ t)"
proof -
  have "r < 56320" "56320 \<le> r2" "r2 < 57344"
    using assms(2) by (auto simp: low_half_def split: list.splits if_splits option.splits)
  then show ?thesis using assms(1,3) by (intro valid_encode) (auto simp: is_surrogate_def)
qed

lemma string_body_valid: "string_body s = Some (t, r) \<Longrightarrow> valid_utf8 t"
proof (induction s arbitrary: t r rule: length_induct)
  case (1 s)
  have IH: "valid_utf8 t'" if "string_body u = Some (t', r')" "length u < length s" for u t' r'
    using 1(1) that by blast
  obtain c s1 where s: "s = c # s1" using 1(2) by (cases s) (simp_all add: string_body.simps)
  note sb = string_body.simps [of "c # s1", unfolded list.case]
  consider (quote) "byte c = 34" | (escape) "byte c = 92" | (raw) "byte c \<noteq> 34" "byte c \<noteq> 92" by blast
  then show ?case
  proof cases
    case quote
    then have "t = []" using 1(2) unfolding s by (simp add: sb)
    then show ?thesis by (simp add: valid_utf8_def)
  next
    case raw
    have n: "\<not> byte c < 32" using 1(2) raw unfolding s by (auto simp: sb)
    show ?thesis
    proof (cases "rune_length s = 0")
      case True
      then obtain t' where "string_body s1 = Some (t', r)" "t = RuneError @ t'"
        using 1(2) raw n unfolding s by (auto simp: sb prepend_eq_Some)
      then show ?thesis using IH [of s1] s by (simp add: valid_RuneError)
    next
      case False
      then obtain t' where "string_body (drop (rune_length s) s) = Some (t', r)" "t = take (rune_length s) s @ t'"
        using 1(2) raw n unfolding s by (auto simp: sb prepend_eq_Some Let_def)
      then show ?thesis using IH [of "drop (rune_length s) s"] s False by (simp add: valid_take_rune)
    qed
  next
    case escape
    then obtain e s2 where s1: "s1 = e # s2" using 1(2) unfolding s by (cases s1) (auto simp: string_body.simps [of "[c]"])
    note se = string_body.simps [of "c # e # s2", unfolded list.case]
    show ?thesis
    proof (cases "byte e = 117")
      case False
      then obtain x t' where "unescape e = Some x" "string_body s2 = Some (t', r)" "t = [x] @ t'"
        using 1(2) escape unfolding s s1 by (auto simp: se prepend_eq_Some split: option.splits)
      then show ?thesis using IH [of s2] s s1 valid_unescape by fastforce
    next
      case True
      then obtain n where n: "hex4 s2 = Some n"
        using 1(2) escape unfolding s s1 by (auto simp: se split: option.splits)
      have sh: "length (drop 4 s2) < length s" "length (drop 10 s2) < length s" using s s1 by simp_all
      show ?thesis
      proof (cases "is_surrogate n")
        case False
        then obtain t' where "string_body (drop 4 s2) = Some (t', r)" "t = encode_rune n @ t'"
          using 1(2) escape True n unfolding s s1 by (auto simp: se prepend_eq_Some)
        then show ?thesis using IH sh hex4_bound [OF n] False by (simp add: valid_encode)
      next
        case sur: True
        show ?thesis
        proof (cases "low_half n (drop 4 s2)")
          case None
          then obtain t' where "string_body (drop 4 s2) = Some (t', r)" "t = RuneError @ t'"
            using 1(2) escape True n sur unfolding s s1 by (auto simp: se prepend_eq_Some)
          then show ?thesis using IH sh by (simp add: valid_RuneError)
        next
          case (Some m)
          then obtain t' where "string_body (drop 10 s2) = Some (t', r)"
            "t = encode_rune ((n - 55296) * 1024 + (m - 56320) + 65536) @ t'"
            using 1(2) escape True n sur unfolding s s1 by (auto simp: se prepend_eq_Some)
          then show ?thesis using IH sh valid_pair [OF sur Some] by simp
        qed
      qed
    qed
  qed
qed

section \<open>Values\<close>

fun strings_valid :: "json \<Rightarrow> bool" where
  "strings_valid (JStr s) = valid_utf8 s"
| "strings_valid (JArr vs) = list_all strings_valid vs"
| "strings_valid (JObj ms) = list_all (strings_valid \<circ> snd) ms"
| "strings_valid v = True"

lemma parse_valid:
  "parse_value d s = Some (v, r) \<Longrightarrow> strings_valid v"
  "parse_elems d s = Some (vs, r) \<Longrightarrow> list_all strings_valid vs"
  "parse_members d s = Some (ms, r) \<Longrightarrow> list_all (strings_valid \<circ> snd) ms"
proof (induction d s and d s and d s arbitrary: v r and vs r and ms r rule: parse_value_parse_elems_parse_members.induct)
  case (1 d s)
  from 1(3) show ?case
    by (subst (asm) parse_value.simps)
      (auto simp: literal_def split: list.splits if_splits dest: 1(1,2) string_body_valid)
next
  case (2 d s)
  from 2(3) obtain v s1 c r0 where p: "parse_value d s = Some (v, s1)" "length s1 < length s" "skip s1 = c # r0"
    and e: "c = CHR '','' \<and> (\<exists>vs'. parse_elems d r0 = Some (vs', r) \<and> vs = v # vs') \<or> vs = [v]"
    by (subst (asm) parse_elems.simps) (auto split: list.splits if_splits option.splits)
  have "strings_valid v" using 2(1) p(1) by blast
  moreover have "list_all strings_valid vs'" if "c = CHR '',''" "parse_elems d r0 = Some (vs', r)" for vs'
    using 2(2) p that by blast
  ultimately show ?case using e by auto
next
  case (3 d s)
  from 3(3) obtain c r0 k s1 c1 r1 v s2 c2 r2 where
    p: "skip s = c # r0" "byte c = 34" "string_body r0 = Some (k, s1)" "skip s1 = c1 # r1" "c1 = CHR '':''"
      "parse_value d r1 = Some (v, s2)" "length s2 < length s" "skip s2 = c2 # r2"
    and e: "c2 = CHR '','' \<and> (\<exists>ms'. parse_members d r2 = Some (ms', r) \<and> ms = (k, v) # ms') \<or> ms = [(k, v)]"
    by (subst (asm) parse_members.simps) (auto split: list.splits if_splits option.splits)
  have "strings_valid v" using 3(1) p by blast
  moreover have "list_all (strings_valid \<circ> snd) ms'" if "c2 = CHR '',''" "parse_members d r2 = Some (ms', r)" for ms'
    using 3(2) p that by blast
  ultimately show ?case using e by (auto simp: comp_def)
qed

section \<open>What the setters keep\<close>

definition keeps_valid :: "('a \<Rightarrow> bool) \<Rightarrow> 'a setter \<Rightarrow> bool" where
  "keeps_valid P set_it \<longleftrightarrow> (\<forall>v x. strings_valid v \<longrightarrow> P x \<longrightarrow> P (fst (set_it v x)))"

lemma keeps_valid_int: "(\<And>n x. is_int64 n \<Longrightarrow> P x \<Longrightarrow> P (upd n x)) \<Longrightarrow> keeps_valid P (set_int upd)"
  using keeps_int [of P upd] by (simp add: keeps_def keeps_valid_def)

lemma keeps_valid_string: "(\<And>s x. valid_utf8 s \<Longrightarrow> P x \<Longrightarrow> P (upd s x)) \<Longrightarrow> keeps_valid P (set_string upd)"
  by (auto simp: keeps_valid_def set_string_def split: json.split)

lemma keeps_valid_bool: "(\<And>b x. P x \<Longrightarrow> P (upd b x)) \<Longrightarrow> keeps_valid P (set_bool upd)"
  by (auto simp: keeps_valid_def set_bool_def split: json.split)

text \<open>A slice whose elements are set by a setter that keeps a property of them.\<close>

lemma decode_elems_keeps:
  assumes "keeps_valid Q set_it" "Q zero"
  shows "list_all strings_valid vs \<Longrightarrow> list_all Q old \<Longrightarrow> list_all Q (fst (decode_elems set_it zero vs old))"
proof (induction vs arbitrary: old)
  case (Cons v vs)
  have "Q (case old of [] \<Rightarrow> zero | o' # _ \<Rightarrow> o')" using assms(2) Cons.prems(2) by (cases old) auto
  then have "Q (fst (set_it v (case old of [] \<Rightarrow> zero | o' # _ \<Rightarrow> o')))"
    using assms(1) Cons.prems(1) by (simp add: keeps_valid_def)
  moreover have "list_all Q (drop 1 old)" using Cons.prems(2) by (cases old) auto
  ultimately show ?case using Cons by (simp add: split_beta Let_def)
qed simp

lemma keeps_valid_slice:
  assumes "keeps_valid Q set_it" "Q zero"
    and "\<And>x. P x \<Longrightarrow> list_all Q (value_or [] (sel x))" "\<And>l x. list_all Q (value_or [] l) \<Longrightarrow> P x \<Longrightarrow> P (upd l x)"
  shows "keeps_valid P (set_slice sel upd set_it zero)"
proof -
  have "list_all Q (value_or [] (fst (decode_slice set_it zero v old)))"
    if "strings_valid v" "list_all Q (value_or [] old)" for v old
    using that decode_elems_keeps [OF assms(1,2)] by (auto simp: decode_slice_def split_beta split: json.split)
  then show ?thesis using assms(3,4) by (simp add: keeps_valid_def set_slice_def split_beta)
qed

lemma keeps_valid_strings:
  assumes "\<And>x. P x \<Longrightarrow> all_valid (sel x)" "\<And>l x. all_valid l \<Longrightarrow> P x \<Longrightarrow> P (upd l x)"
  shows "keeps_valid P (set_slice sel upd string_setter [])"
proof -
  have a: "all_valid l = list_all valid_utf8 (value_or [] l)" for l by (simp add: all_valid_def split: option.split)
  have "keeps_valid valid_utf8 string_setter" unfolding string_setter_def by (rule keeps_valid_string)
  moreover have "valid_utf8 []" by (simp add: valid_utf8_def)
  ultimately show ?thesis by (rule keeps_valid_slice) (use assms in \<open>simp_all add: a\<close>)
qed

lemma keeps_valid_members:
  assumes "\<forall>s \<in> snd ` set fields. keeps_valid P s" "list_all (strings_valid \<circ> snd) ms" "P (fst x)"
  shows "P (fst (decode_members fields ms x))"
  using assms(2,3)
proof (induction ms arbitrary: x)
  case (Cons m ms)
  obtain k v where m: "m = (k, v)" by fastforce
  obtain y e where x: "x = (y, e)" by fastforce
  show ?case
  proof (cases "find_field fields k")
    case (Some s)
    then have "P (fst (s v y))" using assms(1) Cons.prems find_field_mem [OF Some] x m by (auto simp: keeps_valid_def)
    then show ?thesis using Cons.IH Cons.prems Some by (simp add: m x Let_def split_beta)
  qed (use Cons m x in simp)
qed (metis decode_members.simps(1) surj_pair)

lemma keeps_valid_struct:
  assumes "\<forall>s \<in> snd ` set fields. keeps_valid P s"
  shows "keeps_valid P (decode_struct fields)"
  using keeps_valid_members [OF assms] by (auto simp: keeps_valid_def decode_struct_def split: json.split)

text \<open>A struct decoded from any bytes satisfies what its setters keep.\<close>

lemma Decode_keeps:
  assumes "\<forall>s \<in> snd ` set fields. keeps_valid P s" "P x"
  shows "P (fst (Decode fields b x))"
proof -
  have "P (fst (decode_struct fields v x))" if "parse_value 0 b = Some (v, r)" for v r
    using keeps_valid_struct [OF assms(1)] parse_valid(1) [OF that] assms(2) by (simp add: keeps_valid_def)
  then show ?thesis using assms(2) by (auto simp: Decode_def decode_value_def split: option.split)
qed

end
