(* ===== verification/Server.thy ===== *)
theory Server
  imports Admin Gateway_Main Gateway_Correct Json_Valid
begin

text \<open>
  The running program of \<open>cmd/gateway/main.go\<close>: the chat handler, the admin interface and the
  budget processor share the database, and the first two the health monitor. Here a request is
  one step, from the key to the last byte: the runs are those whose requests come one after
  the other. \<open>Live_Server\<close> has the runs in which they overlap.
\<close>

section \<open>The parts and their state\<close>

record ('c, 'd, 'k, 'w, 'a) server =
  chat_api :: "('c, 'd, 'k, 'w) gateway"
  admin_api :: "('d, 'a) admin"
  charge :: "string \<Rightarrow> int \<Rightarrow> 'd \<Rightarrow> go_error option \<times> 'd"

record ('c, 'd, 'k, 'w, 'a) server_state =
  chat_st :: "('c, 'd, 'k, 'w) gw_state"
  analytics_st :: 'a

datatype server_call =
    HealthCheck
  | Completion environment request
  | Administer instant admin_request

section \<open>Serving\<close>

definition healthy_response :: response where
  "healthy_response = Write ''ok'' (WriteHeader 200 no_response)"

definition admin_view :: "('c, 'd, 'k, 'w, 'a) server_state \<Rightarrow> ('d, 'a) admin_state" where
  "admin_view s = \<lparr>admin_db = db_st (chat_st s), admin_analytics = analytics_st s, admin_monitor = monitor_st (chat_st s)\<rparr>"

definition after_admin :: "('d, 'a) admin_state \<Rightarrow> ('c, 'd, 'k, 'w, 'a) server_state \<Rightarrow> ('c, 'd, 'k, 'w, 'a) server_state" where
  "after_admin a s =
     s\<lparr>chat_st := (chat_st s)\<lparr>db_st := admin_db a, monitor_st := admin_monitor a\<rparr>, analytics_st := admin_analytics a\<rparr>"

definition serve_call ::
  "('c, 'd, 'k, 'w, 'a) server \<Rightarrow> server_call \<Rightarrow> ('c, 'd, 'k, 'w, 'a) server_state
    \<Rightarrow> response outcome \<times> ('c, 'd, 'k, 'w, 'a) server_state" where
  "serve_call srv call s =
     (case call of
        HealthCheck \<Rightarrow> (Return healthy_response, s)
      | Completion env r \<Rightarrow>
          (case ServeHTTP (chat_api srv) env r (chat_st s) of (out, st) \<Rightarrow> (out, s\<lparr>chat_st := st\<rparr>))
      | Administer stamp r \<Rightarrow>
          (case serve_admin (admin_api srv) stamp r (admin_view s) of (out, a) \<Rightarrow> (out, after_admin a s)))"

text \<open>The budget processor charges a tenant in between.\<close>

datatype server_event = Call server_call | Charge string int

definition server_step :: "('c, 'd, 'k, 'w, 'a) server \<Rightarrow> server_event \<Rightarrow> ('c, 'd, 'k, 'w, 'a) server_state \<Rightarrow> ('c, 'd, 'k, 'w, 'a) server_state" where
  "server_step srv ev s =
     (case ev of
        Call c \<Rightarrow> snd (serve_call srv c s)
      | Charge t cents \<Rightarrow> s\<lparr>chat_st := (chat_st s)\<lparr>db_st := snd (charge srv t cents (db_st (chat_st s)))\<rparr>\<rparr>)"

text \<open>
  A run: each server_event with the parts as they behave at that moment, since the faults of the
  connections and the keys the database generates are different every time.
\<close>

fun server_run ::
  "(('c, 'd, 'k, 'w, 'a) server \<times> server_event) list \<Rightarrow> ('c, 'd, 'k, 'w, 'a) server_state \<Rightarrow> ('c, 'd, 'k, 'w, 'a) server_state" where
  "server_run [] s = s"
| "server_run ((srv, ev) # es) s = server_run es (server_step srv ev s)"

lemma server_run_append: "server_run (es @ fs) s = server_run fs (server_run es s)"
  by (induction es arbitrary: s) auto

section \<open>The repository as all parts use it\<close>

locale tenant_repository = tenant_lookup find_tenant db_inv
  for find_tenant :: "string \<Rightarrow> 'd \<Rightarrow> Tenant go_result \<times> 'd" and db_inv :: "'d \<Rightarrow> bool" +
  fixes list_all_tenants :: "'d \<Rightarrow> Tenant list go_result \<times> 'd"
    and create :: "string \<Rightarrow> string \<Rightarrow> int \<Rightarrow> int \<Rightarrow> string list option \<Rightarrow> 'd \<Rightarrow> Tenant go_result \<times> 'd"
    and spend :: "string \<Rightarrow> int \<Rightarrow> 'd \<Rightarrow> go_error option \<times> 'd"
  assumes list_keeps: "db_inv d \<Longrightarrow> db_inv (snd (list_all_tenants d))"
    and create_keeps: "db_inv d \<Longrightarrow> valid_utf8 name \<Longrightarrow> valid_utf8 hash \<Longrightarrow> all_valid al \<Longrightarrow>
      db_inv (snd (create name hash rpm budget al d))"
    and spend_keeps: "db_inv d \<Longrightarrow> db_inv (snd (spend i cents d))"

text \<open>\<open>gen_random_uuid()\<close>: sixteen bytes in hexadecimal, in groups.\<close>

definition uuid_text :: "bytes \<Rightarrow> string" where
  "uuid_text bs =
     (let h = EncodeToString bs
      in take 8 h @ ''-'' @ take 4 (drop 8 h) @ ''-'' @ take 4 (drop 12 h) @ ''-'' @ take 4 (drop 16 h) @ ''-'' @ drop 20 h)"

abbreviation ascii :: "string \<Rightarrow> bool" where
  "ascii s \<equiv> list_all (\<lambda>c. byte c < 128) s"

lemma ascii_hex: "ascii (EncodeToString bs)"
proof -
  have "byte (hex_digit n) < 128" if "n < 16" for n
    using that by (auto simp: hex_digit_def byte_char_of)
  moreover have "byte c div 16 < 16" for c using byte_bound [of c] by linarith
  ultimately show ?thesis by (induction bs) (auto simp: EncodeToString_Cons, simp add: EncodeToString_def)
qed

lemma valid_key_hash: "valid_utf8 (key_hash k)"
  unfolding key_hash_def by (rule valid_ascii) (rule ascii_hex)

lemma valid_uuid: "valid_utf8 (uuid_text bs)"
proof (rule valid_ascii)
  have "ascii (take n (drop m (EncodeToString bs)))" "ascii (drop m (EncodeToString bs))" for n m
    using ascii_hex [of bs] by (auto simp: list_all_iff dest: in_set_takeD in_set_dropD)
  from this this(1) [of 8 0] show "ascii (uuid_text bs)" by (simp add: uuid_text_def Let_def byte_def)
qed

lemma table_valid_append: "table_valid (tbl @ tbl') \<longleftrightarrow> table_valid tbl \<and> table_valid tbl'"
  by (auto simp: table_valid_def)

lemma CreateTenant_valid:
  assumes "table_valid tbl" "valid_utf8 name" "valid_utf8 hash" "all_valid al"
  shows "table_valid (snd (CreateTenant f (uuid_text bs) c name hash rpm budget al tbl))"
  using assms valid_uuid [of bs]
  by (auto simp: CreateTenant_def deliver_def Let_def table_valid_append tenant_valid_def int4_def is_int64_def
      table_valid_def [of "[_]"] split: pg_fault.split)

lemma int4_is_int64: "int4 n \<Longrightarrow> is_int64 n"
  by (simp add: int4_def is_int64_def)

lemma UpdateTenantSpend_valid:
  assumes "table_valid tbl"
  shows "table_valid (snd (UpdateTenantSpend canon f t cents tbl))"
proof -
  have "table_valid (snd (update_spend canon t cents tbl))"
    using update_spend_cases [of canon t cents tbl]
  proof
    assume "\<exists>u. canon t = Some u \<and> int4 cents \<and>
      (\<forall>r \<in> set tbl. ID (row_tenant r) = u \<longrightarrow> int4 (SpentCents (row_tenant r) + cents)) \<and>
      update_spend canon t cents tbl = (Inr (), spend_rows u cents tbl)"
    then show ?thesis using assms
      by (auto simp: table_valid_def spend_rows_def spend_row_def tenant_valid_def int4_is_int64)
  qed (use assms in auto)
  then show ?thesis using assms
    by (auto simp: UpdateTenantSpend_def deliver_def split: pg_fault.split prod.split sum.split)
qed

interpretation postgres_repository: tenant_repository "GetTenantByAPIKeyHash f" table_valid "GetAllTenants f broken"
    "CreateTenant f (uuid_text bs) c" "UpdateTenantSpend canon f"
  for f broken bs c canon
  by unfold_locales
    (auto simp: GetAllTenants_def deliver_def Let_def CreateTenant_valid UpdateTenantSpend_valid split: pg_fault.split)

section \<open>The whole server\<close>

lemma ask_keeps:
  "admin_db (snd (ask h f j a)) = admin_db a" "admin_monitor (snd (ask h f j a)) = admin_monitor a"
  by (simp_all add: ask_def split: option.split prod.split sum.split)

locale server_env =
  chat: gateway_env "chat_api srv" holds db_inv +
  repository: tenant_repository "gw_tenant (chat_api srv)" db_inv "all_tenants (admin_api srv)"
    "create_tenant (admin_api srv)" "charge srv"
  for srv :: "('c, 'd, 'k, 'w, 'a) server" and holds :: "'c \<Rightarrow> string \<Rightarrow> bytes \<Rightarrow> bool" and db_inv :: "'d \<Rightarrow> bool"
begin

lemma createTenant_keeps: "db_inv (admin_db a) \<Longrightarrow> db_inv (admin_db (snd (createTenant (admin_api srv) b a)))"
proof -
  assume d: "db_inv (admin_db a)"
  let ?P = "\<lambda>r. valid_utf8 (cr_name r) \<and> all_valid (cr_allowlist r)"
  have "\<forall>s \<in> snd ` set create_fields. keeps_valid ?P s"
    by (auto simp: create_fields_def intro!: keeps_valid_string keeps_valid_int keeps_valid_strings)
  moreover have "?P zero_create" by (simp add: zero_create_def valid_utf8_def all_valid_def)
  ultimately have P: "?P (fst (Decode create_fields b zero_create))" by (rule Decode_keeps)
  obtain req e where dec: "Decode create_fields b zero_create = (req, e)" by fastforce
  have "db_inv (snd (create_tenant (admin_api srv) (cr_name req) (key_hash (cr_key req)) (cr_rpm req) (cr_budget req)
      (cr_allowlist req) (admin_db a)))"
    using P dec by (intro repository.create_keeps d valid_key_hash) auto
  then show ?thesis using d by (auto simp: createTenant_def dec split: option.split prod.split sum.split)
qed

lemma serve_admin_keeps: "db_inv (admin_db a) \<Longrightarrow> db_inv (admin_db (snd (serve_admin (admin_api srv) stamp r a)))"
proof -
  assume d: "db_inv (admin_db a)"
  have l: "db_inv (admin_db (snd (listTenants (admin_api srv) a)))"
    using repository.list_keeps [OF d] by (auto simp: listTenants_def split: prod.split sum.split)
  have s: "admin_db (snd (streamLogs (admin_api srv) fl ms a)) = admin_db a" for fl ms
    by (simp add: streamLogs_def Let_def split: option.split)
  have "db_inv (admin_db (snd (admin_handler (admin_api srv) stamp call a)))" for call
    using d l createTenant_keeps [OF d]
    by (simp add: admin_handler_def getStats_def getCharts_def getTenantStats_def failProvider_def ask_keeps s
        split: admin_call.split)
  then show ?thesis using d by (simp add: serve_admin_def AuthMiddleware_def Let_def)
qed

lemma step_inv: "chat.gw_inv (chat_st s) \<Longrightarrow> chat.gw_inv (chat_st (server_step srv ev s))"
proof -
  assume i: "chat.gw_inv (chat_st s)"
  then have d: "db_inv (admin_db (admin_view s))" by (simp add: chat.gw_inv_def admin_view_def)
  show ?thesis
  proof (cases ev)
    case (Call c)
    then show ?thesis
    proof (cases c)
      case (Completion env r)
      then show ?thesis using Call chat.ServeHTTP_inv [OF i] by (simp add: server_step_def serve_call_def split_beta)
    next
      case (Administer stamp r)
      then show ?thesis using Call i serve_admin_keeps [OF d]
        by (simp add: server_step_def serve_call_def after_admin_def chat.gw_inv_def split_beta)
    qed (use i Call in \<open>simp add: server_step_def serve_call_def\<close>)
  next
    case (Charge t cents)
    then show ?thesis using i repository.spend_keeps by (simp add: server_step_def chat.gw_inv_def)
  qed
qed

end

text \<open>The server of \<open>main.go\<close> over PostgreSQL, with either cache.\<close>

definition server_over ::
  "'c cache_ops \<Rightarrow> pg_fault \<Rightarrow> bytes \<Rightarrow> instant \<Rightarrow> nat option \<Rightarrow> (string \<Rightarrow> string option)
    \<Rightarrow> (LogEvent \<Rightarrow> 'k \<Rightarrow> go_error option \<times> 'k) \<Rightarrow> (LogEvent \<Rightarrow> 'k \<Rightarrow> go_error option \<times> 'k)
    \<Rightarrow> 'w provider list \<Rightarrow> (('w provider \<Rightarrow> 'w provider \<Rightarrow> bool) \<Rightarrow> 'w provider list \<Rightarrow> 'w provider list)
    \<Rightarrow> string \<Rightarrow> 'a ch_conn option \<Rightarrow> (json_error \<Rightarrow> bytes \<Rightarrow> string)
    \<Rightarrow> ('c, tenants_table, 'k, 'w, 'a) server" where
  "server_over cache f uuid created broken canon emit broadcast ps pdq secret ch explain =
     \<lparr>chat_api = gateway_over cache f emit broadcast ps pdq,
      admin_api = postgres_admin secret f broken (uuid_text uuid) created ch explain,
      charge = UpdateTenantSpend canon f\<rparr>"

lemma server_over_env:
  assumes "gateway_env (gateway_over cache f emit broadcast ps pdq) holds table_valid"
  shows "server_env (server_over cache f uuid created broken canon emit broadcast ps pdq secret ch explain) holds table_valid"
  using assms postgres_repository.tenant_repository_axioms
  by (simp add: server_env_def server_over_def gateway_over_def)

interpretation memory_server:
  server_env "server_over memory_cache f uuid created broken canon emit broadcast ps pdq secret ch explain"
    "\<lambda>m k v. data m k = Some v" table_valid
  for f uuid created broken canon emit broadcast ps pdq secret ch explain
  by (rule server_over_env) (rule memory_gateway.gateway_env_axioms)

section \<open>What the parts do to the monitor\<close>

text \<open>Events whose clock readings are in order.\<close>

fun well_timed :: "server_event \<Rightarrow> bool" where
  "well_timed (Call (Completion env r)) = (at_start env \<le> at_reply env)"
| "well_timed ev = True"

text \<open>Chat requests that ask for a stream, and everything that is no chat request.\<close>

fun streams_only :: "server_event \<Rightarrow> bool" where
  "streams_only (Call (Completion env r)) = Stream (fst (decode_request (body r)))"
| "streams_only ev = True"

text \<open>A property of the monitor that its calls keep, while successes are only recorded for providers satisfying \<open>N\<close>.\<close>

locale monitor_calls =
  fixes Q :: "EWMAMonitor \<Rightarrow> bool" and N :: "string \<Rightarrow> bool"
  assumes perform: "Q m \<Longrightarrow> call_ok c \<Longrightarrow> (\<And>p. is_success_for p c \<Longrightarrow> N p) \<Longrightarrow> Q (perform_call c m)"
begin

lemma error: "Q m \<Longrightarrow> Q (RecordError m p c t)"
  using perform [of m "CallError p c t"] by simp

lemma force: "Q m \<Longrightarrow> Q (ForceFailure m p t)"
  using perform [of m "CallForceFailure p t"] by simp

lemma success: "Q m \<Longrightarrow> N p \<Longrightarrow> u \<le> v \<Longrightarrow> Q (RecordSuccess m p (time_Sub v u) t)"
  using perform [of m "CallSuccess p (time_Sub v u) t"] by (simp add: time_Sub_nonneg)

text \<open>The selector only asks the monitor.\<close>

lemma asking: "Q m \<Longrightarrow> Q (fold perform_call (asked al clock ps) m)"
proof (induction ps arbitrary: m)
  case (Cons p ps)
  have "Q (perform_call (CallGetState n t) m)" for n t using Cons.prems by (rule perform) auto
  with Cons show ?case by (simp add: asked_def del: perform_call.simps)
qed (simp add: asked_def)

lemma selecting: "Q m \<Longrightarrow> Select pdq clock m ps al = (sel, m') \<Longrightarrow> Q m'"
  using asking by (auto simp: Select_parts Let_def split: if_splits)

lemma stream: "Q (monitor_st st) \<Longrightarrow> Q (monitor_st (snd (stream_events g env p req t fl e es a b w st)))"
  by (induction g env p req t fl e es a b w st rule: stream_events.induct) (simp_all add: Let_def error)

lemma streaming: "Q (monitor_st st) \<Longrightarrow> Q (monitor_st (snd (handleStream g env p req t fl w st)))"
  by (auto simp: handleStream_def split: prod.split outcome.split intro!: stream)

text \<open>A request keeps the property when its dispatch does.\<close>

lemma serving_from:
  assumes "Q (monitor_st st)"
    and "\<And>fl req t k st'. decode_request (body r) = (req, None) \<Longrightarrow> Q (monitor_st st') \<Longrightarrow>
      Q (monitor_st (snd (serve_dispatch g env fl req t k st')))"
  shows "Q (monitor_st (snd (ServeHTTP g env r st)))"
proof -
  have r: "Q (monitor_st (snd (serve_request g env fl req t st')))"
    if "decode_request (body r) = (req, None)" "Q (monitor_st st')" for fl req t st'
    using that by (auto simp: serve_request_def Let_def split: prod.split sum.split option.split intro!: assms(2))
  have t: "Q (monitor_st (snd (serve_tenant g env r t st')))" if "Q (monitor_st st')" for t st'
    using that by (auto simp: serve_tenant_def Let_def split: prod.split option.split intro!: r)
  obtain res st1 where l: "lookup_tenant g (key_hash (api_key r)) st = (res, st1)" by fastforce
  have "Q (monitor_st st1)" using assms(1) lookup_frame(2) [OF l] by simp
  then show ?thesis using assms(1) l t by (simp add: ServeHTTP_def split: sum.split option.split)
qed

lemma serving_stream:
  fixes st :: "('c, 'd, 'k, 'w) gw_state"
  assumes "Q (monitor_st st)" "Stream (fst (decode_request (body r)))"
  shows "Q (monitor_st (snd (ServeHTTP g env r st)))"
  using assms(1)
proof (rule serving_from)
  fix fl req k and t :: Tenant and st' :: "('c, 'd, 'k, 'w) gw_state"
  assume d: "decode_request (body r) = (req, None)" and q: "Q (monitor_st st')"
  obtain sel m where s: "Select (gw_pdq g) (at_select env) (monitor_st st') (gw_providers g) (value_or [] (ProviderAllowlist t)) = (sel, m)"
    by fastforce
  have "Q (monitor_st (snd (handleStream g env p req t fl w (st'\<lparr>monitor_st := m\<rparr>))))" for p w
    by (rule streaming) (simp add: selecting [OF q s])
  then show "Q (monitor_st (snd (serve_dispatch g env fl req t k st')))"
    using assms(2) d selecting [OF q s] by (simp add: serve_dispatch_def s Let_def split: option.split)
qed

text \<open>The admin interface can only take providers out of service.\<close>

lemma administering:
  assumes "Q (admin_monitor a)"
  shows "Q (admin_monitor (snd (serve_admin h stamp r a)))"
proof -
  have "Q (admin_monitor (snd (admin_handler h stamp call a)))" for call
    using assms
    by (auto simp: admin_handler_def ask_keeps getStats_def getCharts_def getTenantStats_def failProvider_def listTenants_def
        createTenant_def streamLogs_def Let_def split: admin_call.split prod.split sum.split option.split
        intro: force)
  then show ?thesis using assms by (simp add: serve_admin_def AuthMiddleware_def Let_def)
qed

lemma call_from:
  assumes "Q (monitor_st (chat_st s))"
    and "\<And>env r. c = Completion env r \<Longrightarrow> Q (monitor_st (snd (ServeHTTP (chat_api srv) env r (chat_st s))))"
  shows "Q (monitor_st (chat_st (snd (serve_call srv c s))))"
proof (cases c)
  case (Completion env r)
  then show ?thesis using assms(2) by (simp add: serve_call_def split_beta)
next
  case (Administer stamp r)
  then show ?thesis using assms(1) administering [of "admin_view s" "admin_api srv" stamp r]
    by (simp add: serve_call_def split_beta after_admin_def admin_view_def)
qed (use assms(1) in \<open>simp add: serve_call_def\<close>)

lemma run_from:
  "Q (monitor_st (chat_st s)) \<Longrightarrow>
     (\<And>srv c s. (srv, Call c) \<in> set es \<Longrightarrow> Q (monitor_st (chat_st s)) \<Longrightarrow> Q (monitor_st (chat_st (snd (serve_call srv c s))))) \<Longrightarrow>
     Q (monitor_st (chat_st (server_run es s)))"
proof (induction es arbitrary: s)
  case (Cons x es)
  obtain srv ev where x: "x = (srv, ev)" by fastforce
  have "Q (monitor_st (chat_st (server_step srv ev s)))"
    using Cons.prems x by (cases ev) (simp_all add: server_step_def)
  then have "Q (monitor_st (chat_st (server_run es (server_step srv ev s))))"
    by (rule Cons.IH) (use Cons.prems(2) in simp)
  with x show ?case by simp
qed simp

lemma streaming_run:
  fixes s :: "('c, 'd, 'k, 'w, 'a) server_state"
  assumes "Q (monitor_st (chat_st s))" "list_all (streams_only \<circ> snd) es"
  shows "Q (monitor_st (chat_st (server_run es s)))"
  using assms(1)
proof (rule run_from)
  fix srv c and s :: "('c, 'd, 'k, 'w, 'a) server_state"
  assume c: "(srv, Call c) \<in> set es" and q: "Q (monitor_st (chat_st s))"
  show "Q (monitor_st (chat_st (snd (serve_call srv c s))))"
    using q
  proof (rule call_from)
    fix env r assume "c = Completion env r"
    then have "Stream (fst (decode_request (body r)))" using assms(2) c by (auto simp: list_all_iff)
    with q show "Q (monitor_st (snd (ServeHTTP (chat_api srv) env r (chat_st s))))" by (rule serving_stream)
  qed
qed

end

text \<open>When every provider that may be routed to satisfies \<open>N\<close>, any traffic keeps the property.\<close>

locale monitor_property = monitor_calls Q N for Q :: "EWMAMonitor \<Rightarrow> bool" and N :: "string \<Rightarrow> bool" +
  assumes routed: "Q m \<Longrightarrow> monitor_state m n \<noteq> StateUnhealthy \<Longrightarrow> N n"
begin

lemma selected:
  assumes "Q m" "length ps \<le> 12" "Select pdq clock m ps al = (Some p, m')"
  shows "N (Name p)"
proof -
  have "p \<in> set (filter (eligible m al) ps)" using assms(2,3) by (rule Select_eligible)
  then show ?thesis using routed [OF assms(1)] by (simp add: eligible_def)
qed

lemma dispatch:
  assumes "Q (monitor_st st)" "length (gw_providers g) \<le> 12" "at_start env \<le> at_reply env"
  shows "Q (monitor_st (snd (serve_dispatch g env fl req t k st)))"
proof -
  obtain sel m where s: "Select (gw_pdq g) (at_select env) (monitor_st st) (gw_providers g) (value_or [] (ProviderAllowlist t)) = (sel, m)"
    by fastforce
  note q = selecting [OF assms(1) s]
  have st: "Q (monitor_st (snd (handleStream g env p req t fl w (st\<lparr>monitor_st := m\<rparr>))))" for p w
    by (rule streaming) (simp add: q)
  have sy: "Q (monitor_st (snd (handleSync g env p req t k w (st\<lparr>monitor_st := m\<rparr>))))" if "N (Name p)" for p w
    using q that assms(3)
    by (auto simp: handleSync_def Let_def split: prod.split outcome.split sum.split intro: error success)
  have "N (Name p)" if "sel = Some p" for p using selected [OF assms(1,2)] s that by simp
  with q st sy show ?thesis by (simp add: serve_dispatch_def s Let_def split: option.split)
qed

lemma call:
  assumes "Q (monitor_st (chat_st s))" "length (gw_providers (chat_api srv)) \<le> 12" "well_timed (Call c)"
  shows "Q (monitor_st (chat_st (snd (serve_call srv c s))))"
  using assms(1)
proof (rule call_from)
  fix env r assume "c = Completion env r"
  with assms(1) show "Q (monitor_st (snd (ServeHTTP (chat_api srv) env r (chat_st s))))"
    by (intro serving_from dispatch) (use assms(2,3) in simp_all)
qed

lemma run:
  assumes "Q (monitor_st (chat_st s))"
    and "list_all (\<lambda>(srv, ev). length (gw_providers (chat_api srv)) \<le> 12 \<and> well_timed ev) es"
  shows "Q (monitor_st (chat_st (server_run es s)))"
  using assms(1) by (rule run_from) (use assms(2) in \<open>auto simp: list_all_iff intro!: call\<close>)

end

text \<open>The monitor's own invariant is such a property, and so is being out of service.\<close>

interpretation well_formed: monitor_property monitor_wf "\<lambda>n. True"
  by unfold_locales (auto intro: perform_call_wf)

definition out_of_service :: "string \<Rightarrow> EWMAMonitor \<Rightarrow> bool" where
  "out_of_service n m \<longleftrightarrow> monitor_wf m \<and> monitor_state m n = StateUnhealthy"

interpretation out_of_service: monitor_property "out_of_service n" "\<lambda>p. p \<noteq> n" for n
proof
  fix m c
  assume "out_of_service n m" "call_ok c" and "\<And>p. is_success_for p c \<Longrightarrow> p \<noteq> n"
  then show "out_of_service n (perform_call c m)"
    using ewma.unhealthy_sticky [of m "[c]" n] perform_call_wf [of m c]
    by (auto simp: out_of_service_def simp del: perform_call.simps)
qed (auto simp: out_of_service_def)

text \<open>A latency average only changes by a success.\<close>

definition latency_kept :: "string \<Rightarrow> float64 \<Rightarrow> EWMAMonitor \<Rightarrow> bool" where
  "latency_kept n l m \<longleftrightarrow> monitor_wf m \<and> fst (view m n) = l"

interpretation latency_kept: monitor_calls "latency_kept n l" "\<lambda>p. p \<noteq> n" for n l
proof
  fix m c
  assume m: "latency_kept n l m" and "call_ok c" "\<And>p. is_success_for p c \<Longrightarrow> p \<noteq> n"
  then show "latency_kept n l (perform_call c m)"
    using perform_call_wf [of m c] view_perform [of m c]
    by (cases c; cases "view m n") (auto simp: latency_kept_def simp del: perform_call.simps)
qed

end
