(* ===== verification/Server_Properties.thy ===== *)
theory Server_Properties
  imports Server Gateway_Properties Admin_Properties
begin

text \<open>The properties of the running server: what its parts do to each other.\<close>

section \<open>A server to try them on\<close>

definition example_server :: "(MemoryCache, tenants_table, LogEvent list, nat, unit) server" where
  "example_server = server_over memory_cache Delivered (replicate 16 (CHR 0x2A)) 5 None Some
     (\<lambda>e k. (None, k @ [e])) (\<lambda>e k. (None, k)) [hello_provider] (\<lambda>_ ps. ps) ''s3cret'' None (\<lambda>e b. ''bad json'')"

definition example_state :: "(MemoryCache, tenants_table, LogEvent list, nat, unit) server_state" where
  "example_state = \<lparr>chat_st = hello_state, analytics_st = ()\<rparr>"

lemma example_server_env: "server_env example_server (\<lambda>m k v. data m k = Some v) table_valid"
  unfolding example_server_def by (rule memory_server.server_env_axioms)

lemma example_chat: "chat_api example_server = hello_gateway"
  by (simp add: example_server_def server_over_def hello_gateway_def)

section \<open>Authentication over the lifetime of the server\<close>

lemma run_authentic:
  assumes "\<forall>x \<in> set es. server_env (fst x) holds db_inv" "authentic_state holds db_inv (chat_st s)"
  shows "authentic_state holds db_inv (chat_st (server_run es s))"
  using assms
proof (induction es arbitrary: s)
  case (Cons x es)
  obtain srv ev where x: "x = (srv, ev)" by fastforce
  have e: "server_env srv holds db_inv" using Cons.prems(1) x by simp
  note g = server_env.axioms(1) [OF e]
  have "authentic_state holds db_inv (chat_st (server_step srv ev s))"
    using server_env.step_inv [OF e, of s ev] Cons.prems(2) by (simp add: authentic_state_inv [OF g])
  then show ?case using Cons x by simp
qed simp

text \<open>
  C18: keys are checked over the whole life of the server: after any run of chat requests, of
  admin requests with any bodies, tenant creations included, and of charges of the budget
  processor, with any faults of the connections in between, the cache and the database hold
  only valid tenants under the hash of their own key. A request that comes then is refused
  or served for a tenant whose hash is the SHA-256 of the key it sent.
\<close>
theorem keys_checked_for_life:
  assumes "\<forall>x \<in> set es. server_env (fst x) holds db_inv" and "server_env srv holds db_inv"
    and "authentic_state holds db_inv (chat_st s)" and "api_key r \<noteq> []"
    and "serve_call srv (Completion env r) (server_run es s) = (out, s')"
  shows "authentic_state holds db_inv (chat_st s')
    \<and> (out = Return (http_Error ''invalid_api_key'' 401 no_response)
       \<or> (\<exists>t st1. APIKeyHash t = key_hash (api_key r) \<and> tenant_valid t
             \<and> (out, chat_st s') = serve_tenant (chat_api srv) env r t st1))"
proof -
  note g = server_env.axioms(1) [OF assms(2)]
  have a: "authentic_state holds db_inv (chat_st (server_run es s))" using assms(1,3) by (rule run_authentic)
  have "authentic_state holds db_inv (chat_st s')"
    using run_authentic [of "[(srv, Call (Completion env r))]" holds db_inv "server_run es s"] a assms(2,5)
    by (simp add: server_step_def)
  moreover have o: "ServeHTTP (chat_api srv) env r (chat_st (server_run es s)) = (out, chat_st s')"
    using assms(5) by (auto simp: serve_call_def split: prod.splits)
  have "out = Return (http_Error ''invalid_api_key'' 401 no_response)
      \<or> (\<exists>t st1. APIKeyHash t = key_hash (api_key r) \<and> tenant_valid t
             \<and> (out, chat_st s') = serve_tenant (chat_api srv) env r t st1)"
    by (rule gateway_env.ServeHTTP_authenticates [OF g a [unfolded authentic_state_inv [OF g]] assms(4), of env])
      (use o in auto)
  ultimately show ?thesis by blast
qed

theorem keys_checked_for_life_witness:
  "\<exists>out s'. serve_call example_server (Completion hello_env hello_request)
       (server_run [(example_server, Call (Administer 0 \<lparr>admin_token = ''s3cret'', token_param = [], admin_call = CreateTenantCall example_body\<rparr>)),
                    (example_server, Charge ''5e1f'' 10)] example_state) = (out, s')
     \<and> authentic_state (\<lambda>m k v. data m k = Some v) table_valid (chat_st s')"
proof -
  let ?es = "[(example_server, Call (Administer 0 \<lparr>admin_token = ''s3cret'', token_param = [], admin_call = CreateTenantCall example_body\<rparr>)),
              (example_server, Charge ''5e1f'' 10)]"
  obtain out s' where o: "serve_call example_server (Completion hello_env hello_request) (server_run ?es example_state) = (out, s')"
    by fastforce
  have "\<forall>x \<in> set ?es. server_env (fst x) (\<lambda>m k v. data m k = Some v) table_valid" using example_server_env by simp
  moreover have "authentic_state (\<lambda>m k v. data m k = Some v) table_valid (chat_st example_state)"
    using hello_authentic by (simp add: example_state_def)
  moreover have "api_key hello_request \<noteq> []" by (simp add: hello_request_def seed_key_def)
  ultimately have "authentic_state (\<lambda>m k v. data m k = Some v) table_valid (chat_st s')"
    using keys_checked_for_life [OF _ example_server_env _ _ o] by blast
  with o show ?thesis by blast
qed

section \<open>Providers taken out of service\<close>

text \<open>
  When requests come one after the other, a provider the admin interface fails never comes
  back: no answer of it is awaited, and only an answer of its own could put it back. The theory
  \<open>Live_Server_Properties\<close> has the same for requests that overlap.
\<close>
lemma failed_provider_not_back:
  assumes "monitor_wf (monitor_st (chat_st s))" and "authorised (admin_api srv) r"
    and "admin_call r = FailProviderCall name"
    and "list_all (\<lambda>(srv', ev). length (gw_providers (chat_api srv')) \<le> 12 \<and> well_timed ev) es"
    and "server_run es (snd (serve_call srv (Administer stamp r) s)) = s'" and "length ps \<le> 12"
  shows "fst (GetState (monitor_st (chat_st s')) name clock) = StateUnhealthy
     \<and> (\<forall>q. fst (Select pdq tick (monitor_st (chat_st s')) ps al) = Some q \<longrightarrow> Name q \<noteq> name)"
proof -
  let ?m = "perform_call (CallForceFailure name stamp) (monitor_st (chat_st s))"
  have "monitor_st (chat_st (snd (serve_call srv (Administer stamp r) s))) = ?m"
    using serve_admin_authorised [OF assms(2), of stamp "admin_view s"] assms(3)
    by (simp add: serve_call_def after_admin_def admin_view_def admin_handler_def failProvider_def)
  moreover have "out_of_service name ?m"
    using perform_call_wf [OF assms(1)] ewma.state_failure [OF assms(1)]
    by (simp add: out_of_service_def del: perform_call.simps)
  ultimately have o: "out_of_service name (monitor_st (chat_st s'))"
    using out_of_service.run [of name "snd (serve_call srv (Administer stamp r) s)" es] assms(4,5) by simp
  obtain sel m' where c: "Select pdq tick (monitor_st (chat_st s')) ps al = (sel, m')" by fastforce
  show ?thesis
    using o c out_of_service.selected [OF o assms(6), of pdq tick] by (auto simp: out_of_service_def fst_GetState_state)
qed

section \<open>Streams and the selector\<close>

text \<open>
  C20: streams teach the selector nothing: a gateway whose chat requests all ask for streams
  never learns a latency, however its providers answer. Whatever the admin interface and the
  budget processor do in between, every provider keeps the average it started with, so the
  choice is the first provider in the list that is allowed and in service.
\<close>
theorem streams_teach_no_latency:
  assumes "monitor_st (chat_st s) = NewEWMAMonitor" and "list_all (streams_only \<circ> snd) es"
    and "server_run es s = s'" and "length ps \<le> 12"
  shows "fst (view (monitor_st (chat_st s')) n) = 0
    \<and> (\<forall>p. fst (Select pdq tick (monitor_st (chat_st s')) ps al) = Some p
          \<longrightarrow> p = hd (filter (eligible (monitor_st (chat_st s')) al) ps))"
proof -
  let ?m = "monitor_st (chat_st s')"
  have "latency_kept n 0 (monitor_st (chat_st s))" for n
    by (simp add: assms(1) latency_kept_def NewEWMAMonitor_wf) (simp add: view_def NewEWMAMonitor_def)
  then have k: "latency_kept n 0 ?m" for n using latency_kept.streaming_run assms(2,3) by blast
  then have wf: "monitor_wf ?m" by (simp add: latency_kept_def)
  have same: "\<not> latency_of ?m a < latency_of ?m b" for a b
    using k less_float64_antisym [of "latency_of ?m b" "latency_of ?m b"] by (auto simp: latency_kept_def latency_of_def)
  have "p = hd (filter (eligible ?m al) ps)" if "Select pdq tick ?m ps al = (Some p, m')" for p m'
  proof -
    note sel = that
    obtain before after where f: "filter (eligible ?m al) ps = before @ p # after"
      "\<forall>q \<in> set before. latency_of ?m (Name p) < latency_of ?m (Name q)"
      using Select_split [OF wf assms(4) sel] by blast
    then have "before = []" using same by (cases before) auto
    with f(1) show ?thesis by simp
  qed
  with k show ?thesis by (auto simp: latency_kept_def) (metis prod.collapse)
qed

theorem streams_teach_no_latency_witness:
  "fst (view (monitor_st (chat_st (server_run [(example_server, Call (Completion hello_env stream_request))] example_state))) ''openai'') = 0"
proof -
  have "monitor_st (chat_st example_state) = NewEWMAMonitor" by (simp add: example_state_def hello_state_def)
  moreover have "list_all (streams_only \<circ> snd) [(example_server, Call (Completion hello_env stream_request))]"
    by (simp add: stream_decodes)
  moreover have "length [hello_provider] \<le> 12" by simp
  ultimately show ?thesis by (rule streams_teach_no_latency [THEN conjunct1, OF _ _ refl])
qed

end
