(* ===== verification/Simulator.thy ===== *)
theory Simulator
  imports Http_Providers
begin

text \<open>
  \<open>scripts/simulate.go\<close>: the load generator. It sends chat requests with one API key at random
  intervals, each from its own goroutine, prints a line for each answer, and on an interrupt
  waits for the requests on their way. Random numbers and clock readings are arguments.
\<close>

section \<open>What it sends\<close>

definition sim_url :: string where
  "sim_url = ''http://localhost:8080/v1/chat/completions''"

definition sim_key :: string where
  "sim_key = ''sk-kb-iux3n2bgcjm''"

definition sim_models :: "string list" where
  "sim_models = [''gpt-4o'', ''claude-3-sonnet'', ''gemini-1.5-pro'']"

definition sim_prompts :: "string list" where
  "sim_prompts = [''What is Observation Haki?'', ''Explain Kafka in one sentence.'',
     ''How do I scale a Go application?'', ''Tell me a joke about Redis.'']"

text \<open>\<open>rand.Intn(450)+50\<close> milliseconds.\<close>

definition next_delay :: "int \<Rightarrow> duration" where
  "next_delay drawn = (drawn + 50) * Millisecond"

text \<open>The numbers one request draws: its model, its prompt, and whether it repeats the first one.\<close>

record draw =
  drawn_model :: nat
  drawn_prompt :: nat
  drawn_repeat :: rat

definition possible_draw :: "draw \<Rightarrow> bool" where
  "possible_draw d \<longleftrightarrow> drawn_model d < length sim_models \<and> drawn_prompt d < length sim_prompts
     \<and> 0 \<le> drawn_repeat d \<and> drawn_repeat d < 1"

definition sim_model :: "draw \<Rightarrow> string" where
  "sim_model d = sim_models ! drawn_model d"

text \<open>The threshold is the binary64 number nearest to 0.3.\<close>

definition sim_prompt :: "draw \<Rightarrow> string" where
  "sim_prompt d =
     (let prompt = sim_prompts ! drawn_prompt d
      in if drawn_repeat d < rnd (3 / 10) then sim_prompts ! 0 else prompt)"

text \<open>The keys of a map are printed in order.\<close>

definition sim_payload :: "draw \<Rightarrow> json" where
  "sim_payload d = JObj
     [(''messages'', JArr [JObj [(''content'', JStr (sim_prompt d)), (''role'', JStr ''user'')]]),
      (''model'', JStr (sim_model d)), (''stream'', JBool False)]"

definition sim_request :: "draw \<Rightarrow> http_request" where
  "sim_request d =
     \<lparr>http_method = ''POST'', url = sim_url,
      http_headers = [(''X-API-Key'', sim_key), (''Content-Type'', ''application/json'')],
      http_body = encode (sim_payload d)\<rparr>"

section \<open>What it prints\<close>

text \<open>The symbols are UTF-8.\<close>

definition check_mark :: string where "check_mark = [CHR 0xE2, CHR 0x9C, CHR 0x85]"
definition hourglass :: string where "hourglass = [CHR 0xE2, CHR 0x8F, CHR 0xB3]"
definition explosion :: string where "explosion = [CHR 0xF0, CHR 0x9F, CHR 0x92, CHR 0xA5]"
definition lightning :: string where "lightning = [CHR 0xE2, CHR 0x9A, CHR 0xA1]"
definition cross_mark :: string where "cross_mark = [CHR 0xE2, CHR 0x9D, CHR 0x8C]"

definition status_icon :: "int \<Rightarrow> bool \<Rightarrow> string" where
  "status_icon status cacheHit =
     (if status = 429 then hourglass @ '' (Rate Limited)''
      else if 500 \<le> status then explosion @ '' (Provider Error)''
      else if cacheHit then lightning @ '' (Cache HIT)''
      else check_mark)"

text \<open>The verbs \<open>%-15s\<close> and \<open>%4d\<close> pad with blanks; the models are ASCII.\<close>

definition pad_right :: "nat \<Rightarrow> string \<Rightarrow> string" where
  "pad_right n s = s @ replicate (n - length s) (CHR '' '')"

definition pad_left :: "nat \<Rightarrow> string \<Rightarrow> string" where
  "pad_left n s = replicate (n - length s) (CHR '' '') @ s"

definition answer_line :: "string \<Rightarrow> string \<Rightarrow> duration \<Rightarrow> int \<Rightarrow> bool \<Rightarrow> string" where
  "answer_line clock model latency status cacheHit =
     (let statusIcon = status_icon status cacheHit
      in ''['' @ clock @ ''] '' @ statusIcon @ '' | Model: '' @ pad_right 15 model
         @ '' | Latency: '' @ pad_left 4 (itoa (Milliseconds latency)) @ ''ms | Status: '' @ itoa status
         @ '' '' @ statusIcon @ [CHR 0x0A])"

text \<open>
  One request: the client's answer gives the status and whether the header \<open>X-Cache\<close> says
  \<open>HIT\<close>. An error is printed unless the simulator is being stopped.
\<close>

definition sim_send ::
  "(http_request \<Rightarrow> 'w \<Rightarrow> (int \<times> string option) go_result \<times> 'w) \<Rightarrow> draw \<Rightarrow> bool \<Rightarrow> string \<Rightarrow> duration \<Rightarrow> 'w
    \<Rightarrow> string \<times> 'w" where
  "sim_send send d stopping clock latency w =
     (case send (sim_request d) w of
        (Inl (GoError e), w1) \<Rightarrow>
          (if stopping then [] else cross_mark @ '' Failed to sense: '' @ e @ [CHR 0x0A], w1)
      | (Inr (status, x_cache), w1) \<Rightarrow>
          (answer_line clock (sim_model d) latency status (x_cache = Some ''HIT''), w1))"

section \<open>The loop\<close>

text \<open>
  The loop waits for the interrupt or the timer; a timer starts a request and sets the next one.
  After the interrupt the program waits until no request is on its way, and ends.
\<close>

record simulator =
  looping :: bool
  on_their_way :: nat
  next_in :: duration
  ended_sim :: bool

inductive sim_step :: "simulator \<Rightarrow> simulator \<Rightarrow> bool" where
  fire: "looping s \<Longrightarrow> 0 \<le> i \<Longrightarrow> i < 450 \<Longrightarrow>
    sim_step s (s\<lparr>on_their_way := Suc (on_their_way s), next_in := next_delay i\<rparr>)"
| answered: "on_their_way s = Suc n \<Longrightarrow> \<not> ended_sim s \<Longrightarrow> sim_step s (s\<lparr>on_their_way := n\<rparr>)"
| interrupted: "looping s \<Longrightarrow> sim_step s (s\<lparr>looping := False\<rparr>)"
| all_done: "\<not> looping s \<Longrightarrow> \<not> ended_sim s \<Longrightarrow> on_their_way s = 0 \<Longrightarrow> sim_step s (s\<lparr>ended_sim := True\<rparr>)"

inductive sim_reachable :: "simulator \<Rightarrow> bool" where
  sim_start: "0 \<le> i \<Longrightarrow> i < 450 \<Longrightarrow>
    sim_reachable \<lparr>looping = True, on_their_way = 0, next_in = next_delay i, ended_sim = False\<rparr>"
| sim_next: "sim_reachable s \<Longrightarrow> sim_step s t \<Longrightarrow> sim_reachable t"

text \<open>It sends between two and twenty requests a second, and does not leave one behind.\<close>

lemma sim_invariant:
  "sim_reachable s \<Longrightarrow> 50 * Millisecond \<le> next_in s \<and> next_in s < 500 * Millisecond
     \<and> (ended_sim s \<longrightarrow> \<not> looping s \<and> on_their_way s = 0)"
proof (induction rule: sim_reachable.induct)
  case (sim_start i)
  then show ?case by (simp add: next_delay_def Millisecond_def)
next
  case (sim_next s t)
  from sim_next(2,3) show ?case
    by (cases rule: sim_step.cases) (auto simp: next_delay_def Millisecond_def)
qed

section \<open>Its requests at the gateway\<close>

lemma sim_ascii:
  assumes "possible_draw d" shows "valid_utf8 (sim_prompt d)" "valid_utf8 (sim_model d)"
proof -
  have "list_all valid_utf8 sim_prompts" "list_all valid_utf8 sim_models"
    by (simp_all add: sim_prompts_def sim_models_def valid_ascii byte_def)
  moreover have "0 < length sim_prompts" by (simp add: sim_prompts_def)
  with assms have "sim_prompt d \<in> set sim_prompts" "sim_model d \<in> set sim_models"
    using assms by (auto simp: sim_prompt_def sim_model_def possible_draw_def Let_def intro: nth_mem)
  ultimately show "valid_utf8 (sim_prompt d)" "valid_utf8 (sim_model d)" by (auto simp: list_all_iff)
qed

definition sim_chat :: "draw \<Rightarrow> ChatRequest" where
  "sim_chat d = \<lparr>ReqModel = sim_model d, Messages = [\<lparr>Role = ''user'', Content = sim_prompt d\<rparr>], Stream = False\<rparr>"

lemma sim_decodes:
  assumes "possible_draw d" shows "decode_request (http_body (sim_request d)) = (sim_chat d, None)"
proof -
  have u: "sanitize ''user'' = ''user''" by (simp add: sanitize_ascii byte_def)
  have "decode_value (encode (sim_payload d) @ []) = Some (cleaned (sim_payload d))"
    by (rule decode_encode) (simp_all add: sim_payload_def max_depth_def number_ends_def)
  then have "decode_value (encode (sim_payload d)) = Some (sim_payload d)"
    using sim_ascii [OF assms] by (simp add: sim_payload_def valid_utf8_def u)
  moreover have "skip (encode (sim_payload d)) \<noteq> []" by (simp add: sim_payload_def)
  moreover have "decode_struct request_fields (sim_payload d) zero_request = (sim_chat d, None)"
    by (simp add: decode_struct_def sim_payload_def sim_chat_def find_field_def request_fields_def set_slice_def
        decode_slice_def zero_request_def message_fields_def zero_message_def)
  ultimately show ?thesis by (simp add: decode_request_def Decode_def sim_request_def)
qed

section \<open>Its key\<close>

definition simulator_words :: "word32 list" where
  "simulator_words =
    [1936403819, 1647143285, 2016636466, 1650942826, 1837105152, 0, 0, 0,
     0, 0, 0, 0, 0, 0, 0, 136,
     810015970, 318570123, 2389145664, 1348653800, 3230388001, 859650697, 2655320879, 1784761753,
     4124224607, 499939439, 1409041376, 1942547810, 3705018138, 155615445, 1138511389, 3147176262,
     684389994, 2237576203, 2520339779, 1647767043, 2762086767, 2486356622, 378328168, 3651528151,
     797432730, 3700273237, 3199137324, 845698948, 571761713, 1653390417, 4167870020, 564818987,
     2010196367, 2036467264, 730838704, 365472647, 4055982819, 3040612815, 2738569259, 2746479048,
     1298147149, 2184625370, 127717261, 755713060, 1460146271, 2412921360, 1976495476, 854235281]"

definition simulator_state0 :: hash_state where
  "simulator_state0 = (1779033703, 3144134277, 1013904242, 2773480762, 1359893119, 2600822924, 528734635, 1541459225)"

definition simulator_state1 :: hash_state where
  "simulator_state1 = (2532842530, 282894169, 734913344, 1522570078, 1686637757, 3021966664, 2848127643, 3984500651)"

definition simulator_state2 :: hash_state where
  "simulator_state2 = (4236713368, 2473936962, 2106214093, 2234295962, 2639202893, 3107787079, 438950684, 3881046852)"

definition simulator_state3 :: hash_state where
  "simulator_state3 = (219351805, 2056355848, 502484485, 3269994990, 2303197081, 588075703, 1398272907, 2147829975)"

definition simulator_state4 :: hash_state where
  "simulator_state4 = (608136548, 421188162, 1438691956, 1141490031, 2119204520, 959454946, 4275245808, 709947835)"

lemma simulator_schedule: "schedule (be_words (padded sim_key)) = simulator_words"
  by code_simp

lemma simulator_rounds0:
  "fold hash_round (zip (take 16 (drop 0 round_constants)) (take 16 (drop 0 simulator_words))) simulator_state0 = simulator_state1"
  by code_simp

lemma simulator_rounds1:
  "fold hash_round (zip (take 16 (drop 16 round_constants)) (take 16 (drop 16 simulator_words))) simulator_state1 = simulator_state2"
  by code_simp

lemma simulator_rounds2:
  "fold hash_round (zip (take 16 (drop 32 round_constants)) (take 16 (drop 32 simulator_words))) simulator_state2 = simulator_state3"
  by code_simp

lemma simulator_rounds3:
  "fold hash_round (zip (take 16 (drop 48 round_constants)) (take 16 (drop 48 simulator_words))) simulator_state3 = simulator_state4"
  by code_simp

lemma simulator_compress:
  "compress (be_words (padded sim_key)) simulator_state0 = add_state simulator_state0 simulator_state4"
  by (rule compress_in_chunks [OF simulator_schedule _ simulator_rounds0 simulator_rounds1 simulator_rounds2 simulator_rounds3])
    (simp add: simulator_words_def)

lemma simulator_padding:
  "length (padded sim_key) div 64 = Suc 0" "take 16 (be_words (padded sim_key)) = be_words (padded sim_key)"
  by code_simp+

lemma simulator_initial: "simulator_state0 = initial_hash"
  by (simp add: simulator_state0_def initial_hash_def)

lemma simulator_digest:
  "EncodeToString (map char_of (state_bytes (add_state simulator_state0 simulator_state4)))
   = ''8e4953cbd48280c7922fa5e6e959b6a9cf5ed127d435876e1e56ec9b8631bed4''"
  by code_simp

lemma simulator_key_hash: "key_hash sim_key = ''8e4953cbd48280c7922fa5e6e959b6a9cf5ed127d435876e1e56ec9b8631bed4''"
  using simulator_digest
  by (simp only: key_hash_def Sum256_def Let_def simulator_padding compress_all.simps simulator_compress simulator_initial [symmetric])

end
