(* ===== verification/Simulator_Properties.thy ===== *)
theory Simulator_Properties
  imports Simulator Gateway_Properties
begin

text \<open>The load generator against the gateway it is meant for.\<close>

text \<open>
  Every body the simulator can send is a request the gateway decodes to the model and the prompt
  that were drawn.
\<close>

theorem simulated_requests_decode:
  assumes "possible_draw d"
  shows "decode_request (http_body (sim_request d)) = (sim_chat d, None)"
  using assms by (rule sim_decodes)

text \<open>
  C40: the simulator proves nothing about the gateway: its key is not the key of the seeded
  tenant, so a gateway over the seeded database refuses every request it sends before doing
  anything, and the simulator prints the refusals with the mark of success.
\<close>
theorem simulator_is_refused:
  assumes "db_st st = [\<lparr>row_tenant = seed_tenant, row_created_at = c\<rparr>]"
    and "data (cache_st st) (tenant_key (key_hash sim_key)) = None" and "api_key r = sim_key"
  shows "\<exists>w st'. ServeHTTP (gateway_over memory_cache f emit broadcast ps pdq) env r st = (Return w, st')
    \<and> status_of w = 401 \<and> world st' = world st \<and> log_st st' = log_st st \<and> limiter_st st' = limiter_st st
    \<and> status_icon (status_of w) (headers w ''X-Cache'' = Some ''HIT'') = check_mark"
proof -
  let ?h = "key_hash sim_key" and ?g = "gateway_over memory_cache f emit broadcast ps pdq"
  have h: "APIKeyHash seed_tenant \<noteq> ?h"
    unfolding simulator_key_hash by (simp add: seed_tenant_def seed_hash_def)
  obtain e d where q: "GetTenantByAPIKeyHash f ?h (db_st st) = (Inl e, d)"
    using h by (cases f) (simp_all add: assms(1) GetTenantByAPIKeyHash_def deliver_def)
  have "lookup_tenant ?g ?h st = (Inl e, st\<lparr>db_st := d\<rparr>)"
    using assms(2) q by (simp add: lookup_tenant_def gateway_over_def memory_cache_def memory_Get_def)
  then have "ServeHTTP ?g env r st = (Return (http_Error ''invalid_api_key'' 401 no_response), st\<lparr>db_st := d\<rparr>)"
    using assms(3) by (simp add: ServeHTTP_def) (simp add: sim_key_def)
  moreover have "headers (http_Error ''invalid_api_key'' 401 no_response) ''X-Cache'' = None"
    by (simp add: http_Error_def Write_def WriteHeader_def set_header_def no_response_def)
  ultimately show ?thesis by (simp add: status_icon_def no_response_def)
qed

theorem simulator_is_refused_witness:
  "\<exists>w st'. ServeHTTP hello_gateway hello_env \<lparr>api_key = sim_key, body = http_body (sim_request \<lparr>drawn_model = 0, drawn_prompt = 1, drawn_repeat = 1 / 2\<rparr>),
       can_flush = True\<rparr> hello_state = (Return w, st') \<and> status_of w = 401"
  using simulator_is_refused [of hello_state 0 "\<lparr>api_key = sim_key, body = http_body (sim_request \<lparr>drawn_model = 0, drawn_prompt = 1, drawn_repeat = 1 / 2\<rparr>), can_flush = True\<rparr>"]
  by (fastforce simp: hello_gateway_def hello_state_def NewMemoryCache_def)

end
