(* ===== verification/Program.thy ===== *)
theory Program
  imports Server Multi_Logger
begin

text \<open>
  The assembled program of \<open>cmd/gateway/main.go\<close>: what it opens at the start and with which
  options, the server over the opened parts, the middleware every request goes through, and
  what is closed at the end. pgxpool, clickhouse-go, chi, cors and \<open>net/http\<close> are parameters.
\<close>

section \<open>Opening the database\<close>

record 'o pool_config =
  MaxConns :: int
  MinConns :: int
  pool_rest :: 'o

record ('o, 'p) pg_driver =
  ParseConfig :: "string \<Rightarrow> 'o pool_config go_result"
  NewWithConfig :: "'o pool_config \<Rightarrow> 'p go_result"
  ClosePool :: "'p \<Rightarrow> 'p"

definition wrap_error :: "string \<Rightarrow> go_error \<Rightarrow> go_error" where
  "wrap_error prefix err = GoError (prefix @ '': '' @ error_text err)"

definition New :: "('o, 'p) pg_driver \<Rightarrow> string \<Rightarrow> 'p go_result" where
  "New drv connString =
     (case ParseConfig drv connString of
        Inl err \<Rightarrow> Inl (wrap_error ''unable to parse database url'' err)
      | Inr config \<Rightarrow>
          (case NewWithConfig drv (config\<lparr>MaxConns := 50, MinConns := 10\<rparr>) of
             Inl err \<Rightarrow> Inl (wrap_error ''unable to create connection pool'' err)
           | Inr pool \<Rightarrow> Inr pool))"

definition Close :: "('o, 'p) pg_driver \<Rightarrow> 'p \<Rightarrow> 'p" where
  "Close drv pool = ClosePool drv pool"

section \<open>Opening ClickHouse\<close>

record ch_options =
  ChAddr :: "string list"
  ChDatabase :: string
  ChUsername :: string
  ChPassword :: string
  MaxExecutionTime :: int
  DialTimeout :: duration

record ('n, 'r) ClickHouseClient =
  conn :: 'n
  redis :: 'r

definition NewClickHouseClient ::
  "(ch_options \<Rightarrow> 'n go_result) \<Rightarrow> string \<Rightarrow> 'r \<Rightarrow> ('n, 'r) ClickHouseClient go_result" where
  "NewClickHouseClient open_conn addr rdb =
     (case open_conn \<lparr>ChAddr = [addr], ChDatabase = ''default'', ChUsername = ''gateway'', ChPassword = ''gateway'',
                      MaxExecutionTime = 60, DialTimeout = 5 * Second\<rparr> of
        Inl err \<Rightarrow> Inl err
      | Inr c \<Rightarrow> Inr \<lparr>conn = c, redis = rdb\<rparr>)"

definition GetRedis :: "('n, 'r) ClickHouseClient \<Rightarrow> 'r" where
  "GetRedis c = redis c"

text \<open>An error is printed, and the nil interface goes to the admin handler.\<close>

definition opened_analytics :: "('n, 'r) ClickHouseClient go_result \<Rightarrow> 'n option" where
  "opened_analytics chClient = (case chClient of Inl err \<Rightarrow> None | Inr c \<Rightarrow> Some (conn c))"

section \<open>The handlers over the opened parts\<close>

definition gateway_logger :: "Config \<Rightarrow> kafka_writer" where
  "gateway_logger cfg = NewMultiLogger (KafkaBrokers cfg) ''gateway_logs''"

text \<open>
  \<open>b\<close> are Kafka and Redis behind the logger; the faults, the key and the time of a created
  row are those of the moment.
\<close>

definition program_server ::
  "'w upstreams \<Rightarrow> env \<Rightarrow> Config \<Rightarrow> 'c cache_ops \<Rightarrow> 'k log_backend
    \<Rightarrow> (('w provider \<Rightarrow> 'w provider \<Rightarrow> bool) \<Rightarrow> 'w provider list \<Rightarrow> 'w provider list)
    \<Rightarrow> (string \<Rightarrow> string option) \<Rightarrow> ('a ch_conn, 'r) ClickHouseClient go_result \<Rightarrow> (json_error \<Rightarrow> bytes \<Rightarrow> string)
    \<Rightarrow> pg_fault \<Rightarrow> bytes \<Rightarrow> instant \<Rightarrow> nat option \<Rightarrow> ('c, tenants_table, 'k, 'w, 'a) server" where
  "program_server u e cfg cache b pdq canon chClient explain f uuid created broken =
     server_over cache f uuid created broken canon (multi_Log b) (multi_Broadcast b)
       (gateway_providers u e cfg) pdq (AdminSecret cfg) (opened_analytics chClient) explain"

definition program_start ::
  "Config \<Rightarrow> 'c \<Rightarrow> tenants_table \<Rightarrow> 'k \<Rightarrow> 'w \<Rightarrow> 'a \<Rightarrow> ('c, tenants_table, 'k, 'w, 'a) server_state" where
  "program_start cfg c tbl k w a =
     \<lparr>chat_st = \<lparr>cache_st = c, db_st = tbl, limiter_st = NewTokenBucket (RateLimitSyncFreq cfg),
                 monitor_st = NewEWMAMonitor, log_st = k, world = w\<rparr>, analytics_st = a\<rparr>"

section \<open>Middleware\<close>

record cors_options =
  AllowedOrigins :: "string list"
  AllowedMethods :: "string list"
  AllowedHeaders :: "string list"
  ExposedHeaders :: "string list"
  AllowCredentials :: bool
  MaxAge :: int

definition gateway_cors :: cors_options where
  "gateway_cors =
     \<lparr>AllowedOrigins = [''*''],
      AllowedMethods = [''GET'', ''POST'', ''PATCH'', ''DELETE'', ''OPTIONS''],
      AllowedHeaders = [''Accept'', ''Authorization'', ''Content-Type'', ''X-CSRF-Token'', ''X-API-Key'', ''X-Admin-Token''],
      ExposedHeaders = [''Link''], AllowCredentials = False, MaxAge = 300\<rparr>"

datatype middleware = Cors cors_options | RequestIDs | RealIP | RequestLogger | Recoverer

definition middlewares :: "middleware list" where
  "middlewares = [Cors gateway_cors, RequestIDs, RealIP, RequestLogger, Recoverer]"

text \<open>A request as chi's router sees it: one of the routes, or none of them.\<close>

datatype incoming = Matched server_call | Unmatched

type_synonym 's handler = "incoming \<Rightarrow> 's \<Rightarrow> response outcome \<times> 's"

definition route :: "('c, 'd, 'k, 'w, 'a) server \<Rightarrow> response \<Rightarrow> ('c, 'd, 'k, 'w, 'a) server_state handler" where
  "route srv not_found inc s =
     (case inc of Matched call \<Rightarrow> serve_call srv call s | Unmatched \<Rightarrow> (Return not_found, s))"

text \<open>The first middleware is the outermost.\<close>

definition chain :: "(middleware \<Rightarrow> 's handler \<Rightarrow> 's handler) \<Rightarrow> middleware list \<Rightarrow> 's handler \<Rightarrow> 's handler" where
  "chain wrap ms h = foldr wrap ms h"

definition program_serve ::
  "(middleware \<Rightarrow> ('c, 'd, 'k, 'w, 'a) server_state handler \<Rightarrow> ('c, 'd, 'k, 'w, 'a) server_state handler)
    \<Rightarrow> response \<Rightarrow> ('c, 'd, 'k, 'w, 'a) server \<Rightarrow> ('c, 'd, 'k, 'w, 'a) server_state handler" where
  "program_serve wrap not_found srv = chain wrap middlewares (route srv not_found)"

section \<open>The life of the program\<close>

record http_server =
  Addr :: string
  ReadTimeout :: duration
  WriteTimeout :: duration
  IdleTimeout :: duration

definition gateway_http :: "Config \<Rightarrow> http_server" where
  "gateway_http cfg =
     \<lparr>Addr = CHR '':'' # Port cfg, ReadTimeout = 5 * Second, WriteTimeout = 60 * Second, IdleTimeout = 120 * Second\<rparr>"

datatype cleanup = CloseLogger | CloseRedis | CloseDatabase

datatype ending = Exited int "cleanup list" | Crashed string | Ended go_error "cleanup list"

text \<open>
  \<open>os.Exit\<close> skips the deferred calls. \<open>ListenAndServe\<close> returns with an error, after which
  \<open>main\<close> returns, and the deferred calls run in reverse.
\<close>

definition gateway_main :: "'p go_result \<Rightarrow> Config \<Rightarrow> (http_server \<Rightarrow> go_error) \<Rightarrow> ending" where
  "gateway_main database cfg ListenAndServe =
     (case start_gateway (case database of Inl err \<Rightarrow> Some err | Inr _ \<Rightarrow> None) cfg of
        Exits n \<Rightarrow> Exited n []
      | Crashes m \<Rightarrow> Crashed m
      | Serves _ \<Rightarrow> Ended (ListenAndServe (gateway_http cfg)) [CloseLogger, CloseRedis, CloseDatabase])"

end
