(* ===== verification/Program_Properties.thy ===== *)
theory Program_Properties
  imports Program Server_Properties Gateway_Traffic Upstream_Properties Multi_Logger_Properties
begin

text \<open>The properties of the assembled program: what a panic does to it, and how it starts and ends.\<close>

section \<open>What the middleware promises\<close>

text \<open>
  \<open>Recoverer\<close> turns a panic of the handler into a response; no middleware survives the end
  of the process. The others answer by themselves, as CORS does a preflight request, or let
  the handler answer, and let its panics through.
\<close>

definition lets_through :: "response outcome \<times> 's \<Rightarrow> response outcome \<times> 's \<Rightarrow> bool" where
  "lets_through inner outer \<longleftrightarrow>
     snd outer = snd inner \<and>
     (case fst inner of
        Return w \<Rightarrow> \<exists>w'. fst outer = Return w'
      | Panic m \<Rightarrow> fst outer = Panic m
      | Crash m \<Rightarrow> fst outer = Crash m)"

definition recovers :: "response outcome \<times> 's \<Rightarrow> response outcome \<times> 's \<Rightarrow> bool" where
  "recovers inner outer \<longleftrightarrow>
     snd outer = snd inner \<and>
     (case fst inner of
        Return w \<Rightarrow> fst outer = Return w
      | Panic m \<Rightarrow> \<exists>w'. fst outer = Return w'
      | Crash m \<Rightarrow> fst outer = Crash m)"

definition middleware_laws :: "(middleware \<Rightarrow> 's handler \<Rightarrow> 's handler) \<Rightarrow> bool" where
  "middleware_laws wrap \<longleftrightarrow>
     (\<forall>h inc s. recovers (h inc s) (wrap Recoverer h inc s)) \<and>
     (\<forall>m h inc s. m \<noteq> Recoverer \<longrightarrow>
        (\<exists>w. wrap m h inc s = (Return w, s)) \<or> lets_through (h inc s) (wrap m h inc s))"

definition answers_or :: "response outcome \<Rightarrow> incoming \<Rightarrow> 's \<Rightarrow> 's handler \<Rightarrow> bool" where
  "answers_or c inc s h \<longleftrightarrow> (\<exists>w. fst (h inc s) = Return w) \<or> (\<exists>e. c = Crash e \<and> fst (h inc s) = c)"

lemma answers_outer:
  assumes "middleware_laws wrap" "answers_or c inc s h" "m \<noteq> Recoverer"
  shows "answers_or c inc s (wrap m h)"
proof -
  have "(\<exists>w. wrap m h inc s = (Return w, s)) \<or> lets_through (h inc s) (wrap m h inc s)"
    using assms(1,3) by (simp add: middleware_laws_def)
  then show ?thesis using assms(2) by (auto simp: lets_through_def answers_or_def)
qed

lemma answers_recovered:
  assumes "middleware_laws wrap"
  shows "answers_or (fst (h inc s)) inc s (wrap Recoverer h)"
proof -
  have "recovers (h inc s) (wrap Recoverer h inc s)" using assms by (simp add: middleware_laws_def)
  then show ?thesis by (cases "fst (h inc s)") (auto simp: recovers_def answers_or_def)
qed

lemma program_serve_outcome:
  assumes "middleware_laws wrap"
  shows "answers_or (fst (route srv nf inc s)) inc s (program_serve wrap nf srv)"
  unfolding program_serve_def chain_def middlewares_def foldr.simps comp_def id_def
  by (intro answers_outer [OF assms] answers_recovered [OF assms]) simp_all

section \<open>Where a crash can come from\<close>

text \<open>A provider's stream that panics in a goroutine, or brings a goroutine of its own down.\<close>

definition stream_panics :: "'w provider \<Rightarrow> ChatRequest \<Rightarrow> string \<Rightarrow> bool" where
  "stream_panics p req m \<longleftrightarrow>
     (\<exists>t c w. fst (ChatStream p t c req w) \<in> {Panic m, Crash m}
        \<or> (\<exists>s. fst (ChatStream p t c req w) = Return s \<and> ended s = StreamCrash m))"

definition chat_safe :: "'w provider \<Rightarrow> bool" where
  "chat_safe p \<longleftrightarrow> (\<forall>t req w m. fst (Chat p t req w) \<noteq> Crash m)"

lemma chat_loop_safe:
  "chat_safe (base p) \<Longrightarrow> fst (chat_loop ctx p outer req i e w) \<noteq> Crash m"
proof (induction ctx p outer req i e w rule: chat_loop.induct)
  case (1 ctx p outer req i e w)
  obtain r w1 where r: "Chat (base p) (attempt_deadline outer (timeout p)) req w = (r, w1)" by fastforce
  have "r \<noteq> Crash m'" for m' using "1.prems" r unfolding chat_safe_def by (metis fst_conv)
  then show ?case
    using 1 r by (subst chat_loop.simps) (auto split: outcome.split sum.split option.split prod.split)
qed

lemma stream_loop_panics:
  "ended (fst (stream_loop ctx p outer req i e w)) = StreamCrash m \<Longrightarrow> stream_panics (base p) req m"
proof (induction "nat (maxRetries p + 1 - i)" arbitrary: i e w rule: less_induct)
  case less
  obtain r w1 where r: "ChatStream (base p) (attempt_deadline outer (timeout p)) (Some 1) req w = (r, w1)" by fastforce
  show ?case
  proof (cases "r \<in> {Panic m, Crash m} \<or> (\<exists>s. r = Return s \<and> ended s = StreamCrash m)")
    case True
    then show ?thesis unfolding stream_panics_def using r by (metis fst_conv)
  next
    case False
    note unfolded_prems = less.prems [unfolded stream_loop.simps [of ctx p outer req i e w] r]
    have i: "i \<le> maxRetries p" using unfolded_prems by (auto simp: error_end_def split: option.splits if_splits)
    have "\<not> (\<exists>x. r = Panic x)" "\<not> (\<exists>x. r = Crash x)" using unfolded_prems False i by auto
    then obtain s where s: "r = Return s" by (cases r) auto
    have n: "ended s \<noteq> StreamCrash m" using False s by blast
    obtain ev w2 where ev: "first_of ctx s w1 = (ev, w2)" by fastforce
    have ne: "ev \<noteq> FirstChunk" "\<And>x. ended s \<noteq> StreamCrash x" "ctx_Err ctx w2 = None"
      using unfolded_prems i s ev n by (auto split: stream_end.splits first_event.splits option.splits)
    let ?next = "stream_loop ctx p outer req (i + 1) (attempt_error ev e) (if i < maxRetries p then sleep ctx (backoff p i) w2 else w2)"
    have "ended (fst ?next) = StreamCrash m"
      using unfolded_prems i s ev ne by (auto split: stream_end.splits first_event.splits)
    then show ?thesis using less.hyps [of "i + 1"] i by simp
  qed
qed

lemma resilient_chat_safe: "chat_safe p \<Longrightarrow> chat_safe (resilient u p)"
  using chat_loop_safe [of "NewResilientProvider p max_retries provider_timeout"]
  by (simp add: chat_safe_def resilient_def as_provider_def resilient_Chat_def NewResilientProvider_def)

lemma resilient_stream_panics: "stream_panics (resilient u p) req m \<Longrightarrow> stream_panics p req m"
proof -
  assume "stream_panics (resilient u p) req m"
  then obtain outer w where "ended (fst (stream_loop (contexts u) (NewResilientProvider p max_retries provider_timeout) outer req 0 None w))
      = StreamCrash m"
    by (auto simp: stream_panics_def resilient_def as_provider_def resilient_ChatStream_def split_beta)
  from stream_loop_panics [OF this] show ?thesis by (simp add: NewResilientProvider_def)
qed

lemma resilient_Name [simp]: "Name (resilient u p) = Name p"
  by (simp add: resilient_def as_provider_def resilient_Name_def NewResilientProvider_def)

text \<open>The providers of the gateway.\<close>

lemma chat_safe_bases:
  "chat_safe (mock u n)" "chat_safe (NewOpenAIProvider oc)" "chat_safe (NewAnthropicProvider hc k)"
  "chat_safe (gemini_provider gc)" "chat_safe (NewOllamaProvider hc host)"
  by (auto simp: chat_safe_def mock_def NewMockProvider_def mock_Chat_def Let_def NewOpenAIProvider_def openai_Chat_def
      NewAnthropicProvider_def anthropic_Chat_def anthropic_answer_def gemini_provider_def gemini_Chat_def
      NewOllamaProvider_def ollama_Chat_def
      split: prod.split sum.split list.split option.split go_error.split)

lemma gateway_providers_safe: "p \<in> set (gateway_providers u e cfg) \<Longrightarrow> chat_safe p"
  by (auto simp: gateway_providers_def openai_prov_def anthropic_prov_def gemini_prov_def Let_def
      intro!: resilient_chat_safe chat_safe_bases)

lemma ollama_lines_end: "ended (ollama_lines c brk s) \<noteq> StreamCrash m"
proof (induction c brk s rule: ollama_lines.induct)
  case (1 c brk s)
  show ?case
  proof (cases "parse_value 0 s")
    case None
    then show ?thesis by (subst ollama_lines.simps) (simp split: option.split)
  next
    case (Some x)
    obtain v rest l e where v: "x = (v, rest)" "decode_struct line_fields v zero_line = (l, e)" by (metis surj_pair)
    show ?thesis
    proof (cases "skip s = [] \<or> e \<noteq> None \<or> LineDone l \<or> \<not> length rest < length s")
      case True
      then show ?thesis using Some v by (subst ollama_lines.simps) (auto split: option.split)
    next
      case False
      then have "ended (ollama_lines c brk rest) \<noteq> StreamCrash m" using 1 Some v by auto
      then show ?thesis using False Some v by (subst ollama_lines.simps) (simp add: Let_def)
    qed
  qed
qed

lemma stream_panics_bases:
  "stream_panics (mock u n) req m \<Longrightarrow> Messages req = []"
  "\<not> stream_panics (NewOpenAIProvider oc) req m"
  "\<not> stream_panics (NewAnthropicProvider hc k) req m"
  "stream_panics (NewOllamaProvider hc host) req m \<Longrightarrow> \<not> url_ok hc (ollama_host host @ ''/api/chat'')"
  by (auto simp: stream_panics_def mock_def NewMockProvider_def mock_ChatStream_def Let_def NewOpenAIProvider_def
      openai_ChatStream_def NewAnthropicProvider_def anthropic_ChatStream_def NewOllamaProvider_def ollama_ChatStream_def
      ollama_request_def ollama_lines_end
      split: if_splits prod.splits sum.splits option.splits)

definition crash_cause :: "'w upstreams \<Rightarrow> Config \<Rightarrow> ChatRequest \<Rightarrow> string \<Rightarrow> bool" where
  "crash_cause u cfg req name \<longleftrightarrow>
     Messages req = [] \<or> name = ''gemini'' \<or>
     name = ''ollama'' \<and> \<not> url_ok (http_client_of u) (ollama_host (OllamaHost cfg) @ ''/api/chat'')"

lemma stream_panics_cause:
  assumes "p \<in> set (gateway_providers u e cfg)" "stream_panics p req m"
  shows "crash_cause u cfg req (Name p)"
proof -
  consider (openai) "p = resilient u (openai_prov u e)" | (anthropic) "p = resilient u (anthropic_prov u e)"
    | (gemini) "p = resilient u (gemini_prov u cfg)" | (ollama) "p = resilient u (NewOllamaProvider (http_client_of u) (OllamaHost cfg))"
    using assms(1) by (auto simp: gateway_providers_def)
  then show ?thesis
  proof cases
    case openai
    then show ?thesis using resilient_stream_panics [of u "openai_prov u e"] assms(2) stream_panics_bases(1,2)
      by (fastforce simp: openai_prov_def crash_cause_def Let_def split: if_splits)
  next
    case anthropic
    then show ?thesis using resilient_stream_panics [of u "anthropic_prov u e"] assms(2) stream_panics_bases(1,3)
      by (fastforce simp: anthropic_prov_def crash_cause_def Let_def split: if_splits)
  next
    case gemini
    then show ?thesis by (simp add: crash_cause_def gemini_prov_def gemini_provider_def)
  next
    case ollama
    then have "stream_panics (NewOllamaProvider (http_client_of u) (OllamaHost cfg)) req m"
      using assms(2) resilient_stream_panics by blast
    from stream_panics_bases(4) [OF this] ollama show ?thesis by (simp add: crash_cause_def NewOllamaProvider_def)
  qed
qed

section \<open>A crash in the handlers\<close>

lemma stream_events_crash:
  "fst (stream_events g env p req t fl e es a b w st) = Crash m \<Longrightarrow> e = StreamCrash m"
  by (induction g env p req t fl e es a b w st rule: stream_events.induct)
    (auto simp: Let_def split: if_splits stream_end.splits)

lemma handleStream_crash: "fst (handleStream g env p req t fl w st) = Crash m \<Longrightarrow> stream_panics p req m"
proof -
  assume c: "fst (handleStream g env p req t fl w st) = Crash m"
  obtain r wd where r: "ChatStream p None None req (world st) = (r, wd)" by fastforce
  have "r = Crash m \<or> (\<exists>s. r = Return s \<and> ended s = StreamCrash m)"
    using c r by (auto simp: handleStream_def dest: stream_events_crash split: outcome.splits)
  then show ?thesis unfolding stream_panics_def using r by (metis fst_conv insertI1 insertI2)
qed

lemma handleSync_crash: "chat_safe p \<Longrightarrow> fst (handleSync g env p req t k w st) \<noteq> Crash m"
  unfolding chat_safe_def
  by (auto simp: handleSync_def Let_def split: prod.split outcome.split sum.split) (metis fst_conv)

lemma serve_dispatch_crash:
  assumes "fst (serve_dispatch g env fl req t k st) = Crash m" "length (gw_providers g) \<le> 12"
    and "\<forall>p \<in> set (gw_providers g). chat_safe p"
  shows "Stream req \<and> (\<exists>p \<in> set (gw_providers g). allowed (value_or [] (ProviderAllowlist t)) (Name p) \<and> stream_panics p req m)"
proof -
  obtain sel mon where s: "Select (gw_pdq g) (at_select env) (monitor_st st) (gw_providers g)
      (value_or [] (ProviderAllowlist t)) = (sel, mon)" by fastforce
  then obtain p where p: "sel = Some p" using assms(1) by (cases sel) (auto simp: serve_dispatch_def)
  have m: "p \<in> set (gw_providers g)" "allowed (value_or [] (ProviderAllowlist t)) (Name p)"
    using Select_eligible [OF assms(2) s [unfolded p]] by (auto simp: eligible_def allowed_iff)
  let ?st = "st\<lparr>monitor_st := mon\<rparr>"
  have d: "serve_dispatch g env fl req t k st =
      (if Stream req then handleStream g env p req t fl no_response ?st else handleSync g env p req t k no_response ?st)"
    using s p by (simp add: serve_dispatch_def)
  have "Stream req"
    using d assms(1,3) m(1) handleSync_crash [of p g env req t k no_response ?st m] by (auto split: if_splits)
  moreover from this have "stream_panics p req m"
    using d assms(1) by (intro handleStream_crash [of g env p req t fl no_response ?st]) simp
  ultimately show ?thesis using m by blast
qed

lemma serve_request_crash:
  assumes "fst (serve_request g env fl req t st) = Crash m" "length (gw_providers g) \<le> 12"
    and "\<forall>p \<in> set (gw_providers g). chat_safe p"
  shows "Stream req \<and> (\<exists>p \<in> set (gw_providers g). allowed (value_or [] (ProviderAllowlist t)) (Name p) \<and> stream_panics p req m)"
proof -
  obtain k st' where "fst (serve_dispatch g env fl req t k st') = Crash m"
    using assms(1) by (auto simp: serve_request_def Let_def split: if_splits prod.splits sum.splits option.splits)
  from serve_dispatch_crash [OF this assms(2,3)] show ?thesis .
qed

text \<open>A streaming request that got as far as a provider that may panic.\<close>

definition crashing_request :: "('c, 'd, 'k, 'w) gateway \<Rightarrow> environment \<Rightarrow> request \<Rightarrow> ('c, 'd, 'k, 'w) gw_state \<Rightarrow> string \<Rightarrow> bool" where
  "crashing_request g env r st m \<longleftrightarrow>
     (\<exists>t req. served_tenant g r st = Some t \<and> \<not> budget_exhausted t
        \<and> admits (fst (Allow (limiter_st st) (ID t) (RateLimitRPM t) (at_bucket env) (at_refill env)))
        \<and> decode_request (body r) = (req, None) \<and> Stream req
        \<and> (\<exists>p \<in> set (gw_providers g). allowed (value_or [] (ProviderAllowlist t)) (Name p) \<and> stream_panics p req m))"

lemma ServeHTTP_crash:
  assumes "fst (ServeHTTP g env r st) = Crash m" "length (gw_providers g) \<le> 12" "\<forall>p \<in> set (gw_providers g). chat_safe p"
  shows "crashing_request g env r st m"
proof -
  obtain t where t: "served_tenant g r st = Some t"
    using assms(1) by (cases "api_key r = []"; cases "lookup_tenant g (key_hash (api_key r)) st")
      (auto simp: ServeHTTP_def served_tenant_def split: sum.splits option.splits)
  then obtain st1 where s: "ServeHTTP g env r st = serve_tenant g env r t st1" "limiter_st st1 = limiter_st st"
    by (rule ServeHTTP_served)
  obtain rl tb where a: "Allow (limiter_st st1) (ID t) (RateLimitRPM t) (at_bucket env) (at_refill env) = (rl, tb)" by fastforce
  obtain req err where d: "decode_request (body r) = (req, err)" by fastforce
  have "\<not> budget_exhausted t" "admits rl" "err = None"
    and c: "fst (serve_request g env (can_flush r) req t (st1\<lparr>limiter_st := tb\<rparr>)) = Crash m"
    using assms(1) s(1) by (auto simp: serve_tenant_stages [OF a d] split: if_splits)
  then show ?thesis
    using serve_request_crash [OF c assms(2,3)] t a d s(2) by (auto simp: crashing_request_def)
qed

lemma admin_never_crashes: "fst (serve_admin h stamp r a) \<noteq> Crash m"
proof -
  have m: "stream_messages ms w \<noteq> Crash m" for ms w
    by (induction ms w rule: stream_messages.induct) auto
  have "fst (admin_handler h stamp call a) \<noteq> Crash m" for call
    by (auto simp: admin_handler_def ask_def getStats_def getCharts_def getTenantStats_def failProvider_def listTenants_def
        createTenant_def streamLogs_def Let_def m split: admin_call.split prod.split sum.split option.split)
  then show ?thesis by (simp add: serve_admin_def AuthMiddleware_def Let_def)
qed

section \<open>The program\<close>

text \<open>
  C9: a request cannot stop the gateway unless it is a stream: whatever arrives, at
  whatever path and in whatever state, is answered, panics in a handler included, with one
  exception. The process goes down only for a streaming request of a tenant that was
  authenticated, is within its budget and was admitted by the limiter, and only when the
  conversation is empty, when the tenant may use Gemini, or when the host of Ollama makes no
  URL.
\<close>
theorem only_streams_crash:
  fixes u :: "'w upstreams"
  assumes "middleware_laws wrap"
    and "srv = program_server u e cfg cache b pdq canon chClient explain f uuid created broken"
  shows "(\<exists>w. fst (program_serve wrap nf srv inc s) = Return w)
    \<or> (\<exists>m env r t req p. fst (program_serve wrap nf srv inc s) = Crash m \<and> inc = Matched (Completion env r)
         \<and> served_tenant (chat_api srv) r (chat_st s) = Some t \<and> \<not> budget_exhausted t
         \<and> admits (fst (Allow (limiter_st (chat_st s)) (ID t) (RateLimitRPM t) (at_bucket env) (at_refill env)))
         \<and> decode_request (body r) = (req, None) \<and> Stream req
         \<and> p \<in> set (gateway_providers u e cfg) \<and> allowed (value_or [] (ProviderAllowlist t)) (Name p)
         \<and> crash_cause u cfg req (Name p))"
proof (cases "\<exists>w. fst (program_serve wrap nf srv inc s) = Return w")
  case False
  then obtain m where m: "fst (program_serve wrap nf srv inc s) = Crash m" "fst (route srv nf inc s) = Crash m"
    using program_serve_outcome [OF assms(1), of srv nf inc s] by (auto simp: answers_or_def)
  let ?g = "chat_api srv"
  have ps: "gw_providers ?g = gateway_providers u e cfg" "length (gw_providers ?g) \<le> 12"
    by (simp_all add: assms(2) program_server_def server_over_def gateway_over_def gateway_providers_def)
  obtain env r where r: "inc = Matched (Completion env r)" "fst (ServeHTTP ?g env r (chat_st s)) = Crash m"
    using m(2)
    by (auto simp: route_def serve_call_def split_beta admin_never_crashes split: incoming.splits server_call.splits)
  have "crashing_request ?g env r (chat_st s) m"
    using r(2) ps(2) gateway_providers_safe [of _ u e cfg] by (intro ServeHTTP_crash) (auto simp: ps(1))
  then show ?thesis
    using m(1) r(1) stream_panics_cause [of _ u e cfg _ m] unfolding crashing_request_def ps(1) by blast
qed blast

text \<open>Middleware that does nothing but recover.\<close>

definition bare :: "middleware \<Rightarrow> 's handler \<Rightarrow> 's handler" where
  "bare m h inc s =
     (case (m, h inc s) of
        (Recoverer, (Panic e, s')) \<Rightarrow> (Return (http_Error ''Internal Server Error'' 500 no_response), s')
      | (_, x) \<Rightarrow> x)"

lemma bare_laws: "middleware_laws bare"
  by (auto simp: middleware_laws_def recovers_def lets_through_def bare_def split: middleware.split outcome.split prod.split)

definition offline_server :: "(MemoryCache, tenants_table, (bytes \<times> bytes) list, nat, unit) server" where
  "offline_server = program_server offline Map.empty (Load (\<lambda>e. e) Map.empty) memory_cache topic_backend (\<lambda>_ ps. ps) Some
     (Inl (GoError ''no clickhouse'') :: (unit ch_conn, unit) ClickHouseClient go_result) (\<lambda>e b. ''bad json'')
     Delivered (replicate 16 (CHR 0x2A)) 5 None"

theorem only_streams_crash_witness:
  "\<exists>w. fst (program_serve bare no_response offline_server (Matched (Completion hello_env hello_request))
     (program_start (Load (\<lambda>e. e) Map.empty) NewMemoryCache [] [] 0 ())) = Return w"
  using only_streams_crash [OF bare_laws offline_server_def, of no_response "Matched (Completion hello_env hello_request)"
      "program_start (Load (\<lambda>e. e) Map.empty) NewMemoryCache [] [] 0 ()"] hello_decodes
  by (auto simp: hello_chat_def)

section \<open>The assembled server\<close>

interpretation assembled:
  server_env "program_server u e cfg memory_cache b pdq canon chClient explain f uuid created broken"
    "\<lambda>m k v. data m k = Some v" table_valid
  for u e cfg b pdq canon chClient explain f uuid created broken
  unfolding program_server_def by (rule memory_server.server_env_axioms)

text \<open>
  Without \<open>ADMIN_SECRET\<close> in the environment the admin interface is not closed: the secret
  is then the default of the code, and a request with it is authorised.
\<close>
lemma default_secret_admits:
  assumes "ld e ''ADMIN_SECRET'' = None"
  shows "authorised (admin_api (program_server u e (Load ld e) cache b pdq canon chClient explain f uuid created broken)) r
    \<longleftrightarrow> (if admin_token r = [] then token_param r else admin_token r) = ''kb-master-key''"
  using assms
  by (simp add: authorised_def program_server_def server_over_def Load_def getEnv_def Let_def)

text \<open>
  A start without a database ends the program with status 1 and closes nothing; a server that
  stops closes the logger, Redis and the database, in this order.
\<close>
lemma endings:
  "gateway_main (Inl err) cfg listen = Exited 1 []"
  "0 < RateLimitSyncFreq cfg \<Longrightarrow> gateway_main (Inr pool) cfg listen
     = Ended (listen (gateway_http cfg)) [CloseLogger, CloseRedis, CloseDatabase]"
  by (simp_all add: gateway_main_def start_gateway_def)

text \<open>
  The server gives up on writing an answer after a minute, the retries of one request do not:
  two attempts that time out and the wait between them take longer already, and a stream has
  no more time than that in all.
\<close>
lemma retries_outlast_the_server:
  "WriteTimeout (gateway_http cfg)
     < 2 * provider_timeout + backoff (NewResilientProvider p max_retries provider_timeout) 0"
  "2 \<le> max_retries"
  unfolding gateway_http_def by (simp, code_simp) (simp add: max_retries_def)

end
