(* ===== verification/Deployment.thy ===== *)
theory Deployment
  imports Program Budget_Correct Gateway_Traffic
begin

text \<open>
  The whole system: the server of \<open>main.go\<close>, the topic its logger writes to and the budget
  processor that reads it, over one database. A step is a request the server serves or a
  turn of the processor's loop; a run records what the system was before every step.
\<close>

section \<open>The system and its steps\<close>

text \<open>The parts that stay the same while the program runs.\<close>

record ('c, 'k, 'w, 'a) deployment =
  dep_cache :: "'c cache_ops"
  dep_backend :: "'k log_backend"
  dep_providers :: "'w provider list"
  dep_pdq :: "('w provider \<Rightarrow> 'w provider \<Rightarrow> bool) \<Rightarrow> 'w provider list \<Rightarrow> 'w provider list"
  dep_canon :: "string \<Rightarrow> string option"
  dep_secret :: string
  dep_analytics :: "'a ch_conn option"
  dep_explain :: "json_error \<Rightarrow> bytes \<Rightarrow> string"

text \<open>What the database does to the statement of a request: its fault, the defaults of a new row.\<close>

record moment =
  fault :: pg_fault
  new_uuid :: bytes
  creation :: instant
  broken_after :: "nat option"

definition server_at :: "('c, 'k, 'w, 'a) deployment \<Rightarrow> moment \<Rightarrow> ('c, tenants_table, 'k, 'w, 'a) server" where
  "server_at D mo =
     server_over (dep_cache D) (fault mo) (new_uuid mo) (creation mo) (broken_after mo) (dep_canon D)
       (multi_Log (dep_backend D)) (multi_Broadcast (dep_backend D)) (dep_providers D) (dep_pdq D)
       (dep_secret D) (dep_analytics D) (dep_explain D)"

text \<open>The assembled program of \<open>main.go\<close> is such a deployment.\<close>

definition program_deployment ::
  "'w upstreams \<Rightarrow> env \<Rightarrow> Config \<Rightarrow> 'c cache_ops \<Rightarrow> 'k log_backend
    \<Rightarrow> (('w provider \<Rightarrow> 'w provider \<Rightarrow> bool) \<Rightarrow> 'w provider list \<Rightarrow> 'w provider list)
    \<Rightarrow> (string \<Rightarrow> string option) \<Rightarrow> ('a ch_conn, 'r) ClickHouseClient go_result \<Rightarrow> (json_error \<Rightarrow> bytes \<Rightarrow> string)
    \<Rightarrow> ('c, 'k, 'w, 'a) deployment" where
  "program_deployment u e cfg cache b pdq canon chClient explain =
     \<lparr>dep_cache = cache, dep_backend = b, dep_providers = gateway_providers u e cfg, dep_pdq = pdq, dep_canon = canon,
      dep_secret = AdminSecret cfg, dep_analytics = opened_analytics chClient, dep_explain = explain\<rparr>"

lemma server_at_program:
  "server_at (program_deployment u e cfg cache b pdq canon chClient explain) mo
     = program_server u e cfg cache b pdq canon chClient explain (fault mo) (new_uuid mo) (creation mo) (broken_after mo)"
  by (simp add: server_at_def program_deployment_def program_server_def)

text \<open>\<open>reads\<close> are the positions of the messages the processor was given, in order.\<close>

record ('c, 'k, 'w, 'a) system =
  web :: "('c, tenants_table, 'k, 'w, 'a) server_state"
  worker :: BudgetProcessor
  reads :: "nat list"

abbreviation database :: "('c, 'k, 'w, 'a) system \<Rightarrow> tenants_table" where
  "database s \<equiv> db_st (chat_st (web s))"

abbreviation log_of :: "('c, 'k, 'w, 'a) system \<Rightarrow> 'k" where
  "log_of s \<equiv> log_st (chat_st (web s))"

definition with_database :: "tenants_table \<Rightarrow> ('c, 'k, 'w, 'a) system \<Rightarrow> ('c, 'k, 'w, 'a) system" where
  "with_database tbl s = s\<lparr>web := (web s)\<lparr>chat_st := (chat_st (web s))\<lparr>db_st := tbl\<rparr>\<rparr>\<rparr>"

datatype system_event = Served moment server_call | Worked loop_event

text \<open>\<open>gen_random_uuid\<close> gives a new id in the form the database prints.\<close>

definition fresh_uuid :: "(string \<Rightarrow> string option) \<Rightarrow> bytes \<Rightarrow> tenants_table \<Rightarrow> bool" where
  "fresh_uuid canon bs tbl \<longleftrightarrow>
     canon (uuid_text bs) = Some (uuid_text bs) \<and> uuid_text bs \<notin> (ID \<circ> row_tenant) ` set tbl"

text \<open>
  \<open>topic\<close> are the messages readers of the topic can get. The consumer group is given every
  message at most once, in any order, since the topic may have several partitions.
\<close>

inductive system_step ::
  "('c, 'k, 'w, 'a) deployment \<Rightarrow> ('k \<Rightarrow> bytes list) \<Rightarrow> pg_fault set \<Rightarrow> system_event
    \<Rightarrow> ('c, 'k, 'w, 'a) system \<Rightarrow> ('c, 'k, 'w, 'a) system \<Rightarrow> bool"
  for D topic F where
  served: "fresh_uuid (dep_canon D) (new_uuid mo) (database s) \<Longrightarrow>
     system_step D topic F (Served mo call) s (s\<lparr>web := snd (serve_call (server_at D mo) call (web s))\<rparr>)"
| received: "i < length (topic (log_of s)) \<Longrightarrow> i \<notin> set (reads s) \<Longrightarrow>
     processor_step (UpdateTenantSpend (dep_canon D)) F (Received (topic (log_of s) ! i)) (worker s, database s) (p, tbl) \<Longrightarrow>
     system_step D topic F (Worked (Received (topic (log_of s) ! i))) s
       ((with_database tbl s)\<lparr>worker := p, reads := reads s @ [i]\<rparr>)"
| worked: "e \<in> {Cancelled, Ticked, ReadFailed} \<Longrightarrow>
     processor_step (UpdateTenantSpend (dep_canon D)) F e (worker s, database s) (p, tbl) \<Longrightarrow>
     system_step D topic F (Worked e) s ((with_database tbl s)\<lparr>worker := p\<rparr>)"

type_synonym ('c, 'k, 'w, 'a) history = "(('c, 'k, 'w, 'a) system \<times> system_event) list"

inductive system_run ::
  "('c, 'k, 'w, 'a) deployment \<Rightarrow> ('k \<Rightarrow> bytes list) \<Rightarrow> pg_fault set \<Rightarrow> ('c, 'k, 'w, 'a) system
    \<Rightarrow> ('c, 'k, 'w, 'a) history \<Rightarrow> ('c, 'k, 'w, 'a) system \<Rightarrow> bool"
  for D topic F s0 where
  start: "system_run D topic F s0 [] s0"
| step: "system_run D topic F s0 tr s \<Longrightarrow> system_step D topic F e s s' \<Longrightarrow> system_run D topic F s0 (tr @ [(s, e)]) s'"

inductive_simps system_run_Nil [simp]: "system_run D topic F s0 [] s"

lemma system_run_snoc:
  "system_run D topic F s0 (tr @ [(s, e)]) s' \<longleftrightarrow> system_run D topic F s0 tr s \<and> system_step D topic F e s s'"
  by (subst system_run.simps) auto

text \<open>The turns of the processor in a run.\<close>

definition turns :: "('c, 'k, 'w, 'a) history \<Rightarrow> loop_event list" where
  "turns tr = List.map_filter (\<lambda>(s, e). case e of Worked t \<Rightarrow> Some t | Served mo call \<Rightarrow> None) tr"

lemma turns_simps [simp]:
  "turns [] = []" "turns (tr @ [(s, Worked t)]) = turns tr @ [t]" "turns (tr @ [(s, Served mo call)]) = turns tr"
  by (simp_all add: turns_def map_filter_def)

lemma with_database_simps [simp]:
  "database (with_database tbl s) = tbl" "log_of (with_database tbl s) = log_of s"
  "worker (with_database tbl s) = worker s" "reads (with_database tbl s) = reads s"
  "cache_st (chat_st (web (with_database tbl s))) = cache_st (chat_st (web s))"
  "monitor_st (chat_st (web (with_database tbl s))) = monitor_st (chat_st (web s))"
  by (simp_all add: with_database_def)

section \<open>The table over a run\<close>

text \<open>Rows stay what they are but for their spending; new rows may come.\<close>

definition same_but_spent :: "Tenant \<Rightarrow> Tenant \<Rightarrow> bool" where
  "same_but_spent t t' \<longleftrightarrow> t'\<lparr>SpentCents := 0\<rparr> = t\<lparr>SpentCents := 0\<rparr>"

definition grows :: "tenants_table \<Rightarrow> tenants_table \<Rightarrow> bool" where
  "grows tbl tbl' \<longleftrightarrow> (\<forall>r \<in> set tbl. \<exists>r' \<in> set tbl'. same_but_spent (row_tenant r) (row_tenant r'))"

lemma same_but_spent_refl [simp]: "same_but_spent t t"
  by (simp add: same_but_spent_def)

lemma same_but_spent_trans: "same_but_spent t t' \<Longrightarrow> same_but_spent t' t'' \<Longrightarrow> same_but_spent t t''"
  by (simp add: same_but_spent_def)

lemma same_but_spentD:
  assumes "same_but_spent t t'"
  shows "ID t' = ID t" "APIKeyHash t' = APIKeyHash t" "t'\<lparr>SpentCents := c\<rparr> = t\<lparr>SpentCents := c\<rparr>"
proof -
  have e: "t'\<lparr>SpentCents := 0\<rparr> = t\<lparr>SpentCents := 0\<rparr>" using assms by (simp add: same_but_spent_def)
  from arg_cong [OF e, of ID] arg_cong [OF e, of APIKeyHash] arg_cong [OF e, of "\<lambda>t. t\<lparr>SpentCents := c\<rparr>"]
  show "ID t' = ID t" "APIKeyHash t' = APIKeyHash t" "t'\<lparr>SpentCents := c\<rparr> = t\<lparr>SpentCents := c\<rparr>" by simp_all
qed

lemma grows_refl: "grows tbl tbl"
  unfolding grows_def using same_but_spent_refl by blast

lemma grows_trans: "grows a b \<Longrightarrow> grows b c \<Longrightarrow> grows a c"
  unfolding grows_def using same_but_spent_trans by blast

lemma grows_append: "grows tbl (tbl @ rs)"
  unfolding grows_def using same_but_spent_refl by fastforce

lemma grows_spend: "grows tbl (spend_rows u c tbl)"
  unfolding grows_def
proof
  fix r assume r: "r \<in> set tbl"
  let ?r = "if ID (row_tenant r) = u then spend_row c r else r"
  have "?r \<in> set (spend_rows u c tbl)" using r by (auto simp: spend_rows_def)
  moreover have "same_but_spent (row_tenant r) (row_tenant ?r)" by (simp add: same_but_spent_def spend_row_def)
  ultimately show "\<exists>r' \<in> set (spend_rows u c tbl). same_but_spent (row_tenant r) (row_tenant r')" by blast
qed

lemma UpdateTenantSpend_grows: "grows tbl (snd (UpdateTenantSpend canon f t c tbl))"
  using UpdateTenantSpend_cases [of canon f t c tbl] grows_refl grows_spend by auto

lemma apply_updates_grows: "grows tbl (apply_updates (UpdateTenantSpend canon) order m tbl)"
proof (induction order arbitrary: tbl)
  case (Cons x xs)
  obtain t f where x: "x = (t, f)" by fastforce
  show ?case unfolding x apply_updates.simps by (rule grows_trans [OF UpdateTenantSpend_grows Cons.IH])
qed (simp add: grows_refl)

text \<open>A turn of the processor changes the table by updates only.\<close>

lemma flush_table:
  "\<exists>order' m. snd (flush (UpdateTenantSpend canon) order (p, tbl)) = apply_updates (UpdateTenantSpend canon) order' m tbl"
proof (cases "card (dom (pending p)) = 0")
  case True
  then show ?thesis by (intro exI [of _ "[]"]) (simp add: flush_def)
next
  case False
  then show ?thesis by (intro exI [of _ order] exI [of _ "pending p"]) (simp add: flush_def)
qed

lemma processor_step_table:
  assumes "processor_step (UpdateTenantSpend canon) F e (p, tbl) (p', tbl')"
  shows "\<exists>order m. tbl' = apply_updates (UpdateTenantSpend canon) order m tbl"
proof -
  have n: "\<exists>order m. tbl = apply_updates (UpdateTenantSpend canon) order m tbl" by (intro exI [of _ "[]"]) simp
  note f = flush_table [of canon _ _ tbl]
  from assms show ?thesis
  proof cases
    case (cancelled order p1)
    then show ?thesis using f [of order p] by simp
  next
    case (ticked order)
    then show ?thesis using f [of order p] by (metis snd_conv)
  next
    case (added_and_flushed m x order)
    then show ?thesis using f [of order "add_event x p"] by (metis snd_conv)
  qed (use n in simp_all)
qed

lemma CreateTenant_table:
  obtains (same) "snd (CreateTenant f new c name hash rpm budget al tbl) = tbl"
  | (added) r where "snd (CreateTenant f new c name hash rpm budget al tbl) = tbl @ [r]"
      "ID (row_tenant r) = new" "APIKeyHash (row_tenant r) = hash" "hash \<notin> (APIKeyHash \<circ> row_tenant) ` set tbl"
      "SpentCents (row_tenant r) = 0" "int4 (RateLimitRPM (row_tenant r))" "int4 (BudgetCents (row_tenant r))"
proof (cases "snd (CreateTenant f new c name hash rpm budget al tbl) = tbl")
  case False
  let ?t = "\<lparr>ID = new, TenantName = name, APIKeyHash = hash, RateLimitRPM = rpm, BudgetCents = budget,
             SpentCents = 0, ProviderAllowlist = al, IsActive = True\<rparr>"
  have "snd (CreateTenant f new c name hash rpm budget al tbl) = tbl @ [\<lparr>row_tenant = ?t, row_created_at = c\<rparr>]
      \<and> int4 rpm \<and> int4 budget \<and> (\<forall>r \<in> set tbl. APIKeyHash (row_tenant r) \<noteq> hash)"
    using False by (simp add: CreateTenant_def deliver_def Let_def split: pg_fault.splits if_splits)
  then show thesis by (intro added [of "\<lparr>row_tenant = ?t, row_created_at = c\<rparr>"]) auto
qed (rule same)

lemma table_wf_added:
  assumes "table_wf canon tbl" "canon (ID (row_tenant r)) = Some (ID (row_tenant r))" "ID (row_tenant r) \<notin> (ID \<circ> row_tenant) ` set tbl"
    and "APIKeyHash (row_tenant r) \<notin> (APIKeyHash \<circ> row_tenant) ` set tbl"
    and "SpentCents (row_tenant r) = 0" "int4 (RateLimitRPM (row_tenant r))" "int4 (BudgetCents (row_tenant r))"
  shows "table_wf canon (tbl @ [r])"
  using assms by (auto simp: table_wf_def int4_def)

lemma spent_append: "spent tbl u = Some c \<Longrightarrow> spent (tbl @ rs) u = Some c"
  by (induction tbl) (auto simp: spent_def)

text \<open>What a call of the admin interface may do to the table.\<close>

lemma serve_admin_table:
  assumes "h = postgres_admin secret f broken new c ch explain"
  obtains (same) "admin_db (snd (serve_admin h stamp r a)) = admin_db a"
  | (created) name hash rpm budget al where
      "admin_db (snd (serve_admin h stamp r a)) = snd (CreateTenant f new c name hash rpm budget al (admin_db a))"
proof -
  have l: "admin_db (snd (listTenants h a)) = admin_db a"
    using assms by (simp add: listTenants_def GetAllTenants_def deliver_def Let_def split: prod.split sum.split pg_fault.split)
  have s: "admin_db (snd (streamLogs h fl ms a)) = admin_db a" for fl ms
    by (simp add: streamLogs_def Let_def split: option.split)
  have c: "admin_db (snd (createTenant h b a)) = admin_db a
      \<or> (\<exists>name hash rpm budget al. admin_db (snd (createTenant h b a)) = snd (CreateTenant f new c name hash rpm budget al (admin_db a)))"
    for b
    using assms by (auto simp: createTenant_def split: option.split prod.split sum.split) (metis snd_conv)+
  have "admin_db (snd (admin_handler h stamp call a)) = admin_db a
      \<or> (\<exists>name hash rpm budget al. admin_db (snd (admin_handler h stamp call a)) = snd (CreateTenant f new c name hash rpm budget al (admin_db a)))"
    for call
    using c by (simp add: admin_handler_def getStats_def getCharts_def getTenantStats_def failProvider_def ask_keeps l s
        split: admin_call.split)
  moreover have "snd (serve_admin h stamp r a) \<in> {a, snd (admin_handler h stamp (admin_call r) a)}"
    by (simp add: serve_admin_def AuthMiddleware_def Let_def)
  ultimately show thesis using same created by (metis empty_iff insert_iff)
qed

end
