(* ===== verification/Deployment_Correct.thy ===== *)
theory Deployment_Correct
  imports Deployment Server_Properties Multi_Logger_Properties Budget_Properties
begin

text \<open>
  What the whole system keeps: the database, the cached tenants and the monitor stay
  consistent, every message of the topic is a record that can be read, and the books of the
  budget processor agree with what the answers cost.
\<close>

section \<open>Consistency\<close>

text \<open>A cached tenant is a row of the table, but that its spending may be older.\<close>

definition cached_row :: "tenants_table \<Rightarrow> string \<Rightarrow> bytes \<Rightarrow> bool" where
  "cached_row tbl k v \<longleftrightarrow>
     (\<forall>h. k = tenant_key h \<longrightarrow>
        (\<exists>r \<in> set tbl. \<exists>c. int4 c \<and> APIKeyHash (row_tenant r) = h \<and> v = marshal_tenant ((row_tenant r)\<lparr>SpentCents := c\<rparr>)))"

definition consistent ::
  "('c, 'k, 'w, 'a) deployment \<Rightarrow> ('c \<Rightarrow> string \<Rightarrow> bytes \<Rightarrow> bool) \<Rightarrow> ('c, 'k, 'w, 'a) system \<Rightarrow> bool" where
  "consistent D holds s \<longleftrightarrow>
     table_wf (dep_canon D) (database s) \<and> table_valid (database s)
     \<and> (\<forall>k v. holds (cache_st (chat_st (web s))) k v \<longrightarrow> cached_row (database s) k v)
     \<and> monitor_wf (monitor_st (chat_st (web s)))"

lemma any_response_cached_row: "any_response (cached_row tbl)"
  unfolding any_response_def cached_row_def using tenant_key_not_cache_key by metis

lemma cached_row_own:
  assumes "r \<in> set tbl" "int4 (SpentCents (row_tenant r))"
  shows "cached_row tbl (tenant_key (APIKeyHash (row_tenant r))) (marshal_tenant (row_tenant r))"
proof -
  have "row_tenant r = (row_tenant r)\<lparr>SpentCents := SpentCents (row_tenant r)\<rparr>" by simp
  then show ?thesis using assms unfolding cached_row_def tenant_key_inject by metis
qed

lemma cached_row_grows:
  assumes "grows tbl tbl'" "cached_row tbl k v"
  shows "cached_row tbl' k v"
  unfolding cached_row_def
proof (intro allI impI)
  fix h assume "k = tenant_key h"
  then obtain r c where r: "r \<in> set tbl" "int4 c" "APIKeyHash (row_tenant r) = h"
    "v = marshal_tenant ((row_tenant r)\<lparr>SpentCents := c\<rparr>)"
    using assms(2) unfolding cached_row_def by blast
  obtain r' where r': "r' \<in> set tbl'" "same_but_spent (row_tenant r) (row_tenant r')"
    using assms(1) r(1) unfolding grows_def by blast
  then show "\<exists>r \<in> set tbl'. \<exists>c. int4 c \<and> APIKeyHash (row_tenant r) = h \<and> v = marshal_tenant ((row_tenant r)\<lparr>SpentCents := c\<rparr>)"
    using r same_but_spentD [OF r'(2)] by metis
qed

text \<open>The server of a deployment.\<close>

lemma server_at_simps [simp]:
  "gw_providers (chat_api (server_at D mo)) = dep_providers D"
  "gw_cache (chat_api (server_at D mo)) = dep_cache D"
  "gw_Log (chat_api (server_at D mo)) = multi_Log (dep_backend D)"
  "gw_Broadcast (chat_api (server_at D mo)) = multi_Broadcast (dep_backend D)"
  "gw_tenant (chat_api (server_at D mo)) = GetTenantByAPIKeyHash (fault mo)"
  "admin_api (server_at D mo) = postgres_admin (dep_secret D) (fault mo) (broken_after mo) (uuid_text (new_uuid mo))
     (creation mo) (dep_analytics D) (dep_explain D)"
  by (simp_all add: server_at_def server_over_def gateway_over_def)

lemma GetTenant_table [simp]: "snd (GetTenantByAPIKeyHash f h tbl) = tbl"
  by (simp add: GetTenantByAPIKeyHash_def deliver_def split: pg_fault.split option.split)

lemma GetTenant_row:
  assumes "GetTenantByAPIKeyHash f h tbl = (Inr t, d)"
  shows "d = tbl \<and> (\<exists>r \<in> set tbl. t = row_tenant r \<and> APIKeyHash t = h)"
  using assms
  by (auto simp: GetTenantByAPIKeyHash_def deliver_def find_Some_iff split: pg_fault.splits option.splits)

lemma lookup_table:
  assumes "lookup_tenant (chat_api (server_at D mo)) h st = (res, st1)"
  shows "db_st st1 = db_st st"
proof -
  obtain x d where x: "GetTenantByAPIKeyHash (fault mo) h (db_st st) = (x, d)" by fastforce
  moreover have "d = db_st st" using GetTenant_table [of "fault mo" h "db_st st"] x by simp
  ultimately show ?thesis using assms by (auto simp: lookup_tenant_def split: prod.splits sum.splits option.splits)
qed

lemma ServeHTTP_table: "db_st (snd (ServeHTTP (chat_api (server_at D mo)) env r st)) = db_st st"
proof (cases "lookup_tenant (chat_api (server_at D mo)) (key_hash (api_key r)) st")
  case (Pair res st1)
  with lookup_table [OF Pair] show ?thesis
    by (simp add: ServeHTTP_def serve_tenant_frame split: sum.split option.split)
qed

text \<open>Clock readings of a request in order.\<close>

fun event_timed :: "system_event \<Rightarrow> bool" where
  "event_timed (Served mo call) = well_timed (Call call)"
| "event_timed (Worked e) = True"

locale deployed_cache = byte_cache "dep_cache D" holds
  for D :: "('c, 'k, 'w, 'a) deployment" and holds :: "'c \<Rightarrow> string \<Rightarrow> bytes \<Rightarrow> bool"
begin

lemma gateway: "gateway_env (chat_api (server_at D mo)) holds table_valid"
  using byte_cache_axioms postgres_lookup.tenant_lookup_axioms by (simp add: gateway_env_def)

text \<open>The tenant a lookup finds is a row of the table.\<close>

lemma lookup_row:
  assumes "consistent D holds s" "lookup_tenant (chat_api (server_at D mo)) h (chat_st (web s)) = (res, st1)"
  shows "guarded (cached_row (database s)) (cache_st st1)"
    and "res = Inr (Some t) \<Longrightarrow> \<exists>r \<in> set (database s). same_but_spent (row_tenant r) t \<and> tenant_valid t"
proof -
  let ?g = "chat_api (server_at D mo)" and ?st = "chat_st (web s)"
  note guarded_lookup = gateway_env.lookup_tenant_guarded [OF gateway, where P = "cached_row (database s)"]
  have i: "guarded (cached_row (database s)) (cache_st ?st)" using assms(1) by (simp add: consistent_def guarded_def)
  have four: "int4 (SpentCents (row_tenant r))" if "r \<in> set (database s)" for r
    using assms(1) that by (simp add: consistent_def table_wf_def)
  have tv: "tenant_valid (row_tenant r)" if "r \<in> set (database s)" for r
    using assms(1) that by (simp add: consistent_def table_valid_def)
  show "guarded (cached_row (database s)) (cache_st st1)"
  proof (rule guarded_lookup)
    fix t d assume "gw_tenant ?g h (db_st ?st) = (Inr t, d)"
    from GetTenant_row [OF this [unfolded server_at_simps]] obtain r where
      "r \<in> set (database s)" "t = row_tenant r" "APIKeyHash t = h" by blast
    then show "cached_row (database s) (tenant_key h) (marshal_tenant t)" using cached_row_own four by blast
  qed (use i assms(2) in simp_all)
  assume res: "res = Inr (Some t)"
  obtain x c where c: "cache_Get (dep_cache D) (tenant_key h) (cache_st ?st) = (x, c)" by fastforce
  show "\<exists>r \<in> set (database s). same_but_spent (row_tenant r) t \<and> tenant_valid t"
  proof (cases "\<exists>v. x = Inr (Some v)")
    case True
    then obtain v where v: "x = Inr (Some v)" by blast
    have "cached_row (database s) (tenant_key h) v" using guarded_hit [OF i] c v by simp
    then obtain r k where r: "r \<in> set (database s)" "int4 k" "v = marshal_tenant ((row_tenant r)\<lparr>SpentCents := k\<rparr>)"
      unfolding cached_row_def by blast
    let ?t = "(row_tenant r)\<lparr>SpentCents := k\<rparr>"
    have "tenant_valid ?t" using tv [OF r(1)] int4_is_int64 [OF r(2)] by (simp add: tenant_valid_def)
    moreover from this have "t = ?t" using assms(2) c v res r(3) by (simp add: lookup_tenant_def unmarshal_marshal_tenant)
    ultimately show ?thesis using r(1) by (auto simp: same_but_spent_def)
  next
    case False
    then obtain d where "GetTenantByAPIKeyHash (fault mo) h (database s) = (Inr t, d)"
      using assms(2) c res by (auto simp: lookup_tenant_def split: sum.splits option.splits prod.splits)
    from GetTenant_row [OF this] tv show ?thesis by (metis same_but_spent_refl)
  qed
qed

lemma server: "server_env (server_at D mo) holds table_valid"
  using gateway [of mo] postgres_repository.tenant_repository_axioms
  by (simp add: server_env_def) (simp add: server_at_def server_over_def)

text \<open>One step.\<close>

lemma ServeHTTP_cached:
  assumes "consistent D holds s"
  shows "guarded (cached_row (database s)) (cache_st (snd (ServeHTTP (chat_api (server_at D mo)) env r (chat_st (web s)))))"
proof (cases "api_key r = []")
  case True
  then show ?thesis using assms by (simp add: ServeHTTP_def consistent_def guarded_def)
next
  case False
  obtain res st1 where l: "lookup_tenant (chat_api (server_at D mo)) (key_hash (api_key r)) (chat_st (web s)) = (res, st1)"
    by fastforce
  note g = lookup_row(1) [OF assms l]
  then show ?thesis
    using False l gateway_env.serve_tenant_guarded [OF gateway [of mo] any_response_cached_row g]
    by (simp add: ServeHTTP_def split: sum.split option.split)
qed

lemma served_consistent:
  assumes "consistent D holds s" "fresh_uuid (dep_canon D) (new_uuid mo) (database s)" "well_timed (Call call)"
    and "length (dep_providers D) \<le> 12"
  defines "s' \<equiv> s\<lparr>web := snd (serve_call (server_at D mo) call (web s))\<rparr>"
  shows "consistent D holds s'" and "spent (database s) u = Some c \<Longrightarrow> spent (database s') u = Some c"
    and "grows (database s) (database s')"
proof -
  let ?srv = "server_at D mo" and ?a = "admin_view (web s)"
  have m: "monitor_wf (monitor_st (chat_st (web s')))"
    using assms(1,3,4) well_formed.call [of "web s" ?srv call] by (simp add: s'_def consistent_def)
  have c: "table_wf (dep_canon D) (database s)" "table_valid (database s)"
    "guarded (cached_row (database s)) (cache_st (chat_st (web s)))"
    using assms(1) by (simp_all add: consistent_def guarded_def)
  have "consistent D holds s' \<and> (spent (database s) u = Some c \<longrightarrow> spent (database s') u = Some c) \<and> grows (database s) (database s')"
  proof (cases call)
    case HealthCheck
    then show ?thesis using assms(1) by (simp add: s'_def serve_call_def grows_refl)
  next
    case (Completion env r)
    let ?st = "snd (ServeHTTP (chat_api ?srv) env r (chat_st (web s)))"
    have st: "chat_st (web s') = ?st" using Completion by (simp add: s'_def serve_call_def split_beta)
    have "database s' = database s" using st ServeHTTP_table [of D mo env r "chat_st (web s)"] by simp
    then show ?thesis
      using m c ServeHTTP_cached [OF assms(1), of mo env r] by (simp add: consistent_def guarded_def grows_refl flip: st)
  next
    case (Administer stamp r)
    have st: "cache_st (chat_st (web s')) = cache_st (chat_st (web s))"
      "database s' = admin_db (snd (serve_admin (admin_api ?srv) stamp r ?a))"
      using Administer by (simp_all add: s'_def serve_call_def split_beta after_admin_def)
    have v: "table_valid (database s')"
      using server_env.serve_admin_keeps [OF server, of ?a mo stamp r] c(2) by (simp add: st(2) admin_view_def)
    have db: "admin_db ?a = database s" by (simp add: admin_view_def)
    consider (same) "database s' = database s"
      | (new) name hash rpm budget al where "database s' =
          snd (CreateTenant (fault mo) (uuid_text (new_uuid mo)) (creation mo) name hash rpm budget al (database s))"
      using serve_admin_table [OF server_at_simps(6), of D mo stamp r ?a] unfolding st(2) db by metis
    then have "table_wf (dep_canon D) (database s') \<and> grows (database s) (database s')
        \<and> (spent (database s) u = Some c \<longrightarrow> spent (database s') u = Some c)"
    proof cases
      case same
      then show ?thesis using c(1) by (simp add: grows_refl)
    next
      case (new name hash rpm budget al)
      show ?thesis
      proof (cases rule: CreateTenant_table [of "fault mo" "uuid_text (new_uuid mo)" "creation mo" name hash rpm budget al "database s"])
        case same
        then show ?thesis using new c(1) by (simp add: grows_refl)
      next
        case (added row)
        have f: "dep_canon D (ID (row_tenant row)) = Some (ID (row_tenant row))"
          "ID (row_tenant row) \<notin> (ID \<circ> row_tenant) ` set (database s)"
          using assms(2) added(2) by (simp_all add: fresh_uuid_def)
        have "table_wf (dep_canon D) (database s @ [row])"
          using c(1) f added(3-7) by (intro table_wf_added) simp_all
        moreover have "spent (database s @ [row]) u = Some c" if "spent (database s) u = Some c"
          using that by (rule spent_append)
        ultimately show ?thesis using new added(1) grows_append by simp
      qed
    qed
    then show ?thesis using m v c(3) cached_row_grows by (simp add: consistent_def guarded_def st(1)) blast
  qed
  then show "consistent D holds s'" "spent (database s) u = Some c \<Longrightarrow> spent (database s') u = Some c"
    "grows (database s) (database s')" by auto
qed

lemma worked_consistent:
  assumes "consistent D holds s" "processor_step (UpdateTenantSpend (dep_canon D)) F e (worker s, database s) (p, tbl)"
  shows "consistent D holds (with_database tbl s)" and "grows (database s) tbl"
proof -
  obtain order m where t: "tbl = apply_updates (UpdateTenantSpend (dep_canon D)) order m (database s)"
    using processor_step_table [OF assms(2)] by blast
  have c: "table_wf (dep_canon D) (database s)" "table_valid (database s)" using assms(1) by (simp_all add: consistent_def)
  show g: "grows (database s) tbl" unfolding t by (rule apply_updates_grows)
  have "table_wf (dep_canon D) tbl" using postgres.inv_apply [OF c(1)] t by simp
  moreover have "table_valid (apply_updates (UpdateTenantSpend (dep_canon D)) order m d)" if "table_valid d" for d
    using that by (induction order arbitrary: d) (auto simp: UpdateTenantSpend_valid)
  ultimately show "consistent D holds (with_database tbl s)"
    using assms(1) cached_row_grows [OF g] c(2) by (simp add: consistent_def t)
qed

lemma step_consistent:
  assumes "system_step D topic F e s s'" "consistent D holds s" "event_timed e" "length (dep_providers D) \<le> 12"
  shows "consistent D holds s'"
  using assms(1)
proof cases
  case (served mo call)
  then show ?thesis using served_consistent(1) [OF assms(2), of mo call] assms(3,4) by simp
next
  case (received i p tbl)
  from worked_consistent(1) [OF assms(2) received(5)] show ?thesis by (simp add: received(2) consistent_def)
next
  case (worked t p tbl)
  from worked_consistent(1) [OF assms(2) worked(4)] show ?thesis by (simp add: worked(2) consistent_def)
qed

lemma run_consistent:
  assumes "system_run D topic F s0 tr s" "consistent D holds s0" "list_all (event_timed \<circ> snd) tr" "length (dep_providers D) \<le> 12"
  shows "consistent D holds s"
  using assms(1,3)
proof (induction tr s rule: system_run.induct)
  case start
  then show ?case using assms(2) by simp
next
  case (step tr s e s')
  then show ?case using step_consistent [OF step(2)] assms(4) by simp
qed

end

text \<open>The contract holds for the assembled program over the in-memory cache.\<close>

interpretation in_memory: deployed_cache "program_deployment u e cfg memory_cache b pdq canon chClient explain" "\<lambda>m k v. data m k = Some v"
  for u e cfg b pdq canon chClient explain
  unfolding deployed_cache_def program_deployment_def deployment.select_convs by (rule memory.byte_cache_axioms)

end
