(* ===== verification/Gateway_Billing.thy ===== *)
theory Gateway_Billing
  imports Gateway_Traffic Multi_Logger_Properties Json_Valid
begin

text \<open>
  What a request costs: the answer the client reads names a model and its tokens, and their
  price is what the record the gateway logs for the request says, at most once.
\<close>

section \<open>Decoded requests are well typed\<close>

lemma keeps_valid_message:
  "keeps_valid (\<lambda>m. valid_utf8 (Role m) \<and> valid_utf8 (Content m)) (decode_struct message_fields)"
  by (rule keeps_valid_struct) (auto simp: message_fields_def intro!: keeps_valid_string)

lemma decode_request_valid: "request_valid (fst (decode_request b))"
proof -
  let ?Q = "\<lambda>m. valid_utf8 (Role m) \<and> valid_utf8 (Content m)"
  have z: "?Q zero_message" "request_valid zero_request"
    by (simp_all add: zero_message_def zero_request_def request_valid_def valid_utf8_def)
  have "keeps_valid request_valid (set_slice (\<lambda>r. Some (Messages r)) (\<lambda>l r. r\<lparr>Messages := value_or [] l\<rparr>)
      (decode_struct message_fields) zero_message)"
    using keeps_valid_message z(1) by (rule keeps_valid_slice) (simp_all add: request_valid_def)
  then have "\<forall>s \<in> snd ` set request_fields. keeps_valid request_valid s"
    by (auto simp: request_fields_def request_valid_def intro!: keeps_valid_string keeps_valid_bool)
  then show ?thesis unfolding decode_request_def using z(2) by (rule Decode_keeps)
qed

section \<open>The answer as the client reads it\<close>

definition zero_response :: ChatResponse where
  "zero_response = \<lparr>RespContent = [], RespModel = [], RespProvider = [], PromptTokens = 0, CompletionTokens = 0\<rparr>"

definition response_fields :: "(bytes \<times> ChatResponse setter) list" where
  "response_fields =
     [(''content'', set_string (\<lambda>s r. r\<lparr>RespContent := s\<rparr>)), (''model'', set_string (\<lambda>s r. r\<lparr>RespModel := s\<rparr>)),
      (''provider'', set_string (\<lambda>s r. r\<lparr>RespProvider := s\<rparr>)), (''prompt_tokens'', set_int (\<lambda>n r. r\<lparr>PromptTokens := n\<rparr>)),
      (''completion_tokens'', set_int (\<lambda>n r. r\<lparr>CompletionTokens := n\<rparr>))]"

definition read_answer :: "bytes \<Rightarrow> ChatResponse" where
  "read_answer b = fst (Decode response_fields b zero_response)"

text \<open>The price of an answer, as a number of cents.\<close>

definition cents :: "float64 \<Rightarrow> rat" where
  "cents x = (case x of Fin q \<Rightarrow> q | _ \<Rightarrow> 0)"

definition price :: "ChatResponse \<Rightarrow> rat" where
  "price r = cents (EstimateCost (RespModel r) (PromptTokens r) (CompletionTokens r))"

lemma decode_response:
  assumes "is_int64 (PromptTokens r)" "is_int64 (CompletionTokens r)"
  shows "decode_struct response_fields
     (JObj [(''content'', JStr c), (''model'', JStr m), (''provider'', JStr p), (''prompt_tokens'', json_int (PromptTokens r)),
            (''completion_tokens'', json_int (CompletionTokens r))]) zero_response
     = (\<lparr>RespContent = c, RespModel = m, RespProvider = p, PromptTokens = PromptTokens r, CompletionTokens = CompletionTokens r\<rparr>, None)"
  using assms by (simp add: decode_struct_def find_field_def response_fields_def zero_response_def)

lemma read_marshal_response:
  assumes "valid_utf8 (RespModel r)" "is_int64 (PromptTokens r)" "is_int64 (CompletionTokens r)"
  shows "price (read_answer (marshal_response r)) = price r"
proof -
  have p: "printable (response_json r)" by (simp add: response_json_def)
  have n: "nesting (response_json r) \<le> max_depth" by (simp add: response_json_def max_depth_def)
  have e: "number_ends []" by (simp add: number_ends_def)
  have names: "sanitize ''provider'' = ''provider''" "sanitize ''prompt_tokens'' = ''prompt_tokens''"
    "sanitize ''completion_tokens'' = ''completion_tokens''"
    by (simp_all add: sanitize_ascii byte_def)
  have c: "cleaned (response_json r) = JObj [(''content'', JStr (sanitize (RespContent r))), (''model'', JStr (RespModel r)),
      (''provider'', JStr (sanitize (RespProvider r))), (''prompt_tokens'', json_int (PromptTokens r)),
      (''completion_tokens'', json_int (CompletionTokens r))]"
    using assms(1) by (simp add: response_json_def valid_utf8_def names)
  have "decode_value (encode (response_json r) @ []) = Some (cleaned (response_json r))"
    by (rule decode_encode [OF p n e])
  moreover have "skip (encode (response_json r)) \<noteq> []" by (simp add: response_json_def)
  ultimately have "read_answer (marshal_response r) = \<lparr>RespContent = sanitize (RespContent r), RespModel = RespModel r,
      RespProvider = sanitize (RespProvider r), PromptTokens = PromptTokens r, CompletionTokens = CompletionTokens r\<rparr>"
    using decode_response [OF assms(2,3)] by (simp add: c marshal_response_def read_answer_def Decode_def)
  then show ?thesis by (simp add: price_def)
qed

section \<open>Fresh answers\<close>

text \<open>
  A response the client can tell is a fresh answer: status 200, a JSON body, and not out of
  the cache.
\<close>

definition fresh_body :: "response outcome \<Rightarrow> bytes option" where
  "fresh_body out =
     (case out of
        Return w \<Rightarrow>
          if status_of w = 200 \<and> headers w ''Content-Type'' = Some ''application/json'' \<and> headers w ''X-Cache'' = None
          then Some (written w) else None
      | _ \<Rightarrow> None)"

lemma fresh_body_error [simp]:
  "code w = None \<Longrightarrow> c \<noteq> 200 \<Longrightarrow> fresh_body (Return (http_Error m c w)) = None"
  "fresh_body (Return (hit_response b)) = None" "fresh_body (Panic m) = None" "fresh_body (Crash m) = None"
  by (simp_all add: fresh_body_def)

text \<open>
  What a request logs: nothing; the record of a fresh answer of a provider; or the record of
  a stream, which costs nothing.
\<close>

definition request_logs ::
  "('c, 'd, 'k, 'w) gateway \<Rightarrow> environment \<Rightarrow> ChatRequest \<Rightarrow> Tenant \<Rightarrow> ('c, 'd, 'k, 'w) gw_state
    \<Rightarrow> response outcome \<times> ('c, 'd, 'k, 'w) gw_state \<Rightarrow> bool" where
  "request_logs g env req t st res \<longleftrightarrow>
     (log_st (snd res) = log_st st \<and> fresh_body (fst res) = None)
     \<or> (\<exists>p resp w. p \<in> set (gw_providers g) \<and> fst (Chat p None req w) = Return (Inr resp)
          \<and> fresh_body (fst res) = Some (marshal_response resp)
          \<and> log_st (snd res) = billed g (sync_event t (Name p) resp (time_Sub (at_reply env) (at_start env)) (at_log env)) (log_st st))
     \<or> (\<exists>p pt ct. p \<in> set (gw_providers g) \<and> fresh_body (fst res) = None \<and> is_int64 pt \<and> is_int64 ct
          \<and> log_st (snd res) = billed g (stream_log t (Name p) (ReqModel req) pt ct (time_Sub (at_reply env) (at_start env)) (at_log env)) (log_st st))"

lemma request_logs_state:
  "log_st st = log_st st' \<Longrightarrow> request_logs g env req t st res = request_logs g env req t st' res"
  by (simp add: request_logs_def)

lemma stream_events_log:
  assumes "is_int64 a" "is_int64 b"
  shows "log_st (snd (stream_events g env p req t fl e es a b w st)) = log_st st
    \<or> (\<exists>pt ct. is_int64 pt \<and> is_int64 ct \<and> log_st (snd (stream_events g env p req t fl e es a b w st))
         = billed g (stream_log t (Name p) (ReqModel req) pt ct (time_Sub (at_reply env) (at_start env)) (at_log env)) (log_st st))"
  using assms
proof (induction g env p req t fl e es a b w st rule: stream_events.induct)
  case (3 g env p req t fl e c es a b w st)
  then show ?case by (cases fl) (simp_all add: Let_def)
qed (auto simp: log_twice_log billed_def)

lemma handleStream_logs_request:
  assumes "p \<in> set (gw_providers g)"
  shows "request_logs g env req t st (handleStream g env p req t fl no_response st)"
proof (cases "ChatStream p None None req (world st)")
  case (Pair r wd)
  show ?thesis
  proof (cases r)
    case (Return s)
    let ?w = "set_header ''Connection'' ''keep-alive''
        (set_header ''Cache-Control'' ''no-cache'' (set_header ''Content-Type'' ''text/event-stream'' no_response))"
    let ?res = "stream_events g env p req t fl (ended s) (schedule env s) 0 0 ?w (st\<lparr>world := wd\<rparr>)"
    have h: "handleStream g env p req t fl no_response st = ?res" using Pair Return by (simp add: handleStream_def)
    have "fresh_body (fst ?res) = None"
      using stream_events_headers [of g env p req t fl "ended s" "schedule env s" 0 0 ?w "st\<lparr>world := wd\<rparr>"]
      by (auto simp: fresh_body_def split: outcome.split)
    then show ?thesis
      using stream_events_log [of 0 0 g env p req t fl "ended s" "schedule env s" ?w "st\<lparr>world := wd\<rparr>"] assms
      by (auto simp: h request_logs_def is_int64_def)
  qed (use Pair in \<open>simp_all add: handleStream_def request_logs_def\<close>)
qed

lemma handleSync_logs_request:
  assumes "p \<in> set (gw_providers g)"
  shows "request_logs g env req t st (handleSync g env p req t k no_response st)"
proof (cases "Chat p None req (world st)")
  case (Pair r wd)
  show ?thesis
  proof (cases "\<exists>resp. r = Return (Inr resp)")
    case True
    then obtain resp where r: "r = Return (Inr resp)" by blast
    let ?res = "handleSync g env p req t k no_response st"
    have "fresh_body (fst ?res) = Some (marshal_response resp)"
      "log_st (snd ?res) = billed g (sync_event t (Name p) resp (time_Sub (at_reply env) (at_start env)) (at_log env)) (log_st st)"
      using Pair r by (simp_all add: handleSync_def Let_def log_twice_log billed_def fresh_body_def)
    moreover have "fst (Chat p None req (world st)) = Return (Inr resp)" using Pair r by simp
    ultimately show ?thesis unfolding request_logs_def using assms by blast
  next
    case False
    then show ?thesis using Pair
      by (auto simp: handleSync_def Let_def request_logs_def split: outcome.split sum.split)
  qed
qed

lemma serve_dispatch_logs:
  assumes "length (gw_providers g) \<le> 12"
  shows "request_logs g env req t st (serve_dispatch g env fl req t k st)"
proof -
  obtain sel m where s: "Select (gw_pdq g) (at_select env) (monitor_st st) (gw_providers g)
      (value_or [] (ProviderAllowlist t)) = (sel, m)" by fastforce
  let ?st = "st\<lparr>monitor_st := m\<rparr>"
  show ?thesis
  proof (cases sel)
    case None
    then show ?thesis using s by (simp add: serve_dispatch_def request_logs_def)
  next
    case (Some p)
    then have "p \<in> set (gw_providers g)" using Select_member [OF assms] s by blast
    then have "request_logs g env req t ?st (serve_dispatch g env fl req t k st)"
      using s Some by (simp add: serve_dispatch_def Let_def handleStream_logs_request handleSync_logs_request)
    then show ?thesis by (rule iffD1 [OF request_logs_state, rotated]) simp
  qed
qed

lemma serve_request_logs:
  assumes "length (gw_providers g) \<le> 12"
  shows "request_logs g env req t st (serve_request g env fl req t st)"
proof -
  let ?k = "cache_key (ID t) (ReqModel req) (Messages req)"
  obtain r c where c: "cache_Get (gw_cache g) ?k (cache_st st) = (r, c)" by fastforce
  have d: "request_logs g env req t st (serve_dispatch g env fl req t ?k (st\<lparr>cache_st := c\<rparr>))"
    using serve_dispatch_logs [OF assms, of env req t "st\<lparr>cache_st := c\<rparr>" fl ?k]
    by (rule iffD1 [OF request_logs_state, rotated]) simp
  show ?thesis
  proof (cases "Stream req \<or> (\<nexists>v. r = Inr (Some v))")
    case True
    then show ?thesis using c d serve_dispatch_logs [OF assms]
      by (auto simp: serve_request_def Let_def split: sum.split option.split)
  next
    case False
    then show ?thesis using c by (auto simp: serve_request_def Let_def request_logs_def)
  qed
qed

text \<open>The whole handler.\<close>

lemma ServeHTTP_logs:
  assumes "length (gw_providers g) \<le> 12"
  shows "(log_st (snd (ServeHTTP g env r st)) = log_st st \<and> fresh_body (fst (ServeHTTP g env r st)) = None)
    \<or> (\<exists>t. served_tenant g r st = Some t \<and> request_logs g env (fst (decode_request (body r))) t st (ServeHTTP g env r st))"
proof (cases "served_tenant g r st")
  case None
  then show ?thesis
    by (cases "lookup_tenant g (key_hash (api_key r)) st")
      (auto simp: ServeHTTP_def served_tenant_def lookup_frame split: sum.splits option.splits if_splits)
next
  case (Some t)
  then obtain st1 where l: "lookup_tenant g (key_hash (api_key r)) st = (Inr (Some t), st1)"
    and s: "ServeHTTP g env r st = serve_tenant g env r t st1"
    by (rule ServeHTTP_served [where env = env])
  obtain rl tb where a: "Allow (limiter_st st1) (ID t) (RateLimitRPM t) (at_bucket env) (at_refill env) = (rl, tb)" by fastforce
  obtain req err where d: "decode_request (body r) = (req, err)" by fastforce
  have lg: "log_st st1 = log_st st" using lookup_frame(3) [OF l] .
  have q: "request_logs g env req t st (serve_request g env (can_flush r) req t (st1\<lparr>limiter_st := tb\<rparr>))"
    using serve_request_logs [OF assms, of env req t "st1\<lparr>limiter_st := tb\<rparr>" "can_flush r"]
    by (rule iffD1 [OF request_logs_state, rotated]) (simp add: lg)
  show ?thesis using Some q d lg by (auto simp: s serve_tenant_stages [OF a d])
qed

end
