(* ===== verification/Deployment_Billing.thy ===== *)
theory Deployment_Billing
  imports Deployment_Correct Gateway_Billing
begin

text \<open>
  The way of the money through the whole system: from the answers tenants get, over the
  records in the topic, to the pending sums of the budget processor and the spending column.
\<close>

section \<open>The broker\<close>

text \<open>
  Kafka's asynchronous writer delivers a message once or loses it; Redis' channel is not the
  topic. A reliable broker loses nothing.
\<close>

definition appends :: "'k log_backend \<Rightarrow> ('k \<Rightarrow> bytes list) \<Rightarrow> bool" where
  "appends b topic \<longleftrightarrow>
     (\<forall>key v k. topic (snd (WriteMessages b key v k)) \<in> {topic k, topic k @ [v]})
     \<and> (\<forall>c v k. topic (snd (Publish b c v k)) = topic k)"

definition reliable :: "'k log_backend \<Rightarrow> ('k \<Rightarrow> bytes list) \<Rightarrow> bool" where
  "reliable b topic \<longleftrightarrow> (\<forall>key v k. topic (snd (WriteMessages b key v k)) = topic k @ [v])"

lemma billed_topic:
  assumes "appends b topic" "event_valid ev" "gw_Log g = multi_Log b" "gw_Broadcast g = multi_Broadcast b"
  shows "\<exists>ms. topic (billed g ev k) = topic k @ ms \<and> (\<forall>m \<in> set ms. unmarshal_event m = Some ev)
    \<and> length ms \<le> 1 \<and> (reliable b topic \<longrightarrow> length ms = 1)"
proof -
  obtain payload where p: "marshal_event ev = Inr payload" "unmarshal_event payload = Some ev"
    using unmarshal_marshal_event [OF assms(2)] by blast
  let ?k = "snd (WriteMessages b (TenantID ev) payload k)"
  have "topic (billed g ev k) = topic ?k"
    using assms(1,3,4) p(1) by (simp add: billed_def multi_Log_def multi_Broadcast_def appends_def)
  moreover have "topic ?k \<in> {topic k, topic k @ [payload]}" "reliable b topic \<Longrightarrow> topic ?k = topic k @ [payload]"
    using assms(1) by (auto simp: appends_def reliable_def)
  ultimately show ?thesis using p(2)
    by (cases "topic ?k = topic k @ [payload]") (auto intro: exI [of _ "[payload]"] exI [of _ "[]"])
qed

section \<open>What tenants owe\<close>

text \<open>A provider with a valid name whose answers name a valid model and count tokens.\<close>

definition counts_tokens :: "ChatResponse \<Rightarrow> bool" where
  "counts_tokens r \<longleftrightarrow> valid_utf8 (RespModel r) \<and> 0 \<le> PromptTokens r \<and> is_int64 (PromptTokens r)
     \<and> 0 \<le> CompletionTokens r \<and> is_int64 (CompletionTokens r)"

definition honest_provider :: "'w provider \<Rightarrow> bool" where
  "honest_provider p \<longleftrightarrow> valid_utf8 (Name p)
     \<and> (\<forall>req w resp. request_valid req \<longrightarrow> fst (Chat p None req w) = Return (Inr resp) \<longrightarrow> counts_tokens resp)"

text \<open>A step bills a tenant the price of the fresh answer it got, if it got one.\<close>

definition bill :: "('c, 'k, 'w, 'a) deployment \<Rightarrow> string \<Rightarrow> ('c, 'k, 'w, 'a) system \<times> system_event \<Rightarrow> rat" where
  "bill D u x =
     (case x of
        (s, Served mo (Completion env r)) \<Rightarrow>
          let g = chat_api (server_at D mo)
          in (case (served_tenant g r (chat_st (web s)), fresh_body (fst (ServeHTTP g env r (chat_st (web s))))) of
                (Some t, Some b) \<Rightarrow> if ID t = u then price (read_answer b) else 0
              | _ \<Rightarrow> 0)
      | _ \<Rightarrow> 0)"

definition total_bill :: "('c, 'k, 'w, 'a) deployment \<Rightarrow> string \<Rightarrow> ('c, 'k, 'w, 'a) history \<Rightarrow> rat" where
  "total_bill D u tr = sum_list (map (bill D u) tr)"

lemma total_bill_snoc [simp]: "total_bill D u (tr @ [x]) = total_bill D u tr + bill D u x"
  by (simp add: total_bill_def)

text \<open>What the messages of the topic say a tenant owes.\<close>

definition message_cost :: "string \<Rightarrow> bytes \<Rightarrow> rat" where
  "message_cost u m = (case unmarshal_event m of None \<Rightarrow> 0 | Some e \<Rightarrow> cost_of u e)"

definition topic_cost :: "string \<Rightarrow> bytes list \<Rightarrow> rat" where
  "topic_cost u ms = sum_list (map (message_cost u) ms)"

definition good_message :: "(string \<Rightarrow> string option) \<Rightarrow> bytes \<Rightarrow> bool" where
  "good_message canon m \<longleftrightarrow>
     (\<exists>e. unmarshal_event m = Some e \<and> 0 \<le> cost_rat e \<and> canon (TenantID e) = Some (TenantID e))"

lemma message_cost_nonneg: "good_message canon m \<Longrightarrow> 0 \<le> message_cost u m"
  by (auto simp: good_message_def message_cost_def cost_of_def)

lemma topic_cost_append [simp]: "topic_cost u (ms @ ms') = topic_cost u ms + topic_cost u ms'"
  by (simp add: topic_cost_def)

lemma price_nonneg: "counts_tokens r \<Longrightarrow> 0 \<le> price r"
  using EstimateCost_close [of "PromptTokens r" "CompletionTokens r" "RespModel r"]
  by (auto simp: counts_tokens_def price_def cents_def close_def)

lemma stream_log_valid:
  assumes "valid_utf8 (ID t)" "valid_utf8 name" "valid_utf8 model" "is_int64 pt" "is_int64 ct" "is_int64 d" "is_int64 stamp"
  shows "event_valid (stream_log t name model pt ct d stamp)"
proof -
  have "f64 0 = Fin 0" by code_simp
  then show ?thesis
    using assms quot_int64 [OF assms(6)]
    by (simp add: event_valid_def stream_log_def zero_event_def is_int64_def valid_utf8_def zero_float64_def)
qed

text \<open>The clock gives 64-bit times.\<close>

fun event_stamped :: "system_event \<Rightarrow> bool" where
  "event_stamped (Served mo (Completion env r)) = is_int64 (at_log env)"
| "event_stamped e = True"

context deployed_cache
begin

text \<open>A served request adds messages worth exactly its bill, or none when the writer loses them.\<close>

lemma served_messages:
  fixes u :: string
  assumes "consistent D holds s" "appends (dep_backend D) topic" "\<forall>p \<in> set (dep_providers D). honest_provider p"
    and "length (dep_providers D) \<le> 12" "event_stamped (Served mo call)"
  defines "s' \<equiv> s\<lparr>web := snd (serve_call (server_at D mo) call (web s))\<rparr>" and "b \<equiv> bill D u (s, Served mo call)"
  shows "0 \<le> b \<and> (\<exists>ms. topic (log_of s') = topic (log_of s) @ ms \<and> list_all (good_message (dep_canon D)) ms
    \<and> topic_cost u ms \<le> b \<and> (reliable (dep_backend D) topic \<longrightarrow> topic_cost u ms = b))"
proof (cases call)
  case (Completion env r)
  let ?g = "chat_api (server_at D mo)" and ?st = "chat_st (web s)" and ?req = "fst (decode_request (body r))"
  let ?res = "ServeHTTP ?g env r ?st"
  have log: "log_of s' = log_st (snd ?res)" using Completion by (simp add: s'_def serve_call_def split_beta)
  have ps: "length (gw_providers ?g) \<le> 12" using assms(4) by simp
  have stamp: "is_int64 (at_log env)" using assms(5) Completion by simp
  have idle: ?thesis if "log_st (snd ?res) = log_of s" "fresh_body (fst ?res) = None"
    using that log Completion
    by (auto simp: b_def bill_def Let_def topic_cost_def split: option.split intro!: exI [of _ "[]"])
  note logs = ServeHTTP_logs [OF ps, of env r ?st]
  show ?thesis
  proof (cases "log_st (snd ?res) = log_of s \<and> fresh_body (fst ?res) = None")
    case True
    then show ?thesis using idle by blast
  next
    case False
    then obtain t where t: "served_tenant ?g r ?st = Some t" "request_logs ?g env ?req t ?st ?res" using logs by blast
    obtain st1 where l: "lookup_tenant ?g (key_hash (api_key r)) ?st = (Inr (Some t), st1)"
      using t(1) by (rule ServeHTTP_served [where env = env])
    obtain row where row: "row \<in> set (database s)" "same_but_spent (row_tenant row) t" "tenant_valid t"
      using lookup_row(2) [OF assms(1) l refl] by blast
    have i: "dep_canon D (ID t) = Some (ID t)" "valid_utf8 (ID t)"
      using assms(1) row same_but_spentD(1) [OF row(2)] by (simp_all add: consistent_def table_wf_def tenant_valid_def)
    have lat: "is_int64 (time_Sub (at_reply env) (at_start env))" by (simp add: time_Sub_def)
    have mess: ?thesis if "log_st (snd ?res) = billed ?g ev (log_of s)" "event_valid ev" "TenantID ev = ID t" "0 \<le> cost_rat ev"
      "b = cost_of u ev" for ev
    proof -
      note ev = that
      obtain ms where ms: "topic (log_of s') = topic (log_of s) @ ms" "\<forall>m \<in> set ms. unmarshal_event m = Some ev"
        "length ms \<le> 1" "reliable (dep_backend D) topic \<longrightarrow> length ms = 1"
        using billed_topic [OF assms(2) ev(2), of ?g "log_of s"] ev(1) log by auto
      have "list_all (good_message (dep_canon D)) ms"
        using ms(2) ev(3,4) i(1) by (auto simp: list_all_iff good_message_def)
      moreover have "topic_cost u ms = (if ms = [] then 0 else b)"
        using ms(2,3) ev(5) by (cases ms) (auto simp: topic_cost_def message_cost_def)
      moreover have "0 \<le> b" using ev(4,5) by (simp add: cost_of_def)
      ultimately show ?thesis using ms by auto
    qed
    have rv: "valid_utf8 (ReqModel ?req)" using decode_request_valid [of "body r"] by (simp add: request_valid_def)
    from t(2) False consider
      (sync) p resp w where "p \<in> set (dep_providers D)" "fst (Chat p None ?req w) = Return (Inr resp)"
        "fresh_body (fst ?res) = Some (marshal_response resp)"
        "log_st (snd ?res) = billed ?g (sync_event t (Name p) resp (time_Sub (at_reply env) (at_start env)) (at_log env)) (log_of s)"
    | (stream) p pt ct where "p \<in> set (dep_providers D)" "fresh_body (fst ?res) = None" "is_int64 pt" "is_int64 ct"
        "log_st (snd ?res) = billed ?g (stream_log t (Name p) (ReqModel ?req) pt ct (time_Sub (at_reply env) (at_start env)) (at_log env)) (log_of s)"
      unfolding request_logs_def server_at_simps by blast
    then show ?thesis
    proof cases
      case (sync p resp w)
      have h: "valid_utf8 (Name p)" "counts_tokens resp"
        using assms(3) sync(1,2) decode_request_valid [of "body r"] by (auto simp: honest_provider_def)
      then have v: "answer_valid t (Name p) resp" using i(2) by (simp add: answer_valid_def counts_tokens_def)
      let ?ev = "sync_event t (Name p) resp (time_Sub (at_reply env) (at_start env)) (at_log env)"
      have c: "cost_rat ?ev = price resp" "TenantID ?ev = ID t"
        by (simp_all add: cost_rat_def sync_event_def price_def cents_def)
      have "price (read_answer (marshal_response resp)) = price resp"
        using h(2) by (intro read_marshal_response) (simp_all add: counts_tokens_def)
      then have "b = cost_of u ?ev" using Completion t(1) sync(3) c by (simp add: b_def bill_def cost_of_def)
      with sync(4) sync_event_valid [OF v lat stamp] c price_nonneg [OF h(2)] show ?thesis by (intro mess) simp_all
    next
      case (stream p pt ct)
      let ?ev = "stream_log t (Name p) (ReqModel ?req) pt ct (time_Sub (at_reply env) (at_start env)) (at_log env)"
      have "valid_utf8 (Name p)" using assms(3) stream(1) by (simp add: honest_provider_def)
      then have v: "event_valid ?ev" using i(2) rv stream(3,4) lat stamp by (intro stream_log_valid)
      have c: "cost_rat ?ev = 0" "TenantID ?ev = ID t"
        by (simp_all add: cost_rat_def stream_log_def zero_event_def zero_float64_def)
      have "b = cost_of u ?ev" using Completion t(1) stream(2) c by (simp add: b_def bill_def cost_of_def)
      with stream(5) v c show ?thesis by (intro mess) simp_all
    qed
  qed
next
  case HealthCheck
  then show ?thesis by (simp add: s'_def b_def serve_call_def bill_def topic_cost_def)
next
  case (Administer stamp r)
  then show ?thesis by (simp add: s'_def b_def serve_call_def bill_def topic_cost_def split_beta after_admin_def)
qed

lemma bill_nonneg:
  assumes "consistent D holds s" "appends (dep_backend D) topic" "\<forall>p \<in> set (dep_providers D). honest_provider p"
    and "length (dep_providers D) \<le> 12" "event_stamped e"
  shows "0 \<le> bill D u (s, e)"
  using served_messages [OF assms(1-4)] assms(5) by (cases e) (auto simp: bill_def)

end

section \<open>Reading the topic\<close>

text \<open>A system that starts over an empty topic.\<close>

definition started ::
  "('c, 'k, 'w, 'a) deployment \<Rightarrow> ('c \<Rightarrow> string \<Rightarrow> bytes \<Rightarrow> bool) \<Rightarrow> ('k \<Rightarrow> bytes list) \<Rightarrow> ('c, 'k, 'w, 'a) system \<Rightarrow> bool" where
  "started D holds topic s \<longleftrightarrow>
     consistent D holds s \<and> topic (log_of s) = [] \<and> worker s = NewBudgetProcessor \<and> reads s = []"

lemma read_part:
  fixes f :: "'m \<Rightarrow> rat"
  assumes "distinct is" "\<forall>i \<in> set is. i < length ms" "\<forall>m \<in> set ms. 0 \<le> f m"
  shows "sum_list (map (\<lambda>i. f (ms ! i)) is) \<le> sum_list (map f ms)"
    and "set is = {..<length ms} \<Longrightarrow> sum_list (map (\<lambda>i. f (ms ! i)) is) = sum_list (map f ms)"
proof -
  have l: "sum_list (map (\<lambda>i. f (ms ! i)) is) = (\<Sum>i \<in> set is. f (ms ! i))"
    using assms(1) by (rule sum_list_distinct_conv_sum_set)
  have r: "sum_list (map f ms) = (\<Sum>i<length ms. f (ms ! i))"
    by (simp add: sum_list_sum_nth atLeast0LessThan)
  show "sum_list (map (\<lambda>i. f (ms ! i)) is) \<le> sum_list (map f ms)"
    unfolding l r using assms(2,3) by (intro sum_mono2) auto
  show "set is = {..<length ms} \<Longrightarrow> sum_list (map (\<lambda>i. f (ms ! i)) is) = sum_list (map f ms)"
    unfolding l r by simp
qed

text \<open>What the processor has read are records of the topic, each once.\<close>

definition traced :: "('c, 'k, 'w, 'a) deployment \<Rightarrow> ('k \<Rightarrow> bytes list) \<Rightarrow> string \<Rightarrow> ('c, 'k, 'w, 'a) history \<Rightarrow> ('c, 'k, 'w, 'a) system \<Rightarrow> bool" where
  "traced D topic u tr s \<longleftrightarrow>
     list_all (good_message (dep_canon D)) (topic (log_of s))
     \<and> topic_cost u (topic (log_of s)) \<le> total_bill D u tr
     \<and> (reliable (dep_backend D) topic \<longrightarrow> topic_cost u (topic (log_of s)) = total_bill D u tr)
     \<and> distinct (reads s) \<and> (\<forall>i \<in> set (reads s). i < length (topic (log_of s)))
     \<and> tenant_events (turns tr) = map (\<lambda>i. the (unmarshal_event (topic (log_of s) ! i))) (reads s)"

lemma traced_cost:
  assumes "traced D topic u tr s"
  shows "total_cost u (turns tr) \<le> total_bill D u tr"
    and "reliable (dep_backend D) topic \<Longrightarrow> set (reads s) = {..<length (topic (log_of s))} \<Longrightarrow>
      total_cost u (turns tr) = total_bill D u tr"
proof -
  let ?ms = "topic (log_of s)"
  have g: "good_message (dep_canon D) m" if "m \<in> set ?ms" for m using assms that by (simp add: traced_def list_all_iff)
  have m: "cost_of u (the (unmarshal_event m)) = message_cost u m" if "m \<in> set ?ms" for m
    using g [OF that] by (auto simp: good_message_def message_cost_def)
  have "total_cost u (turns tr) = sum_list (map (\<lambda>i. message_cost u (?ms ! i)) (reads s))"
    using assms m by (simp add: total_cost_def traced_def o_def cong: map_cong)
  note c = this
  have d: "distinct (reads s)" "\<forall>i \<in> set (reads s). i < length ?ms" using assms by (simp_all add: traced_def)
  have "\<forall>m \<in> set ?ms. 0 \<le> message_cost u m" using message_cost_nonneg g by blast
  note p = read_part [OF d this, folded topic_cost_def, folded c]
  have t: "topic_cost u ?ms \<le> total_bill D u tr" "reliable (dep_backend D) topic \<Longrightarrow> topic_cost u ?ms = total_bill D u tr"
    using assms by (simp_all add: traced_def)
  show "total_cost u (turns tr) \<le> total_bill D u tr" using p(1) t(1) by (rule order_trans)
  show "reliable (dep_backend D) topic \<Longrightarrow> set (reads s) = {..<length ?ms} \<Longrightarrow> total_cost u (turns tr) = total_bill D u tr"
    by (rule trans [OF p(2) t(2)])
qed

lemma traced_modest:
  assumes "traced D topic u tr s" "dep_canon D u = Some u" "total_bill D u tr \<le> 2 ^ 29" "length (turns tr) \<le> 2 ^ 50"
    and "0 \<le> c0" "c0 \<le> 2 ^ 30"
  shows "postgres.modest (dep_canon D) u c0 (turns tr)"
proof -
  have e: "0 \<le> cost_rat e \<and> dep_canon D (TenantID e) = Some (TenantID e)" if "e \<in> set (tenant_events (turns tr))" for e
  proof -
    note e = that
    obtain i where "i \<in> set (reads s)" "e = the (unmarshal_event (topic (log_of s) ! i))"
      using assms(1) e by (auto simp: traced_def)
    moreover from this have "good_message (dep_canon D) (topic (log_of s) ! i)"
      using assms(1) by (simp add: traced_def list_all_length)
    ultimately show ?thesis by (auto simp: good_message_def)
  qed
  then have n: "\<forall>t \<in> named_tenants (turns tr). dep_canon D t = Some u \<longrightarrow> t = u" and "costs_nonneg (turns tr)"
    by (auto simp: named_tenants_def costs_nonneg_def)
  then show ?thesis
    using traced_cost(1) [OF assms(1)] assms(2-6) unfolding postgres.modest_def postgres.only_name_def by linarith
qed

context deployed_cache
begin

lemma step_traced:
  assumes "traced D topic u tr s" "system_step D topic F e s s'"
    and "consistent D holds s" "appends (dep_backend D) topic" "\<forall>p \<in> set (dep_providers D). honest_provider p"
    and "length (dep_providers D) \<le> 12" "event_stamped e"
  shows "traced D topic u (tr @ [(s, e)]) s'"
  using assms(2)
proof cases
  case (served mo call)
  obtain ms where ms: "topic (log_of s') = topic (log_of s) @ ms" "list_all (good_message (dep_canon D)) ms"
    "topic_cost u ms \<le> bill D u (s, e)" "reliable (dep_backend D) topic \<longrightarrow> topic_cost u ms = bill D u (s, e)"
    using served_messages [OF assms(3-6), of mo call u] assms(7) served(1,2) by auto
  have r: "reads s' = reads s" "turns (tr @ [(s, e)]) = turns tr" using served by simp_all
  have "map (\<lambda>i. the (unmarshal_event (topic (log_of s') ! i))) (reads s) = map (\<lambda>i. the (unmarshal_event (topic (log_of s) ! i))) (reads s)"
    using assms(1) by (auto simp: ms(1) nth_append traced_def)
  then show ?thesis using assms(1) ms r by (auto simp: traced_def)
next
  case (received i p tbl)
  have "i < length (topic (log_of s))" by fact
  then have "good_message (dep_canon D) (topic (log_of s) ! i)" using assms(1) by (simp add: traced_def list_all_length)
  then obtain ev where "unmarshal_event (topic (log_of s) ! i) = Some ev" by (auto simp: good_message_def)
  then show ?thesis using assms(1) received by (auto simp: traced_def bill_def)
next
  case (worked t p tbl)
  then show ?thesis using assms(1) by (auto simp: traced_def bill_def)
qed

text \<open>The books of a tenant over a run of the system.\<close>

definition ledger ::
  "pg_fault set \<Rightarrow> ('k \<Rightarrow> bytes list) \<Rightarrow> string \<Rightarrow> int \<Rightarrow> ('c, 'k, 'w, 'a) history \<Rightarrow> ('c, 'k, 'w, 'a) system \<Rightarrow> bool" where
  "ledger F topic u c0 tr s \<longleftrightarrow>
     consistent D holds s \<and> traced D topic u tr s \<and> processor_wf (turns tr) (worker s)
     \<and> postgres.account (dep_canon D) F u c0 (turns tr) (worker s) (database s)"

lemma step_ledger:
  assumes "ledger F topic u c0 tr s" "system_step D topic F e s s'"
    and "appends (dep_backend D) topic" "\<forall>p \<in> set (dep_providers D). honest_provider p" "length (dep_providers D) \<le> 12"
    and "event_timed e" "event_stamped e" "dep_canon D u = Some u"
    and "total_bill D u (tr @ [(s, e)]) \<le> 2 ^ 29" "length (turns (tr @ [(s, e)])) \<le> 2 ^ 50" "0 \<le> c0" "c0 \<le> 2 ^ 30"
  shows "ledger F topic u c0 (tr @ [(s, e)]) s'"
proof -
  have l: "consistent D holds s" "traced D topic u tr s" "processor_wf (turns tr) (worker s)"
    "postgres.account (dep_canon D) F u c0 (turns tr) (worker s) (database s)"
    using assms(1) by (simp_all add: ledger_def)
  have t: "traced D topic u (tr @ [(s, e)]) s'" using l(2) assms(2) l(1) assms(3,4,5,7) by (rule step_traced)
  have c: "consistent D holds s'" using assms(2) l(1) assms(6,5) by (rule step_consistent)
  have m: "postgres.modest (dep_canon D) u c0 (turns (tr @ [(s, e)]))" using t assms(8-12) by (rule traced_modest)
  have w: "processor_wf (turns tr @ [ev]) p' \<and> postgres.account (dep_canon D) F u c0 (turns tr @ [ev]) p' d'"
    if "processor_step (UpdateTenantSpend (dep_canon D)) F ev (worker s, database s) (p', d')" "turns (tr @ [(s, e)]) = turns tr @ [ev]"
    for ev p' d'
    using processor_step_wf [OF that(1) l(3)] postgres.account_step [OF that(1) l(3,4)] m that(2) by simp
  from assms(2) show ?thesis
  proof cases
    case (served mo call)
    have "spent (database s') u = Some k" if "spent (database s) u = Some k" for k
      using served_consistent(2) [OF l(1) served(3) _ assms(5) that, of call] assms(6) served(1,2) by simp
    moreover have "table_wf (dep_canon D) (database s')" using c by (simp add: consistent_def)
    ultimately have "postgres.account (dep_canon D) F u c0 (turns tr) (worker s) (database s')"
      using postgres.account_frame [OF l(4)] by blast
    then show ?thesis using c t l(3) served by (simp add: ledger_def)
  next
    case (received i p tbl)
    then show ?thesis using c t w [OF received(5)] by (simp add: ledger_def)
  next
    case (worked ev p tbl)
    then show ?thesis using c t w [OF worked(4)] by (simp add: ledger_def)
  qed
qed

lemma run_ledger:
  assumes "system_run D topic F s0 tr s" "started D holds topic s0" "spent (database s0) u = Some c0"
    and "appends (dep_backend D) topic" "\<forall>p \<in> set (dep_providers D). honest_provider p" "length (dep_providers D) \<le> 12"
    and "list_all (\<lambda>x. event_timed (snd x) \<and> event_stamped (snd x)) tr" "dep_canon D u = Some u"
    and "total_bill D u tr \<le> 2 ^ 29" "length (turns tr) \<le> 2 ^ 50" "0 \<le> c0" "c0 \<le> 2 ^ 30"
  shows "ledger F topic u c0 tr s"
  using assms(1,7,9,10)
proof (induction tr s rule: system_run.induct)
  case start
  have t: "traced D topic u [] s0" using assms(2)
    by (simp add: traced_def started_def total_bill_def topic_cost_def)
  have "postgres.modest (dep_canon D) u c0 (turns ([] :: ('c, 'k, 'w, 'a) history))"
    using t assms(8) by (rule traced_modest) (use assms(11,12) in \<open>simp_all add: total_bill_def\<close>)
  then have "postgres.account (dep_canon D) F u c0 [] NewBudgetProcessor (database s0)"
    using assms(2,3) by (intro postgres.account_run [OF processor_run.start]) (simp_all add: started_def consistent_def)
  moreover have "processor_wf [] NewBudgetProcessor" using processor_run_wf [OF processor_run.start] .
  ultimately show ?case using t assms(2) by (simp add: ledger_def started_def)
next
  case (step tr s e s')
  have c: "consistent D holds s"
    using run_consistent [OF step(1) _ _ assms(6)] assms(2) step.prems(1) by (simp add: started_def list_all_iff)
  have b: "0 \<le> bill D u (s, e)" using bill_nonneg [OF c assms(4,5,6)] step.prems(1) by simp
  have "length (turns tr) \<le> length (turns (tr @ [(s, e)]))" by (cases e) simp_all
  then have "ledger F topic u c0 tr s" using step.IH step.prems b by simp
  then show ?case
    using step.hyps(2) assms(4,5,6) _ _ assms(8) step.prems(2,3) assms(11,12) by (rule step_ledger) (use step.prems(1) in simp_all)
qed

end

end
