(* ===== verification/Deployment_Properties.thy ===== *)
theory Deployment_Properties
  imports Deployment_Billing
begin

text \<open>The properties of the whole system over its runs.\<close>

section \<open>A system to try them on\<close>

text \<open>
  The seeded tenant, the provider that always answers, the in-memory cache and a topic that
  keeps what is written to it.
\<close>

definition demo :: "(MemoryCache, (bytes \<times> bytes) list, nat, unit) deployment" where
  "demo = \<lparr>dep_cache = memory_cache, dep_backend = topic_backend, dep_providers = [hello_provider], dep_pdq = (\<lambda>_ ps. ps),
     dep_canon = Some, dep_secret = ''s3cret'', dep_analytics = None, dep_explain = (\<lambda>e b. ''bad json'')\<rparr>"

definition demo_start :: "(MemoryCache, (bytes \<times> bytes) list, nat, unit) system" where
  "demo_start = \<lparr>web = \<lparr>chat_st = hello_from [], analytics_st = ()\<rparr>, worker = NewBudgetProcessor, reads = []\<rparr>"

definition demo_moment :: moment where
  "demo_moment = \<lparr>fault = Delivered, new_uuid = replicate 16 (CHR 0x2A), creation = 5, broken_after = None\<rparr>"

definition demo_topic :: "(bytes \<times> bytes) list \<Rightarrow> bytes list" where
  "demo_topic k = map snd k"

definition in_data :: "MemoryCache \<Rightarrow> string \<Rightarrow> bytes \<Rightarrow> bool" where
  "in_data m k v \<longleftrightarrow> data m k = Some v"

lemma demo_cache: "byte_cache (dep_cache demo) in_data"
  using memory.byte_cache_axioms by (simp add: demo_def in_data_def [abs_def])

lemma demo_broker: "appends (dep_backend demo) demo_topic" "reliable (dep_backend demo) demo_topic"
  by (simp_all add: appends_def reliable_def demo_def topic_backend_def demo_topic_def)

lemma demo_providers: "\<forall>p \<in> set (dep_providers demo). honest_provider p" "length (dep_providers demo) \<le> 12"
  by (simp_all add: demo_def honest_provider_def hello_provider_def hello_def counts_tokens_def is_int64_def valid_ascii byte_def)

lemma demo_consistent: "consistent demo in_data demo_start"
  using seed_tenant_valid
  by (simp add: consistent_def demo_def demo_start_def hello_from_def in_data_def NewMemoryCache_def NewEWMAMonitor_wf
      table_valid_def table_wf_def seed_tenant_def int4_def)

lemma demo_started: "started demo in_data demo_topic demo_start"
  using demo_consistent by (simp add: started_def demo_start_def hello_from_def demo_topic_def)

lemma demo_spent: "spent (database demo_start) ''5e1f'' = Some 0"
  by (simp add: demo_start_def hello_from_def spent_def seed_tenant_def)

lemma demo_fresh: "fresh_uuid (dep_canon demo) (new_uuid demo_moment) (database demo_start)"
proof -
  have "CHR ''-'' \<in> set (uuid_text bs)" for bs by (simp add: uuid_text_def Let_def)
  moreover have "CHR ''-'' \<notin> set ''5e1f''" by simp
  ultimately have "uuid_text bs \<noteq> ''5e1f''" for bs by metis
  then show ?thesis by (auto simp: fresh_uuid_def demo_def demo_moment_def demo_start_def hello_from_def seed_tenant_def)
qed

text \<open>One chat request is answered, and the processor reads the record of it.\<close>

definition demo_call :: system_event where
  "demo_call = Served demo_moment (Completion hello_env hello_request)"

lemma demo_run:
  obtains s1 m s2 where
    "system_run demo demo_topic F demo_start [(demo_start, demo_call)] s1"
    "system_run demo demo_topic F demo_start [(demo_start, demo_call), (s1, Worked (Received m))] s2"
    "reads s2 = [0]" "length (demo_topic (log_of s2)) = 1"
    "total_bill demo ''5e1f'' [(demo_start, demo_call), (s1, Worked (Received m))] = price hello"
proof -
  let ?srv = "server_at demo demo_moment"
  have g: "chat_api ?srv = hello_logging (multi_Log topic_backend) (multi_Broadcast topic_backend)"
    by (simp add: server_at_def server_over_def demo_def demo_moment_def hello_logging_def)
  obtain w st' where a: "ServeHTTP (chat_api ?srv) hello_env hello_request (hello_from []) = (Return w, st')"
    "status_of w = 200" "written w = marshal_response hello"
    "log_st st' = snd (multi_Broadcast topic_backend hello_event (snd (multi_Log topic_backend hello_event [])))"
    "headers w = [''Content-Type'' \<mapsto> ''application/json'']"
    unfolding g by (rule hello_logging_answer)
  let ?s1 = "demo_start\<lparr>web := \<lparr>chat_st = st', analytics_st = ()\<rparr>\<rparr>"
  have "system_step demo demo_topic F demo_call demo_start
      (demo_start\<lparr>web := snd (serve_call ?srv (Completion hello_env hello_request) (web demo_start))\<rparr>)"
    unfolding demo_call_def using demo_fresh by (rule system_step.served)
  moreover have "snd (serve_call ?srv (Completion hello_env hello_request) (web demo_start)) = \<lparr>chat_st = st', analytics_st = ()\<rparr>"
    using a(1) by (simp add: serve_call_def demo_start_def)
  ultimately have s1: "system_step demo demo_topic F demo_call demo_start ?s1" by simp
  note r1 = system_run.step [OF system_run.start s1, simplified]
  have ev: "event_valid hello_event" unfolding hello_event_def
    by (rule sync_event_valid)
      (simp_all add: answer_valid_def seed_tenant_def hello_def is_int64_def valid_ascii byte_def time_Sub_def saturate64_def Millisecond_def)
  obtain m where m: "marshal_event hello_event = Inr m" "unmarshal_event m = Some hello_event"
    using unmarshal_marshal_event [OF ev] by blast
  have "log_st st' = [(''5e1f'', m)]"
    using a(4) m(1) by (simp add: multi_Log_def multi_Broadcast_def topic_backend_def hello_event_def sync_event_def seed_tenant_def)
  then have t: "demo_topic (log_of ?s1) = [m]" by (simp add: demo_topic_def)
  let ?p = "add_event hello_event NewBudgetProcessor"
  have w1: "worker ?s1 = NewBudgetProcessor" "reads ?s1 = []" by (simp_all add: demo_start_def)
  have "\<not> should_flush ?p" by (simp add: should_flush_def dom_add_event add_event_def NewBudgetProcessor_def)
  then have "processor_step (UpdateTenantSpend (dep_canon demo)) F (Received m) (NewBudgetProcessor, d) (?p, d)" for d
    using m(2) by (intro processor_step.added) (simp_all add: NewBudgetProcessor_def)
  then have "processor_step (UpdateTenantSpend (dep_canon demo)) F (Received (demo_topic (log_of ?s1) ! 0))
      (worker ?s1, database ?s1) (?p, database ?s1)"
    unfolding w1 t by simp
  then have "system_step demo demo_topic F (Worked (Received (demo_topic (log_of ?s1) ! 0))) ?s1
      ((with_database (database ?s1) ?s1)\<lparr>worker := ?p, reads := reads ?s1 @ [0]\<rparr>)"
    by (intro system_step.received) (unfold t w1, simp_all)
  then obtain s2 where
    s2: "system_step demo demo_topic F (Worked (Received m)) ?s1 s2" "reads s2 = [0]" "log_of s2 = log_of ?s1"
    unfolding t w1 by fastforce
  have r2: "system_run demo demo_topic F demo_start [(demo_start, demo_call), (?s1, Worked (Received m))] s2"
    using system_run.step [OF r1 s2(1)] by simp
  have "bill demo ''5e1f'' (demo_start, demo_call) = price hello"
  proof -
    have "served_tenant (chat_api ?srv) hello_request (hello_from []) = Some seed_tenant"
      unfolding g
      by (simp add: served_tenant_def hello_request_def seed_hash_key hello_logging_lookup) (simp add: seed_key_def)
    moreover have "fresh_body (Return w) = Some (marshal_response hello)"
      using a(2,3,5) by (simp add: fresh_body_def)
    moreover have "price (read_answer (marshal_response hello)) = price hello"
      by (rule read_marshal_response) (simp_all add: hello_def is_int64_def valid_ascii byte_def)
    ultimately show ?thesis using a(1) by (simp add: bill_def demo_call_def Let_def demo_start_def seed_tenant_def)
  qed
  then have b: "total_bill demo ''5e1f'' [(demo_start, demo_call), (?s1, Worked (Received m))] = price hello"
    by (simp add: total_bill_def bill_def)
  have "length (demo_topic (log_of s2)) = 1" unfolding s2(3) t by simp
  with r1 r2 s2(2) show thesis using b by (rule that)
qed

lemma demo_sane:
  "list_all (\<lambda>x. event_timed (snd x) \<and> event_stamped (snd x)) [(s0, demo_call), (s1, Worked e)]"
  by (simp add: demo_call_def hello_env_def is_int64_def Millisecond_def)

lemma demo_price: "0 \<le> price hello" "price hello \<le> 2 ^ 29"
proof -
  have c: "counts_tokens hello" by (simp add: counts_tokens_def hello_def is_int64_def valid_ascii byte_def)
  then show "0 \<le> price hello" by (rule price_nonneg)
  have "price hello \<le> 2 * exact_cost ''gpt-4o'' 10 20"
    using EstimateCost_close [of 10 20 "''gpt-4o''"] close_upper
    by (fastforce simp: price_def hello_def cents_def is_int64_def)
  also have "\<dots> \<le> 2 ^ 29" by code_simp
  finally show "price hello \<le> 2 ^ 29" .
qed

section \<open>Consistency\<close>

text \<open>
  C15: the state of the running system stays well typed: whatever requests it serves, with
  any bodies and tenant creations, and however the budget processor runs beside them, the
  table keeps its columns, its keys and its canonical ids; every cached tenant is a row of
  the table up to the age of its spending; and the averages of the monitor stay numbers in
  their range. What the handlers are given as a request is well typed for every body.
\<close>
theorem system_stays_well_typed:
  assumes "byte_cache (dep_cache D) holds" and "system_run D topic F s0 tr s" and "consistent D holds s0"
    and "list_all (event_timed \<circ> snd) tr" and "length (dep_providers D) \<le> 12"
  shows "table_wf (dep_canon D) (database s) \<and> table_valid (database s)
    \<and> (\<forall>k v. holds (cache_st (chat_st (web s))) k v \<longrightarrow> cached_row (database s) k v)
    \<and> monitor_wf (monitor_st (chat_st (web s))) \<and> request_valid (fst (decode_request b))"
proof -
  have c: "deployed_cache D holds" using assms(1) by (simp add: deployed_cache_def)
  from deployed_cache.run_consistent [OF c assms(2,3,4,5)] decode_request_valid [of b] show ?thesis
    by (simp add: consistent_def)
qed

theorem system_stays_well_typed_witness:
  "\<exists>s1 m s2. system_run demo demo_topic {Delivered} demo_start [(demo_start, demo_call), (s1, Worked (Received m))] s2
     \<and> table_wf Some (database s2)"
proof -
  obtain s1 m s2 where r: "system_run demo demo_topic {Delivered} demo_start [(demo_start, demo_call), (s1, Worked (Received m))] s2"
    by (rule demo_run)
  have "list_all (event_timed \<circ> snd) [(demo_start, demo_call), (s1, Worked (Received m))]"
    using demo_sane [of demo_start s1 "Received m"] by simp
  from system_stays_well_typed [OF demo_cache r demo_consistent this demo_providers(2)] r show ?thesis
    by (auto simp: demo_def)
qed

section \<open>Money\<close>

text \<open>
  C2: tenants pay at most for the answers they got: over any run of the whole system, with
  messages lost or out of order and updates lost or answered late, the cents recorded for a
  tenant plus the sum pending for it are at most the price of the fresh answers it received,
  as the tokens and models in their bodies say, up to a rounding error far below a cent per
  turn of the processor. Streams, cache hits, errors and other tenants' requests cost it
  nothing.
\<close>
theorem tenants_pay_at_most_their_answers:
  assumes "byte_cache (dep_cache D) holds" and "system_run D topic F s0 tr s" and "started D holds topic s0"
    and "spent (database s0) u = Some c0" and "dep_canon D u = Some u" and "0 \<le> c0" and "c0 \<le> 2 ^ 30"
    and "appends (dep_backend D) topic" and "\<forall>p \<in> set (dep_providers D). honest_provider p" and "length (dep_providers D) \<le> 12"
    and "list_all (\<lambda>x. event_timed (snd x) \<and> event_stamped (snd x)) tr"
    and "total_bill D u tr \<le> 2 ^ 29" and "length (turns tr) \<le> 2 ^ 50"
  shows "\<exists>c x. spent (database s) u = Some c \<and> pending_sum (worker s) u = Fin x \<and> 0 \<le> x
    \<and> of_int (c - c0) + x \<le> total_bill D u tr + of_nat (length (turns tr)) / 2 ^ 22"
proof -
  have d: "deployed_cache D holds" using assms(1) by (simp add: deployed_cache_def)
  note l = deployed_cache.run_ledger [OF d assms(2,3,4,8,9,10,11,5,12,13,6,7), unfolded deployed_cache.ledger_def [OF d]]
  from l postgres.account_bounds traced_cost(1) show ?thesis
    by (fastforce simp: turn_slack_def)
qed

theorem tenants_pay_at_most_their_answers_witness:
  "\<exists>s1 m s c x. system_run demo demo_topic {Delivered} demo_start [(demo_start, demo_call), (s1, Worked (Received m))] s
     \<and> spent (database s) ''5e1f'' = Some c \<and> pending_sum (worker s) ''5e1f'' = Fin x
     \<and> of_int (c - 0) + x \<le> price hello + 1 / 2 ^ 22"
proof -
  obtain s1 m s2 where r: "system_run demo demo_topic {Delivered} demo_start [(demo_start, demo_call), (s1, Worked (Received m))] s2"
    "total_bill demo ''5e1f'' [(demo_start, demo_call), (s1, Worked (Received m))] = price hello"
    by (rule demo_run)
  let ?tr = "[(demo_start, demo_call), (s1, Worked (Received m))]"
  have t: "turns ?tr = [Received m]" by (simp add: turns_def map_filter_def demo_call_def)
  have "dep_canon demo ''5e1f'' = Some ''5e1f''" "(0 :: int) \<le> 0" "(0 :: int) \<le> 2 ^ 30"
    "total_bill demo ''5e1f'' ?tr \<le> 2 ^ 29" "length (turns ?tr) \<le> 2 ^ 50"
    using demo_price(2) r(2) by (simp_all add: demo_def t)
  note tenants_pay_at_most_their_answers
    [OF demo_cache r(1) demo_started demo_spent this(1-3) demo_broker(1) demo_providers demo_sane this(4,5)]
  then obtain c x where "spent (database s2) ''5e1f'' = Some c" "pending_sum (worker s2) ''5e1f'' = Fin x"
    "of_int (c - 0) + x \<le> total_bill demo ''5e1f'' ?tr + of_nat (length (turns ?tr)) / 2 ^ 22" by blast
  then have "spent (database s2) ''5e1f'' = Some c \<and> pending_sum (worker s2) ''5e1f'' = Fin x
      \<and> of_int (c - 0) + x \<le> price hello + 1 / 2 ^ 22" unfolding r(2) t by simp
  with r(1) show ?thesis by blast
qed

text \<open>
  C8: tenants pay for the answers they got: when no message is lost, every message has been
  read and every update was delivered, what is recorded and pending for a tenant falls short
  of the price of its fresh answers by at most a cent for every tick and every thousand turns
  of the processor, and the rounding error.
\<close>
theorem answers_are_charged:
  assumes "byte_cache (dep_cache D) holds" and "system_run D topic {Delivered} s0 tr s" and "started D holds topic s0"
    and "spent (database s0) u = Some c0" and "dep_canon D u = Some u" and "0 \<le> c0" and "c0 \<le> 2 ^ 30"
    and "appends (dep_backend D) topic" and "reliable (dep_backend D) topic" and "set (reads s) = {..<length (topic (log_of s))}"
    and "\<forall>p \<in> set (dep_providers D). honest_provider p" and "length (dep_providers D) \<le> 12"
    and "list_all (\<lambda>x. event_timed (snd x) \<and> event_stamped (snd x)) tr"
    and "total_bill D u tr \<le> 2 ^ 29" and "length (turns tr) \<le> 2 ^ 50"
  shows "\<exists>c x. spent (database s) u = Some c \<and> pending_sum (worker s) u = Fin x
    \<and> total_bill D u tr - of_nat (ticks (turns tr) + length (turns tr) div 1000) - of_nat (length (turns tr)) / 2 ^ 22
        \<le> of_int (c - c0) + x"
proof -
  have d: "deployed_cache D holds" using assms(1) by (simp add: deployed_cache_def)
  note l = deployed_cache.run_ledger [OF d assms(2,3,4,8,11,12,13,5,14,15,6,7), unfolded deployed_cache.ledger_def [OF d]]
  then have "total_cost u (turns tr) = total_bill D u tr" using traced_cost(2) assms(9,10) by blast
  with l postgres.account_bounds [of "dep_canon D" "{Delivered}" u c0 "turns tr" "worker s" "database s"] show ?thesis
    by (auto simp: turn_slack_def)
qed

theorem answers_are_charged_witness:
  "\<exists>s1 m s c x. system_run demo demo_topic {Delivered} demo_start [(demo_start, demo_call), (s1, Worked (Received m))] s
     \<and> spent (database s) ''5e1f'' = Some c \<and> pending_sum (worker s) ''5e1f'' = Fin x
     \<and> price hello - 1 / 2 ^ 22 \<le> of_int (c - 0) + x"
proof -
  obtain s1 m s2 where r: "system_run demo demo_topic {Delivered} demo_start [(demo_start, demo_call), (s1, Worked (Received m))] s2"
    "total_bill demo ''5e1f'' [(demo_start, demo_call), (s1, Worked (Received m))] = price hello"
    "reads s2 = [0]" "length (demo_topic (log_of s2)) = 1"
    by (rule demo_run)
  let ?tr = "[(demo_start, demo_call), (s1, Worked (Received m))]"
  have t: "turns ?tr = [Received m]" by (simp add: turns_def map_filter_def demo_call_def)
  have all: "set (reads s2) = {..<length (demo_topic (log_of s2))}" unfolding r(3,4) by auto
  have "dep_canon demo ''5e1f'' = Some ''5e1f''" "(0 :: int) \<le> 0" "(0 :: int) \<le> 2 ^ 30"
    "total_bill demo ''5e1f'' ?tr \<le> 2 ^ 29" "length (turns ?tr) \<le> 2 ^ 50"
    using demo_price(2) r(2) by (simp_all add: demo_def t)
  note answers_are_charged
    [OF demo_cache r(1) demo_started demo_spent this(1-3) demo_broker all demo_providers demo_sane this(4,5)]
  then obtain c x where "spent (database s2) ''5e1f'' = Some c" "pending_sum (worker s2) ''5e1f'' = Fin x"
    "total_bill demo ''5e1f'' ?tr - of_nat (ticks (turns ?tr) + length (turns ?tr) div 1000) - of_nat (length (turns ?tr)) / 2 ^ 22
      \<le> of_int (c - 0) + x" by blast
  then have "spent (database s2) ''5e1f'' = Some c \<and> pending_sum (worker s2) ''5e1f'' = Fin x
      \<and> price hello - 1 / 2 ^ 22 \<le> of_int (c - 0) + x" unfolding r(2) t by (simp add: ticks_def)
  with r(1) show ?thesis by blast
qed

section \<open>Honest providers\<close>

text \<open>
  What the properties above ask of a provider holds for the mocks behind their retries, and
  for Gemini when its client is missing, which answers nothing.
\<close>

definition answers_honestly :: "'w provider \<Rightarrow> bool" where
  "answers_honestly p \<longleftrightarrow> valid_utf8 (Name p)
     \<and> (\<forall>t req w resp. request_valid req \<longrightarrow> fst (Chat p t req w) = Return (Inr resp) \<longrightarrow> counts_tokens resp)"

lemma chat_loop_honest:
  "answers_honestly (base p) \<Longrightarrow> request_valid req \<Longrightarrow> fst (chat_loop ctx p outer req i e w) = Return (Inr resp)
     \<Longrightarrow> counts_tokens resp"
proof (induction ctx p outer req i e w rule: chat_loop.induct)
  case (1 ctx p outer req i e w)
  obtain r w1 where r: "Chat (base p) (attempt_deadline outer (timeout p)) req w = (r, w1)" by fastforce
  have "counts_tokens x" if "r = Return (Inr x)" for x
    using "1.prems"(1,2) r that unfolding answers_honestly_def by (metis fst_conv)
  then show ?case
    using "1.prems"(3) [unfolded chat_loop.simps [of ctx p outer req i e w] r] "1.IH" [OF _ r [symmetric]] "1.prems"(1,2)
    by (auto split: outcome.splits sum.splits option.splits prod.splits if_splits)
qed

lemma resilient_honest: "answers_honestly p \<Longrightarrow> honest_provider (resilient u p)"
proof -
  assume h: "answers_honestly p"
  let ?p = "NewResilientProvider p max_retries provider_timeout"
  have b: "answers_honestly (base ?p)" using h by (simp add: NewResilientProvider_def)
  have "counts_tokens resp" if "request_valid req" "fst (Chat (resilient u p) None req w) = Return (Inr resp)" for req w resp
    using chat_loop_honest [OF b that(1)] that(2) by (simp add: resilient_def as_provider_def resilient_Chat_def)
  moreover have "valid_utf8 (Name (resilient u p))" using h
    by (simp add: answers_honestly_def resilient_def as_provider_def resilient_Name_def NewResilientProvider_def)
  ultimately show ?thesis by (simp add: honest_provider_def)
qed

lemma mock_honest: "valid_utf8 n \<Longrightarrow> honest_provider (resilient u (mock u n))"
  by (rule resilient_honest)
    (auto simp: answers_honestly_def mock_def NewMockProvider_def mock_Chat_def Let_def counts_tokens_def request_valid_def
      is_int64_def split: if_splits)

lemma gemini_missing_honest:
  assumes "gemini_connect u (GeminiAPIKey cfg) = Inl err"
  shows "honest_provider (resilient u (gemini_prov u cfg))"
  by (rule resilient_honest)
    (use assms in \<open>simp add: answers_honestly_def gemini_prov_def gemini_provider_def NewGeminiProvider_def gemini_Chat_def
      valid_ascii byte_def\<close>)

end
