(* ===== verification/Handlers.thy ===== *)
theory Handlers
  imports Gateway_Traffic "HOL-Library.Multiset"
begin

text \<open>
  Concurrent requests. \<open>net/http\<close> runs \<open>ServeHTTP\<close> of \<open>handler.go\<close> in a goroutine per request,
  and the requests meet in the cache, the database, the limiter, the monitor, the providers
  and the log. Here a handler is a little machine that touches one of them in every step,
  and a run interleaves the steps of any number of handlers in any order.
\<close>

section \<open>A handler in steps\<close>

text \<open>What a handler that has its tenant is about to do.\<close>

datatype 'w work =
  Found
| Known
| Decoded ChatRequest
| Routing ChatRequest
| Chosen "'w provider" ChatRequest
| Failing "'w provider" int response
| Answered "'w provider" ChatRequest ChatResponse
| Streaming "'w provider" ChatRequest stream_end "stream_event list" int int response
| Emitting LogEvent "'w work"
| Broadcasting LogEvent "'w work"
| Storing ChatRequest ChatResponse
| Done "response outcome"

datatype 'w stage = Arrived | Missed | Refused "response outcome" | Serving Tenant "'w work"

definition stream_head :: response where
  "stream_head = set_header ''Connection'' ''keep-alive''
     (set_header ''Cache-Control'' ''no-cache'' (set_header ''Content-Type'' ''text/event-stream'' no_response))"

definition answer_key :: "Tenant \<Rightarrow> ChatRequest \<Rightarrow> string" where
  "answer_key t req = cache_key (ID t) (ReqModel req) (Messages req)"

text \<open>
  One step, from the budget to the last byte. A call of a provider is one step: its context has
  a deadline for every attempt, and a provider that heeds it returns. A stream of which nothing
  more is seen has lost its client, as in \<open>stream_events\<close>.
\<close>

fun work_step ::
  "('c, 'd, 'k, 'w) gateway \<Rightarrow> environment \<Rightarrow> request \<Rightarrow> Tenant \<Rightarrow> 'w work \<Rightarrow> ('c, 'd, 'k, 'w) gw_state
    \<Rightarrow> 'w work \<times> ('c, 'd, 'k, 'w) gw_state" where
  "work_step g env r t Found st =
     (Known, st\<lparr>cache_st := snd (cache_Set (gw_cache g) (tenant_key (key_hash (api_key r))) (marshal_tenant t) (5 * Minute) (cache_st st))\<rparr>)"
| "work_step g env r t Known st =
     (if budget_exhausted t then (Done (Return (http_Error ''budget_exhausted'' 402 no_response)), st)
      else
        let (rl, tb) = Allow (limiter_st st) (ID t) (RateLimitRPM t) (at_bucket env) (at_refill env)
        in (if \<not> admits rl then
              Done (Return (http_Error ''rate_limited'' 429 (set_header ''Retry-After'' ''1'' no_response)))
            else
              (case decode_request (body r) of
                 (req, Some err) \<Rightarrow> Done (Return (http_Error ''invalid_request'' 400 no_response))
               | (req, None) \<Rightarrow> Decoded req),
            st\<lparr>limiter_st := tb\<rparr>))"
| "work_step g env r t (Decoded req) st =
     (if Stream req then (Routing req, st)
      else
        (case cache_Get (gw_cache g) (answer_key t req) (cache_st st) of
           (Inr (Some cached), c) \<Rightarrow> (Done (Return (hit_response cached)), st\<lparr>cache_st := c\<rparr>)
         | (_, c) \<Rightarrow> (Routing req, st\<lparr>cache_st := c\<rparr>)))"
| "work_step g env r t (Routing req) st =
     (let (sel, m) = Select (gw_pdq g) (at_select env) (monitor_st st) (gw_providers g) (value_or [] (ProviderAllowlist t))
      in (case sel of
            None \<Rightarrow> Done (Return (http_Error ''no_available_providers'' 503 no_response))
          | Some p \<Rightarrow> Chosen p req,
          st\<lparr>monitor_st := m\<rparr>))"
| "work_step g env r t (Chosen p req) st =
     (if Stream req then
        let (x, wd) = ChatStream p None None req (world st)
        in (case x of
              Panic m \<Rightarrow> Done (Panic m)
            | Crash m \<Rightarrow> Done (Crash m)
            | Return s \<Rightarrow> Streaming p req (ended s) (schedule env s) 0 0 stream_head,
            st\<lparr>world := wd\<rparr>)
      else
        let (x, wd) = Chat p None req (world st)
        in (case x of
              Panic m \<Rightarrow> Done (Panic m)
            | Crash m \<Rightarrow> Done (Crash m)
            | Return (Inl err) \<Rightarrow> Failing p 500 (http_Error ''provider_error'' 502 no_response)
            | Return (Inr resp) \<Rightarrow> Answered p req resp,
            st\<lparr>world := wd\<rparr>))"
| "work_step g env r t (Failing p c w) st =
     (Done (Return w), st\<lparr>monitor_st := RecordError (monitor_st st) (Name p) c (at_record env)\<rparr>)"
| "work_step g env r t (Answered p req resp) st =
     (let latency = time_Sub (at_reply env) (at_start env)
      in (Emitting (sync_event t (Name p) resp latency (at_log env)) (Storing req resp),
          st\<lparr>monitor_st := RecordSuccess (monitor_st st) (Name p) latency (at_record env)\<rparr>))"
| "work_step g env r t (Emitting ev k) st = (Broadcasting ev k, st\<lparr>log_st := snd (gw_Log g ev (log_st st))\<rparr>)"
| "work_step g env r t (Broadcasting ev k) st = (k, st\<lparr>log_st := snd (gw_Broadcast g ev (log_st st))\<rparr>)"
| "work_step g env r t (Storing req resp) st =
     (Done (Return (Write (marshal_response resp) (set_header ''Content-Type'' ''application/json'' no_response))),
      st\<lparr>cache_st := snd (cache_Set (gw_cache g) (answer_key t req) (marshal_response resp) Hour (cache_st st))\<rparr>)"
| "work_step g env r t (Streaming p req e [] a b w) st = (Done (case e of StreamCrash m \<Rightarrow> Crash m | _ \<Rightarrow> Return w), st)"
| "work_step g env r t (Streaming p req e (Closed # es) a b w) st =
     (Emitting (stream_log t (Name p) (ReqModel req) a b (time_Sub (at_reply env) (at_start env)) (at_log env)) (Done (Return w)), st)"
| "work_step g env r t (Streaming p req e (Chunk c # es) a b w) st =
     (if can_flush r then
        Streaming p req e es (wrap64 (a + ChunkPromptTokens c)) (wrap64 (b + ChunkCompletionTokens c)) (Write (sse (ChunkContent c)) w)
      else Done (Panic nil_dereference), st)"
| "work_step g env r t (Streaming p req e (ErrValue (Some err) # es) a b w) st = (Failing p 502 w, st)"
| "work_step g env r t (Streaming p req e (ErrValue None # es) a b w) st = (Streaming p req e es a b w, st)"
| "work_step g env r t (Streaming p req e (ClientDone # es) a b w) st = (Done (Return w), st)"
| "work_step g env r t (Done out) st = (Done out, st)"

text \<open>From the key to the tenant.\<close>

fun advance ::
  "('c, 'd, 'k, 'w) gateway \<Rightarrow> environment \<Rightarrow> request \<Rightarrow> 'w stage \<Rightarrow> ('c, 'd, 'k, 'w) gw_state
    \<Rightarrow> 'w stage \<times> ('c, 'd, 'k, 'w) gw_state" where
  "advance g env r Arrived st =
     (if api_key r = [] then (Refused (Return (http_Error ''missing_api_key'' 401 no_response)), st)
      else
        (case cache_Get (gw_cache g) (tenant_key (key_hash (api_key r))) (cache_st st) of
           (Inr (Some cached), c) \<Rightarrow>
             (case fst (unmarshal_tenant cached) of
                None \<Rightarrow> Refused (Panic nil_dereference)
              | Some t \<Rightarrow> Serving t Known, st\<lparr>cache_st := c\<rparr>)
         | (_, c) \<Rightarrow> (Missed, st\<lparr>cache_st := c\<rparr>)))"
| "advance g env r Missed st =
     (case gw_tenant g (key_hash (api_key r)) (db_st st) of
        (Inl err, d) \<Rightarrow> (Refused (Return (http_Error ''invalid_api_key'' 401 no_response)), st\<lparr>db_st := d\<rparr>)
      | (Inr t, d) \<Rightarrow> (Serving t Found, st\<lparr>db_st := d\<rparr>))"
| "advance g env r (Refused out) st = (Refused out, st)"
| "advance g env r (Serving t k) st = (let (k', st') = work_step g env r t k st in (Serving t k', st'))"

fun outcome_of :: "'w stage \<Rightarrow> response outcome option" where
  "outcome_of (Refused out) = Some out"
| "outcome_of (Serving t (Done out)) = Some out"
| "outcome_of s = None"

section \<open>One handler alone\<close>

inductive finishes ::
  "('c, 'd, 'k, 'w) gateway \<Rightarrow> environment \<Rightarrow> request \<Rightarrow> 'w stage \<Rightarrow> ('c, 'd, 'k, 'w) gw_state
    \<Rightarrow> 'w stage \<Rightarrow> ('c, 'd, 'k, 'w) gw_state \<Rightarrow> bool"
  for g env r where
  ended: "outcome_of s \<noteq> None \<Longrightarrow> finishes g env r s st s st"
| goes: "outcome_of s = None \<Longrightarrow> advance g env r s st = (s1, st1) \<Longrightarrow> finishes g env r s1 st1 s' st' \<Longrightarrow>
     finishes g env r s st s' st'"

lemma finishes_ended: "outcome_of s \<noteq> None \<Longrightarrow> finishes g env r s st s' st' \<longleftrightarrow> s' = s \<and> st' = st"
  by (subst finishes.simps) auto

lemma finishes_goes:
  "outcome_of s = None \<Longrightarrow> finishes g env r s st s' st'
     \<longleftrightarrow> finishes g env r (fst (advance g env r s st)) (snd (advance g env r s st)) s' st'"
  by (subst finishes.simps) (auto simp: prod_eq_iff)

lemma finishes_Done [simp]: "finishes g env r (Serving t (Done x)) st s' st' \<longleftrightarrow> s' = Serving t (Done x) \<and> st' = st"
  by (rule finishes_ended) simp

lemma finishes_Emitting [simp]:
  "finishes g env r (Serving t (Emitting ev k)) st s' st' \<longleftrightarrow> finishes g env r (Serving t k) (log_twice g ev st) s' st'"
  by (simp add: finishes_goes log_twice_def)

lemma finishes_Failing [simp]:
  "finishes g env r (Serving t (Failing p c w)) st s' st' \<longleftrightarrow>
     s' = Serving t (Done (Return w)) \<and> st' = st\<lparr>monitor_st := RecordError (monitor_st st) (Name p) c (at_record env)\<rparr>"
  by (simp add: finishes_goes)

lemma finishes_Storing:
  "finishes g env r (Serving t (Storing req resp)) st s' st' \<longleftrightarrow>
     s' = Serving t (Done (Return (Write (marshal_response resp) (set_header ''Content-Type'' ''application/json'' no_response))))
     \<and> st' = st\<lparr>cache_st := snd (cache_Set (gw_cache g) (answer_key t req) (marshal_response resp) Hour (cache_st st))\<rparr>"
  by (simp add: finishes_goes)

text \<open>From here to the end a handler does what the function of the source does.\<close>

definition ends_with :: "Tenant \<Rightarrow> response outcome \<times> ('c, 'd, 'k, 'w) gw_state \<Rightarrow> 'w stage \<Rightarrow> ('c, 'd, 'k, 'w) gw_state \<Rightarrow> bool" where
  "ends_with t x s' st' \<longleftrightarrow> s' = Serving t (Done (fst x)) \<and> st' = snd x"

lemma ends_with_simps [simp]: "ends_with t (out, st) s' st' \<longleftrightarrow> s' = Serving t (Done out) \<and> st' = st"
  by (simp add: ends_with_def)

lemma finishes_Streaming:
  "finishes g env r (Serving t (Streaming p req e es a b w)) st s' st' \<longleftrightarrow>
     ends_with t (stream_events g env p req t (can_flush r) e es a b w st) s' st'"
proof (induction es arbitrary: a b w st)
  case Nil
  show ?case by (simp add: finishes_goes)
next
  case (Cons x es)
  show ?case
  proof (cases x)
    case (ErrValue v)
    then show ?thesis using Cons.IH by (cases v) (simp_all add: finishes_goes)
  qed (simp_all add: finishes_goes Cons.IH Let_def)
qed

lemma finishes_Chosen:
  "finishes g env r (Serving t (Chosen p req)) st s' st' \<longleftrightarrow>
     ends_with t (if Stream req then handleStream g env p req t (can_flush r) no_response st
                  else handleSync g env p req t (answer_key t req) no_response st) s' st'"
  by (simp add: finishes_goes finishes_Streaming finishes_Storing handleStream_def handleSync_def stream_head_def Let_def
      split: prod.split outcome.split sum.split)

lemma finishes_Routing:
  "finishes g env r (Serving t (Routing req)) st s' st' \<longleftrightarrow>
     ends_with t (serve_dispatch g env (can_flush r) req t (answer_key t req) st) s' st'"
  by (simp add: finishes_goes [of "Serving t (Routing req)"] finishes_Chosen serve_dispatch_def Let_def
      split: prod.split option.split)

lemma finishes_Decoded:
  "finishes g env r (Serving t (Decoded req)) st s' st' \<longleftrightarrow>
     ends_with t (serve_request g env (can_flush r) req t st) s' st'"
  by (simp add: finishes_goes [of "Serving t (Decoded req)"] finishes_Routing serve_request_def answer_key_def [symmetric] Let_def
      split: prod.split sum.split option.split)

lemma finishes_Known:
  "finishes g env r (Serving t Known) st s' st' \<longleftrightarrow> ends_with t (serve_tenant g env r t st) s' st'"
  by (simp add: finishes_goes [of "Serving t Known"] finishes_Decoded serve_tenant_def Let_def
      split: prod.split option.split)

lemma finishes_Missed:
  "finishes g env r Missed st s' st' \<longleftrightarrow>
     (case gw_tenant g (key_hash (api_key r)) (db_st st) of
        (Inl err, d) \<Rightarrow> s' = Refused (Return (http_Error ''invalid_api_key'' 401 no_response)) \<and> st' = st\<lparr>db_st := d\<rparr>
      | (Inr t, d) \<Rightarrow>
          ends_with t (serve_tenant g env r t (st\<lparr>db_st := d, cache_st := snd (cache_Set (gw_cache g)
             (tenant_key (key_hash (api_key r))) (marshal_tenant t) (5 * Minute) (cache_st st))\<rparr>)) s' st')"
  by (simp add: finishes_goes [of Missed] finishes_goes [of "Serving _ Found"] finishes_Known finishes_ended
      split: prod.split sum.split)

lemma finishes_Arrived:
  "finishes g env r Arrived st s' st' \<longleftrightarrow>
     s' = (case served_tenant g r st of
             None \<Rightarrow> Refused (fst (ServeHTTP g env r st))
           | Some t \<Rightarrow> Serving t (Done (fst (ServeHTTP g env r st))))
     \<and> st' = snd (ServeHTTP g env r st)"
  by (simp add: finishes_goes [of Arrived] finishes_Missed finishes_Known finishes_ended ServeHTTP_def lookup_tenant_def
      served_tenant_def ends_with_def split: prod.split sum.split option.split)

section \<open>Handlers side by side\<close>

text \<open>A handler with its request and what the outside contributes to it.\<close>

type_synonym 'w job = "environment \<times> request \<times> 'w stage"

type_synonym ('c, 'd, 'k, 'w) pool = "'w job list \<times> ('c, 'd, 'k, 'w) gw_state"

text \<open>A crash in one of them ends the process.\<close>

definition crashed :: "'w job list \<Rightarrow> bool" where
  "crashed js \<longleftrightarrow> list_ex (\<lambda>(env, r, s). \<exists>m. outcome_of s = Some (Crash m)) js"

inductive pool_step ::
  "('c, 'd, 'k, 'w) gateway \<Rightarrow> 'w job \<Rightarrow> ('c, 'd, 'k, 'w) pool \<Rightarrow> ('c, 'd, 'k, 'w) pool \<Rightarrow> bool" for g where
  turn: "\<not> crashed js \<Longrightarrow> i < length js \<Longrightarrow> js ! i = (env, r, s) \<Longrightarrow> outcome_of s = None \<Longrightarrow>
     advance g env r s st = (s', st') \<Longrightarrow> pool_step g (env, r, s) (js, st) (js[i := (env, r, s')], st')"

text \<open>A run keeps the handlers as they were before each of their steps.\<close>

inductive pool_run ::
  "('c, 'd, 'k, 'w) gateway \<Rightarrow> ('c, 'd, 'k, 'w) pool \<Rightarrow> 'w job list \<Rightarrow> ('c, 'd, 'k, 'w) pool \<Rightarrow> bool" for g P where
  start: "pool_run g P [] P"
| next_turn: "pool_run g P tr Q \<Longrightarrow> pool_step g job Q R \<Longrightarrow> pool_run g P (tr @ [job]) R"

inductive_cases pool_stepE: "pool_step g job (js, st) (js', st')"

lemma pool_step_jobs:
  assumes "pool_step g job (js, st) (js', st')"
  obtains env r s s' M where "job = (env, r, s)" "outcome_of s = None" "advance g env r s st = (s', st')"
    "mset js = add_mset (env, r, s) M" "mset js' = add_mset (env, r, s') M"
  using assms
proof cases
  case (turn i env r s s')
  let ?M = "mset js - {#(env, r, s)#}"
  have "(env, r, s) \<in># mset js" using turn(4,5) by (metis nth_mem_mset)
  then have "mset js = add_mset (env, r, s) ?M" by simp
  moreover have "mset js' = add_mset (env, r, s') ?M" using turn(2,4,5) by (simp add: mset_update)
  ultimately show thesis using that turn by blast
qed

lemma pool_run_induct [consumes 1, case_names start step]:
  assumes "pool_run g (js0, st0) tr (js, st)" and "P [] js0 st0"
    and "\<And>tr js st env r s s' M st' js'. pool_run g (js0, st0) tr (js, st) \<Longrightarrow> P tr js st \<Longrightarrow> outcome_of s = None \<Longrightarrow>
      advance g env r s st = (s', st') \<Longrightarrow> mset js = add_mset (env, r, s) M \<Longrightarrow> mset js' = add_mset (env, r, s') M \<Longrightarrow>
      P (tr @ [(env, r, s)]) js' st'"
  shows "P tr js st"
  using assms(1)
proof (induction tr "(js, st)" arbitrary: js st rule: pool_run.induct)
  case (next_turn tr Q job)
  obtain js1 st1 where Q: "Q = (js1, st1)" by fastforce
  have "pool_step g job (js1, st1) (js, st)" using next_turn(3) by (simp add: Q)
  then obtain env r s s' M where "job = (env, r, s)" "outcome_of s = None" "advance g env r s st1 = (s', st)"
    "mset js1 = add_mset (env, r, s) M" "mset js = add_mset (env, r, s') M"
    by (rule pool_step_jobs)
  with assms(3) next_turn(1,2) show ?case by (simp add: Q)
qed (use assms(2) in simp)

text \<open>What every job of a pool satisfies, with the pool as a multiset.\<close>

lemma jobs_swapped:
  assumes "mset js = add_mset x M" "mset js' = add_mset y M"
  shows "list_all P js \<longleftrightarrow> P x \<and> (\<forall>z \<in># M. P z)" "list_all P js' \<longleftrightarrow> P y \<and> (\<forall>z \<in># M. P z)"
    and "length (filter P js') + (if P x then 1 else 0) = length (filter P js) + (if P y then 1 else 0)"
proof -
  have "set_mset (mset js) = insert x (set_mset M)" "set_mset (mset js') = insert y (set_mset M)" using assms by simp_all
  then show "list_all P js \<longleftrightarrow> P x \<and> (\<forall>z \<in># M. P z)" "list_all P js' \<longleftrightarrow> P y \<and> (\<forall>z \<in># M. P z)"
    by (simp_all add: list_all_iff)
  have "length (filter P xs) = size (filter_mset P (mset xs))" for xs by (metis mset_filter size_mset)
  then show "length (filter P js') + (if P x then 1 else 0) = length (filter P js) + (if P y then 1 else 0)"
    using assms by simp
qed

end
