(* ===== verification/Handlers_Correct.thy ===== *)
theory Handlers_Correct
  imports Handlers Server
begin

text \<open>What every step of a handler keeps, and hence every run of handlers side by side.\<close>

section \<open>The tenant a handler serves\<close>

fun stage_ok :: "request \<Rightarrow> 'w stage \<Rightarrow> bool" where
  "stage_ok r (Serving t k) = (APIKeyHash t = key_hash (api_key r) \<and> tenant_valid t)"
| "stage_ok r (Refused out) = (\<exists>m. out = Return (http_Error m 401 no_response))"
| "stage_ok r s = True"

text \<open>An answer a handler has stored: tenant, model, digest of the messages, bytes.\<close>

fun stored_answer :: "'w stage \<Rightarrow> answer option" where
  "stored_answer (Serving t (Storing req resp)) = Some (ID t, ReqModel req, digest req, marshal_response resp)"
| "stored_answer s = None"

definition stored_answers :: "'w job list \<Rightarrow> answer set" where
  "stored_answers tr = (\<Union>(env, r, s) \<in> set tr. set_option (stored_answer s))"

lemma stored_answers_simps [simp]:
  "stored_answers [] = {}" "stored_answers (tr @ [(env, r, s)]) = set_option (stored_answer s) \<union> stored_answers tr"
  by (auto simp: stored_answers_def)

text \<open>A handler works on the request it decoded, and a cache hit it has sent is one of \<open>A\<close>.\<close>

definition no_hit :: "response \<Rightarrow> bool" where
  "no_hit w \<longleftrightarrow> headers w ''X-Cache'' = None"

definition hit_from :: "answer set \<Rightarrow> request \<Rightarrow> Tenant \<Rightarrow> response \<Rightarrow> bool" where
  "hit_from A r t w \<longleftrightarrow>
     no_hit w \<or> (let req = fst (decode_request (body r)) in (ID t, ReqModel req, digest req, written w) \<in> A)"

fun work_ok :: "answer set \<Rightarrow> request \<Rightarrow> Tenant \<Rightarrow> 'w work \<Rightarrow> bool" where
  "work_ok A r t (Decoded req) = (req = fst (decode_request (body r)))"
| "work_ok A r t (Routing req) = (req = fst (decode_request (body r)))"
| "work_ok A r t (Chosen p req) = (req = fst (decode_request (body r)))"
| "work_ok A r t (Answered p req resp) = (req = fst (decode_request (body r)))"
| "work_ok A r t (Storing req resp) = (req = fst (decode_request (body r)))"
| "work_ok A r t (Failing p c w) = no_hit w"
| "work_ok A r t (Streaming p req e es a b w) = no_hit w"
| "work_ok A r t (Emitting ev k) = work_ok A r t k"
| "work_ok A r t (Broadcasting ev k) = work_ok A r t k"
| "work_ok A r t (Done (Return w)) = hit_from A r t w"
| "work_ok A r t k = True"

lemma hit_from_mono: "hit_from A r t w \<Longrightarrow> A \<subseteq> B \<Longrightarrow> hit_from B r t w"
  by (auto simp: hit_from_def Let_def)

lemma work_ok_mono: "work_ok A r t k \<Longrightarrow> A \<subseteq> B \<Longrightarrow> work_ok B r t k"
  by (induction A r t k rule: work_ok.induct) (auto intro: hit_from_mono)

lemma no_hit_simps [simp]:
  "no_hit no_response" "no_hit (http_Error m c w) = no_hit w" "no_hit (Write b w) = no_hit w"
  "k \<noteq> ''X-Cache'' \<Longrightarrow> no_hit (set_header k v w) = no_hit w" "no_hit stream_head"
  by (auto simp: no_hit_def set_header_def stream_head_def no_response_def)

lemma no_hit_from [simp]: "no_hit w \<Longrightarrow> hit_from A r t w"
  by (simp add: hit_from_def)

section \<open>The cache under a handler\<close>

lemma work_frame: "db_st (snd (work_step g env r t k st)) = db_st st"
  by (cases "(g, env, r, t, k, st)" rule: work_step.cases) (auto simp: Let_def split: prod.split sum.split option.split)

context gateway_env
begin

lemma work_guarded:
  assumes "cache.guarded P (cache_st st)"
    and "k = Found \<Longrightarrow> P (tenant_key (key_hash (api_key r))) (marshal_tenant t)"
    and "\<And>req resp. k = Storing req resp \<Longrightarrow> P (answer_key t req) (marshal_response resp)"
  shows "cache.guarded P (cache_st (snd (work_step g env r t k st)))"
  using assms guarded_after_get [OF assms(1)]
  by (cases "(g, env, r, t, k, st)" rule: work_step.cases)
    (auto simp: Let_def cache.guarded_set split: prod.split sum.split option.split)

lemma advance_guarded:
  assumes "cache.guarded P (cache_st st)"
    and "\<And>t. s = Serving t Found \<Longrightarrow> P (tenant_key (key_hash (api_key r))) (marshal_tenant t)"
    and "\<And>t req resp. s = Serving t (Storing req resp) \<Longrightarrow> P (answer_key t req) (marshal_response resp)"
  shows "cache.guarded P (cache_st (snd (advance g env r s st)))"
proof (cases s)
  case (Serving t k)
  then show ?thesis using work_guarded [OF assms(1), of k r t env] assms(2,3) by (simp add: split_beta)
qed (use assms(1) guarded_after_get [OF assms(1)] in \<open>auto split: prod.split sum.split option.split\<close>)

lemma advance_authentic:
  assumes "gw_inv st" "stage_ok r s" "advance g env r s st = (s', st')"
  shows "gw_inv st' \<and> stage_ok r s'"
proof -
  have a: "cache.guarded authentic (cache_st st)" and d: "db_inv (db_st st)" using assms(1) by (simp_all add: gw_inv_def)
  have "cache.guarded authentic (cache_st (snd (advance g env r s st)))"
    using a
  proof (rule advance_guarded)
    fix t assume "s = Serving t Found"
    with assms(2) show "authentic (tenant_key (key_hash (api_key r))) (marshal_tenant t)" by (intro authentic_tenant) simp_all
  next
    fix t req resp
    show "authentic (answer_key t req) (marshal_response resp)"
      using any_response_authentic by (simp add: any_response_def answer_key_def)
  qed
  moreover have "db_inv (db_st st') \<and> stage_ok r s'"
  proof (cases s)
    case Arrived
    note hit = cache.guarded_hit [OF a]
    have "stage_ok r s' \<and> db_st st' = db_st st"
      using assms(3) Arrived hit [of "tenant_key (key_hash (api_key r))"]
      by (auto simp: authentic_def unmarshal_marshal_tenant split: prod.splits sum.splits option.splits if_splits)
    with d show ?thesis by simp
  next
    case Missed
    then show ?thesis using assms(3) repo.lookup_keeps [OF d, of "key_hash (api_key r)"] repo.found [OF d]
      by (auto split: prod.splits sum.splits)
  next
    case (Serving t k)
    then show ?thesis using assms(2,3) d work_frame [of g env r t k st] by (auto split: prod.splits)
  qed (use assms(2,3) d in auto)
  ultimately show ?thesis using assms(3) by (simp add: gw_inv_def)
qed

lemma pool_authentic:
  assumes "pool_run g (js0, st0) tr (js, st)" "gw_inv st0" "list_all (\<lambda>(env, r, s). stage_ok r s) js0"
  shows "gw_inv st \<and> list_all (\<lambda>(env, r, s). stage_ok r s) js"
  using assms(1)
proof (induction rule: pool_run_induct)
  case (step tr js st env r s s' M st' js')
  note swap = jobs_swapped [OF step.hyps(4,5), of "\<lambda>(env, r, s). stage_ok r s"]
  have "stage_ok r s" using step.IH swap(1) by simp
  with advance_authentic [OF _ _ step.hyps(3)] step.IH swap show ?case by simp
qed (use assms(2,3) in simp)

text \<open>Cached answers come from handlers of the same tenant.\<close>

lemma work_from_answers:
  assumes "cache.guarded (from_answers A) (cache_st st)" "work_ok A r t k" "plain (ID t)"
  defines "B \<equiv> set_option (stored_answer (Serving t k)) \<union> A"
  shows "cache.guarded (from_answers B) (cache_st (snd (work_step g env r t k st)))"
    and "work_ok B r t (fst (work_step g env r t k st))"
proof -
  have AB: "A \<subseteq> B" by (auto simp: B_def)
  then have "cache.guarded (from_answers B) (cache_st st)"
    using assms(1) from_answers_mono by (fastforce simp: cache.guarded_def)
  then show "cache.guarded (from_answers B) (cache_st (snd (work_step g env r t k st)))"
  proof (rule work_guarded)
    show "from_answers B (tenant_key (key_hash (api_key r))) (marshal_tenant t)" by (rule from_answers_tenant)
    fix req resp assume "k = Storing req resp"
    then show "from_answers B (answer_key t req) (marshal_response resp)"
      unfolding answer_key_def using assms(3) by (intro from_answers_own) (simp_all add: B_def)
  qed
  have hit: "hit_from A r t (hit_response v)"
    if "cache_Get (gw_cache g) (answer_key t (fst (decode_request (body r)))) (cache_st st) = (Inr (Some v), c)" for v c
    using cache.guarded_hit [OF assms(1) that] assms(3)
    unfolding from_answers_def answer_key_def by (auto simp: hit_from_def digest_def Let_def)
  have "work_ok A r t (fst (work_step g env r t k st))"
    using assms(2) hit
    by (cases "(g, env, r, t, k, st)" rule: work_step.cases)
      (auto simp: Let_def split: prod.splits sum.splits option.splits outcome.splits stream_end.splits)
  then show "work_ok B r t (fst (work_step g env r t k st))" using AB by (rule work_ok_mono)
qed

end

fun stage_from :: "answer set \<Rightarrow> request \<Rightarrow> 'w stage \<Rightarrow> bool" where
  "stage_from A r (Serving t k) = work_ok A r t k"
| "stage_from A r s = True"

fun plain_stage :: "'w stage \<Rightarrow> bool" where
  "plain_stage (Serving t k) = plain (ID t)"
| "plain_stage s = True"

lemma stage_from_mono: "stage_from A r s \<Longrightarrow> A \<subseteq> B \<Longrightarrow> stage_from B r s"
  by (cases s) (auto intro: work_ok_mono)

context gateway_env
begin

lemma advance_from_answers:
  assumes "cache.guarded (from_answers A) (cache_st st)" "stage_from A r s" "plain_stage s" "advance g env r s st = (s', st')"
  defines "B \<equiv> set_option (stored_answer s) \<union> A"
  shows "cache.guarded (from_answers B) (cache_st st') \<and> stage_from B r s'"
proof (cases s)
  case (Serving t k)
  then show ?thesis
    using work_from_answers [OF assms(1), of r t k env] assms(2-4) by (auto simp: B_def split: prod.splits)
next
  case Arrived
  then have "cache.guarded (from_answers A) (cache_st st')"
    using advance_guarded [OF assms(1), of s r env] assms(4) by simp
  then show ?thesis using Arrived assms(4) by (auto simp: B_def split: prod.splits sum.splits option.splits if_splits)
next
  case Missed
  then show ?thesis using assms(1,4) by (auto simp: B_def split: prod.splits sum.splits)
qed (use assms(1,4) in \<open>auto simp: B_def\<close>)

lemma pool_from_answers:
  assumes "pool_run g (js0, st0) tr (js, st)" "cache.guarded (from_answers {}) (cache_st st0)"
    and "list_all (\<lambda>(env, r, s). s = Arrived) js0" "list_all (\<lambda>(env, r, s). plain_stage s) tr"
  shows "cache.guarded (from_answers (stored_answers tr)) (cache_st st)
    \<and> list_all (\<lambda>(env, r, s). stage_from (stored_answers tr) r s) js"
  using assms(1,4)
proof (induction rule: pool_run_induct)
  case start
  from assms(2,3) show ?case by (auto simp: list_all_iff)
next
  case (step tr js st env r s s' M st' js')
  let ?P = "\<lambda>A (env, r, s). stage_from A r s"
  note swap = jobs_swapped [OF step.hyps(4,5), of "?P A" for A]
  have p: "list_all (\<lambda>(env, r, s). plain_stage s) tr" "plain_stage s" using step.prems by simp_all
  from step.IH [OF p(1)] have i: "cache.guarded (from_answers (stored_answers tr)) (cache_st st)"
    "stage_from (stored_answers tr) r s" "\<forall>z \<in># M. ?P (stored_answers tr) z"
    using swap(1) by simp_all
  let ?B = "stored_answers (tr @ [(env, r, s)])"
  have "\<forall>z \<in># M. ?P ?B z" using i(3) stage_from_mono [of "stored_answers tr" _ _ ?B] by fastforce
  with advance_from_answers [OF i(1,2) p(2) step.hyps(3)] swap(2) show ?case by simp
qed

end

section \<open>The limiter under the handlers\<close>

fun limiter_call :: "environment \<Rightarrow> 'w stage \<Rightarrow> rl_request option" where
  "limiter_call env (Serving t Known) =
     (if budget_exhausted t then None
      else Some \<lparr>tenant_of = ID t, limit_of = RateLimitRPM t, created_at = at_bucket env, checked_at = at_refill env\<rparr>)"
| "limiter_call env s = None"

fun limiter_calls :: "'w job list \<Rightarrow> rl_request list" where
  "limiter_calls [] = []"
| "limiter_calls ((env, r, s) # tr) = (case limiter_call env s of None \<Rightarrow> [] | Some q \<Rightarrow> [q]) @ limiter_calls tr"

lemma limiter_calls_append [simp]: "limiter_calls (tr @ tr') = limiter_calls tr @ limiter_calls tr'"
  by (induction tr rule: limiter_calls.induct) simp_all

text \<open>Handlers of a tenant that the limiter has let through.\<close>

fun past_work :: "'w work \<Rightarrow> bool" where
  "past_work Found = False"
| "past_work Known = False"
| "past_work (Done out) = (\<not> rejected out)"
| "past_work k = True"

fun past_limiter :: "string \<Rightarrow> 'w stage \<Rightarrow> bool" where
  "past_limiter u (Serving t k) = (ID t = u \<and> past_work k)"
| "past_limiter u s = False"

lemma advance_limiter:
  "limiter_st (snd (advance g env r s st)) =
     (case limiter_call env s of None \<Rightarrow> limiter_st st | Some q \<Rightarrow> snd (serve (limiter_st st) q))"
proof (cases s)
  case (Serving t k)
  have "limiter_st (snd (work_step g env r t k st)) =
      (case limiter_call env (Serving t k) of None \<Rightarrow> limiter_st st | Some q \<Rightarrow> snd (serve (limiter_st st) q))"
    by (cases "(g, env, r, t, k, st)" rule: work_step.cases)
      (auto simp: Let_def serve_def split: prod.split sum.split option.split)
  then show ?thesis using Serving by (simp add: split_beta)
qed (auto split: prod.split sum.split option.split)

lemma work_past:
  assumes "past_work (fst (work_step g env r t k st))"
  shows "past_work k \<or> (\<exists>q. limiter_call env (Serving t k) = Some q \<and> tenant_of q = ID t \<and> admits (fst (serve (limiter_st st) q)))"
  using assms
  by (cases "(g, env, r, t, k, st)" rule: work_step.cases)
    (auto simp: Let_def serve_def rejected_def value_or_def split: prod.splits sum.splits option.splits if_splits)

lemma advance_past:
  assumes "past_limiter u (fst (advance g env r s st))"
  shows "past_limiter u s \<or> (\<exists>q. limiter_call env s = Some q \<and> tenant_of q = u \<and> admits (fst (serve (limiter_st st) q)))"
proof (cases s)
  case (Serving t k)
  then show ?thesis using assms work_past [of g env r t k st] by (auto simp: split_beta)
qed (use assms in \<open>auto split: prod.splits sum.splits option.splits if_splits\<close>)

lemma after_requests_append: "after_requests tb (xs @ ys) = after_requests (after_requests tb xs) ys"
  by (induction tb xs rule: after_requests.induct) simp_all

lemma admitted_append: "admitted u tb (xs @ ys) = admitted u tb xs + admitted u (after_requests tb xs) ys"
  by (induction xs arbitrary: tb) (simp_all add: split_beta Let_def)

lemma pool_limiter:
  assumes "pool_run g (js0, st0) tr (js, st)" "list_all (\<lambda>(env, r, s). s = Arrived) js0"
  shows "limiter_st st = after_requests (limiter_st st0) (limiter_calls tr)
    \<and> length (filter (\<lambda>(env, r, s). past_limiter u s) js) \<le> admitted u (limiter_st st0) (limiter_calls tr)"
  using assms(1)
proof (induction rule: pool_run_induct)
  case start
  have "filter (\<lambda>(env, r, s). past_limiter u s) js0 = []" using assms(2) by (auto simp: filter_empty_conv list_all_iff)
  then show ?case by simp
next
  case (step tr js st env r s s' M st' js')
  let ?P = "\<lambda>(env, r, s). past_limiter u s"
  note swap = jobs_swapped(3) [OF step.hyps(4,5), of ?P]
  have l: "limiter_st st' = (case limiter_call env s of None \<Rightarrow> limiter_st st | Some q \<Rightarrow> snd (serve (limiter_st st) q))"
    and p: "past_limiter u s' \<Longrightarrow> past_limiter u s
        \<or> (\<exists>q. limiter_call env s = Some q \<and> tenant_of q = u \<and> admits (fst (serve (limiter_st st) q)))"
    using advance_limiter [of g env r s st] advance_past [of u g env r s st] step.hyps(3) by simp_all
  show ?case
  proof (cases "limiter_call env s")
    case None
    with l p swap step.IH show ?thesis by (auto split: if_splits)
  next
    case (Some q)
    have "admitted u (limiter_st st0) (limiter_calls (tr @ [(env, r, s)])) =
        admitted u (limiter_st st0) (limiter_calls tr) + (if tenant_of q = u \<and> admits (fst (serve (limiter_st st) q)) then 1 else 0)"
      using step.IH Some by (simp add: admitted_append split_beta Let_def)
    moreover have "limiter_st st' = after_requests (limiter_st st0) (limiter_calls (tr @ [(env, r, s)]))"
      using step.IH Some l by (simp add: after_requests_append)
    ultimately show ?thesis using Some p swap step.IH by (auto split: if_splits)
  qed
qed

section \<open>A provider that was failed while its answers were awaited\<close>

text \<open>Handlers whose provider may still report a success.\<close>

fun awaited_work :: "string \<Rightarrow> 'w work \<Rightarrow> bool" where
  "awaited_work n (Chosen p req) = (Name p = n \<and> \<not> Stream req)"
| "awaited_work n (Answered p req resp) = (Name p = n)"
| "awaited_work n (Emitting ev k) = awaited_work n k"
| "awaited_work n (Broadcasting ev k) = awaited_work n k"
| "awaited_work n k = False"

fun awaited :: "string \<Rightarrow> 'w stage \<Rightarrow> bool" where
  "awaited n (Serving t k) = awaited_work n k"
| "awaited n s = False"

text \<open>Since the failure at most \<open>j\<close> successes were recorded.\<close>

definition held :: "string \<Rightarrow> nat \<Rightarrow> EWMAMonitor \<Rightarrow> bool" where
  "held n j m \<longleftrightarrow> monitor_wf m \<and> (\<exists>l e. view m n = (l, Fin e) \<and> (9 / 10) ^ j - 10 * ewma_slack \<le> e)"

lemma held_view:
  assumes "held n j m"
  obtains l e where "monitor_wf m" "view m n = (Fin l, Fin e)" "0 \<le> e" "e \<le> 1" "0 \<le> l" "within_latencies 0 max_latency l"
    "(9 / 10) ^ j - 10 * ewma_slack \<le> e"
  using assms view_wf [of m n] by (force simp: held_def)

lemma err_up_held: "0 \<le> e \<Longrightarrow> e \<le> 1 \<Longrightarrow> (9 / 10) ^ j - 10 * ewma_slack \<le> e \<Longrightarrow> (9 / 10) ^ j - 10 * ewma_slack \<le> err_up e"
  using err_up_approx [of e] power_le_one [of "9 / 10 :: rat" j] unfolding abs_le_iff by linarith

lemma err_down_held: "0 \<le> e \<Longrightarrow> e \<le> 1 \<Longrightarrow> (9 / 10) ^ j - 10 * ewma_slack \<le> e \<Longrightarrow> (9 / 10) ^ Suc j - 10 * ewma_slack \<le> err_down e"
  using err_down_approx [of e] unfolding abs_le_iff power_Suc by linarith

interpretation held: monitor_calls "held n j" "\<lambda>p. p \<noteq> n" for n j
proof
  fix m c
  assume h: "held n j m" and c: "call_ok c" "\<And>p. is_success_for p c \<Longrightarrow> p \<noteq> n"
  obtain l e where v: "monitor_wf m" "view m n = (Fin l, Fin e)" "0 \<le> e" "e \<le> 1" "(9 / 10) ^ j - 10 * ewma_slack \<le> e"
    using h by (rule held_view)
  have "(9 / 10) ^ j - 10 * ewma_slack \<le> 1" using v(4,5) by linarith
  with v c err_up_held [OF v(3-5)] show "held n j (perform_call c m)"
    using perform_call_wf [OF v(1) c(1)] view_perform [OF v(1), of c]
    by (cases c) (auto simp: held_def abstract_error one_float64_def simp del: perform_call.simps abstract_call.simps(2))
qed

lemma held_failure:
  assumes "monitor_wf m"
  shows "held n 0 (perform_call (CallForceFailure n stamp) m)"
proof -
  let ?m = "perform_call (CallForceFailure n stamp) m"
  have "snd (view ?m n) = Fin 1"
    using view_perform [OF assms, of "CallForceFailure n stamp"] by (cases "view m n") (simp add: one_float64_def)
  moreover have "monitor_wf ?m" by (rule perform_call_wf [OF assms]) simp
  ultimately show ?thesis by (cases "view ?m n") (auto simp: held_def ewma_slack_def)
qed

lemma held_success:
  assumes "held n j m" "u \<le> v"
  shows "held n (Suc j) (RecordSuccess m n (time_Sub v u) t)"
proof -
  let ?c = "CallSuccess n (time_Sub v u) t"
  obtain l e where h: "monitor_wf m" "view m n = (Fin l, Fin e)" "0 \<le> e" "e \<le> 1" "0 \<le> l" "within_latencies 0 max_latency l"
    "(9 / 10) ^ j - 10 * ewma_slack \<le> e"
    using assms(1) by (rule held_view)
  have ok: "call_ok ?c" using assms(2) by (simp add: time_Sub_nonneg)
  have "snd (view (perform_call ?c m) n) = Fin (err_down e)"
    using view_perform [OF h(1), of ?c] abstract_success [OF h(3-6), of "time_Sub v u" n t] h(2) ok by (simp del: abstract_call.simps)
  then show ?thesis using perform_call_wf [OF h(1) ok] err_down_held [OF h(3,4,7)] unfolding held_def
    by (metis perform_call.simps(1) prod.collapse)
qed

lemma held_unhealthy:
  assumes "held n j m" "j \<le> 6"
  shows "monitor_state m n = StateUnhealthy"
proof -
  obtain l e where h: "view m n = (Fin l, Fin e)" "(9 / 10) ^ j - 10 * ewma_slack \<le> e"
    using assms(1) by (rule held_view)
  have "(9 / 10 :: rat) ^ 6 \<le> (9 / 10) ^ j" using assms(2) by (intro power_decreasing) simp_all
  moreover have "1 / 2 < (9 / 10 :: rat) ^ 6 - 10 * ewma_slack" by (simp add: ewma_slack_def power_numeral_reduce)
  ultimately have "1 / 2 < e" using h(2) by linarith
  then show ?thesis using h(1) by (simp add: monitor_state_view state_of_averages_Fin del: state_of_averages.simps)
qed

text \<open>A step records a success of the provider and ends a wait for it, or does neither.\<close>

lemma work_held:
  assumes "held n j (monitor_st st)" "j \<le> 6" "length (gw_providers g) \<le> 12" "at_start env \<le> at_reply env"
    and "work_step g env r t k st = (k', st')"
  shows "held n (Suc j) (monitor_st st') \<and> awaited_work n k \<and> \<not> awaited_work n k'
    \<or> held n j (monitor_st st') \<and> (awaited_work n k' \<longrightarrow> awaited_work n k)"
  using assms(5)
proof (cases "(g, env, r, t, k, st)" rule: work_step.cases)
  case (4 g' env' r' t' req st1)
  obtain sel m where s: "Select (gw_pdq g) (at_select env) (monitor_st st) (gw_providers g) (value_or [] (ProviderAllowlist t)) = (sel, m)"
    by fastforce
  have "Name p \<noteq> n" if "sel = Some p" for p
    using Select_eligible [OF assms(3)] s that held_unhealthy [OF assms(1,2)] by (fastforce simp: eligible_def)
  then show ?thesis using 4 assms(1,5) held.selecting [OF assms(1)] s by (auto split: option.splits)
next
  case (7 g' env' r' t' p req resp st1)
  then show ?thesis
    using assms(1,4,5) held_success [of n j "monitor_st st" "at_start env" "at_reply env" "at_record env"]
      held.success [of n j "monitor_st st" "Name p" "at_start env" "at_reply env" "at_record env"]
    by (cases "Name p = n") (auto simp: Let_def)
qed (use assms(1) in \<open>auto simp: Let_def intro: held.error split: prod.splits sum.splits outcome.splits option.splits if_splits\<close>)

lemma advance_held:
  assumes "held n j (monitor_st st)" "j \<le> 6" "length (gw_providers g) \<le> 12" "at_start env \<le> at_reply env"
    and "advance g env r s st = (s', st')"
  shows "held n (Suc j) (monitor_st st') \<and> awaited n s \<and> \<not> awaited n s'
    \<or> held n j (monitor_st st') \<and> (awaited n s' \<longrightarrow> awaited n s)"
proof (cases s)
  case (Serving t k)
  then show ?thesis using work_held [OF assms(1-4), of r t k] assms(5) by (auto split: prod.splits)
qed (use assms(1,5) in \<open>auto split: prod.splits sum.splits option.splits if_splits\<close>)

fun reply_later :: "'w job \<Rightarrow> bool" where
  "reply_later (env, r, s) = (at_start env \<le> at_reply env)"

lemma pool_held:
  assumes "pool_run g (js0, st0) tr (js, st)" "held n 0 (monitor_st st0)"
    and "length (filter (\<lambda>(env, r, s). awaited n s) js0) \<le> 6"
    and "length (gw_providers g) \<le> 12" "list_all reply_later js0"
  shows "list_all reply_later js
    \<and> (\<exists>j. held n j (monitor_st st) \<and> j + length (filter (\<lambda>(env, r, s). awaited n s) js) \<le> 6)"
  using assms(1)
proof (induction rule: pool_run_induct)
  case start
  show ?case by (intro conjI exI [of _ 0]) (fact assms(5), fact assms(2), simp only: add_0 assms(3))
next
  case (step tr js st env r s s' M st' js')
  let ?P = "\<lambda>(env, r, s). awaited n s"
  note swap = jobs_swapped [OF step.hyps(4,5)]
  from step.IH obtain j where j: "held n j (monitor_st st)" "j + length (filter ?P js) \<le> 6" by blast
  have t: "at_start env \<le> at_reply env" "list_all reply_later js'"
    using step.IH swap(1,2) [of reply_later] by simp_all
  have "j \<le> 6" using j(2) by simp
  from advance_held [OF j(1) this assms(4) t(1) step.hyps(3)] show ?case
  proof
    assume a: "held n (Suc j) (monitor_st st') \<and> awaited n s \<and> \<not> awaited n s'"
    then have "Suc j + length (filter ?P js') \<le> 6" using swap(3) [of ?P] j(2) by simp
    with a t(2) show ?thesis by blast
  next
    assume a: "held n j (monitor_st st') \<and> (awaited n s' \<longrightarrow> awaited n s)"
    then have "j + length (filter ?P js') \<le> 6" using swap(3) [of ?P] j(2) by (simp split: if_splits)
    with a t(2) show ?thesis by blast
  qed
qed

end
