(* ===== verification/Handlers_Properties.thy ===== *)
theory Handlers_Properties
  imports Handlers_Correct
begin

text \<open>The properties of handlers that run side by side.\<close>

section \<open>The steps are the handler\<close>

lemma run_of_one:
  assumes "pool_run g ([(env, r, Arrived)], st0) tr (js, st)"
  shows "\<exists>s. js = [(env, r, s)] \<and> (\<forall>s' st'. finishes g env r s st s' st' \<longleftrightarrow> finishes g env r Arrived st0 s' st')"
  using assms
proof (induction rule: pool_run_induct)
  case start
  then show ?case by simp
next
  case (step tr js st env' r' s s' M st' js')
  from step.IH obtain s0 where s0: "js = [(env, r, s0)]"
    "\<And>s' st'. finishes g env r s0 st s' st' \<longleftrightarrow> finishes g env r Arrived st0 s' st'" by blast
  have "M = {#}" and e: "env' = env" "r' = r" "s = s0" using step.hyps(4) s0(1) by auto
  then have "js' = [(env, r, s')]" using step.hyps(5) by (metis mset_single_iff)
  then show ?case using s0(2) step.hyps(2,3) e by (simp add: finishes_goes [of s0])
qed

text \<open>A handler can run to its end while the others wait.\<close>

lemma finishes_within:
  assumes "finishes g env r s st s' st'" "pool_run g P tr (xs @ (env, r, s) # ys, st)" "\<not> crashed (xs @ ys)"
  shows "\<exists>tr'. pool_run g P tr' (xs @ (env, r, s') # ys, st')"
  using assms
proof (induction arbitrary: tr)
  case (goes s st s1 st1 s' st')
  let ?js = "xs @ (env, r, s) # ys"
  have "\<not> crashed ?js" using goes(1,6) by (simp add: crashed_def)
  then have "pool_step g (env, r, s) (?js, st) (?js[length xs := (env, r, s1)], st1)"
    using goes(1,2) by (intro turn) simp_all
  then have "pool_run g P (tr @ [(env, r, s)]) (xs @ (env, r, s1) # ys, st1)"
    using pool_run.next_turn [OF goes(5)] by simp
  then show ?case using goes(6) by (rule goes(4))
qed blast


text \<open>
  The two models of the handler agree: a request that has the gateway to itself ends, and its
  steps, from the key to the last byte, give the response and leave the state that \<open>ServeHTTP\<close>
  gives and leaves. What is proved of either is so of the other.
\<close>
lemma handler_steps_compose:
  "(\<exists>tr s. pool_run g ([(env, r, Arrived)], st) tr ([(env, r, s)], st') \<and> outcome_of s = Some out)
     \<longleftrightarrow> ServeHTTP g env r st = (out, st')"
proof
  assume "\<exists>tr s. pool_run g ([(env, r, Arrived)], st) tr ([(env, r, s)], st') \<and> outcome_of s = Some out"
  then obtain tr s where t: "pool_run g ([(env, r, Arrived)], st) tr ([(env, r, s)], st')" "outcome_of s = Some out" by blast
  have "finishes g env r s st' s st'" using t(2) by (simp add: finishes_ended)
  then have "finishes g env r Arrived st s st'" using run_of_one [OF t(1)] by simp
  then show "ServeHTTP g env r st = (out, st')" using t(2) by (auto simp: finishes_Arrived prod_eq_iff split: option.splits)
next
  assume s: "ServeHTTP g env r st = (out, st')"
  obtain s' where f: "finishes g env r Arrived st s' st'" "outcome_of s' = Some out"
    using s by (cases "served_tenant g r st") (auto simp: finishes_Arrived)
  show "\<exists>tr s. pool_run g ([(env, r, Arrived)], st) tr ([(env, r, s)], st') \<and> outcome_of s = Some out"
    using finishes_within [OF f(1), of "([(env, r, Arrived)], st)" "[]" "[]" "[]"] f(2)
    by (auto simp: crashed_def pool_run.start)
qed

section \<open>Every handler ends\<close>

text \<open>What a handler has before it: the stages, and the events of the stream in one of them.\<close>

fun stages_left :: "'w work \<Rightarrow> nat" where
  "stages_left Found = 6"
| "stages_left Known = 5"
| "stages_left (Decoded req) = 4"
| "stages_left (Routing req) = 3"
| "stages_left (Chosen p req) = 2"
| "stages_left (Streaming p req e es a b w) = 1"
| "stages_left (Answered p req resp) = 1"
| "stages_left (Emitting ev k) = stages_left k"
| "stages_left (Broadcasting ev k) = stages_left k"
| "stages_left k = 0"

fun events_left :: "'w work \<Rightarrow> nat" where
  "events_left (Streaming p req e es a b w) = length es"
| "events_left (Emitting ev k) = 2 + events_left k"
| "events_left (Broadcasting ev k) = 1 + events_left k"
| "events_left (Failing p c w) = 1"
| "events_left (Storing req resp) = 1"
| "events_left k = 0"

fun rank :: "'w stage \<Rightarrow> nat \<times> nat" where
  "rank Arrived = (8, 0)"
| "rank Missed = (7, 0)"
| "rank (Refused out) = (0, 0)"
| "rank (Serving t k) = (stages_left k, events_left k)"

definition lower :: "((nat \<times> nat) \<times> (nat \<times> nat)) set" where
  "lower = less_than <*lex*> less_than"

lemma work_lowers:
  assumes "\<And>out. k \<noteq> Done out"
  shows "((stages_left (fst (work_step g env r t k st)), events_left (fst (work_step g env r t k st))), (stages_left k, events_left k)) \<in> lower"
  using assms
  by (cases "(g, env, r, t, k, st)" rule: work_step.cases)
    (auto simp: lower_def Let_def split: prod.split sum.split option.split outcome.split)

lemma advance_lowers: "outcome_of s = None \<Longrightarrow> (rank (fst (advance g env r s st)), rank s) \<in> lower"
proof (cases s)
  case (Serving t k)
  assume "outcome_of s = None"
  then have "k \<noteq> Done out" for out using Serving by auto
  from work_lowers [OF this, of g env r t st] Serving show ?thesis by (simp add: split_beta)
qed (auto simp: lower_def split: prod.split sum.split option.split)

definition pool_rank :: "('c, 'd, 'k, 'w) pool \<Rightarrow> (nat \<times> nat) multiset" where
  "pool_rank P = image_mset (\<lambda>(env, r, s). rank s) (mset (fst P))"

lemma pool_step_lowers: "pool_step g job P Q \<Longrightarrow> (pool_rank Q, pool_rank P) \<in> mult lower"
proof -
  assume a: "pool_step g job P Q"
  obtain js st js' st' where PQ: "P = (js, st)" "Q = (js', st')" by fastforce
  from a obtain env r s s' M where h: "outcome_of s = None" "advance g env r s st = (s', st')"
    "mset js = add_mset (env, r, s) M" "mset js' = add_mset (env, r, s') M"
    unfolding PQ by (rule pool_step_jobs)
  let ?M = "image_mset (\<lambda>(env, r, s). rank s) M"
  have "(?M + {#rank s'#}, ?M + {#rank s#}) \<in> mult lower"
    using advance_lowers [OF h(1), of g env r st] h(2) by (intro one_step_implies_mult) simp_all
  then show ?thesis by (simp add: pool_rank_def PQ h(3,4))
qed

text \<open>
  Given that every call of a provider returns and every request sees finitely many events of
  its stream, as the model has it, handlers end: however their steps are interleaved, there is
  no infinite run, and a run can only stop when every request has its outcome or one of them
  has brought the process down. No request waits for another.
\<close>
lemma handlers_finish:
  "\<not> (\<exists>f. \<forall>i. \<exists>job. pool_step g job (f i) (f (Suc i)))
   \<and> ((\<nexists>job Q. pool_step g job (js, st) Q) \<longleftrightarrow> crashed js \<or> list_all (\<lambda>(env, r, s). outcome_of s \<noteq> None) js)"
proof
  have "wf (mult lower)" unfolding lower_def by (intro wf_mult wf_lex_prod wf_less_than)
  then have "\<not> (\<exists>f. \<forall>i. (f (Suc i), f i) \<in> mult lower)" by (simp add: wf_iff_no_infinite_down_chain)
  then show "\<not> (\<exists>f. \<forall>i. \<exists>job. pool_step g job (f i) (f (Suc i)))"
  proof (rule contrapos_nn)
    assume "\<exists>f. \<forall>i. \<exists>job. pool_step g job (f i) (f (Suc i))"
    then obtain f where "\<forall>i. \<exists>job. pool_step g job (f i) (f (Suc i))" by blast
    then have "\<forall>i. (pool_rank (f (Suc i)), pool_rank (f i)) \<in> mult lower" using pool_step_lowers by blast
    then show "\<exists>f. \<forall>i. (f (Suc i), f i) \<in> mult lower" by (intro exI [of _ "\<lambda>i. pool_rank (f i)"])
  qed
  show "(\<nexists>job Q. pool_step g job (js, st) Q) \<longleftrightarrow> crashed js \<or> list_all (\<lambda>(env, r, s). outcome_of s \<noteq> None) js"
  proof
    assume stuck: "\<nexists>job Q. pool_step g job (js, st) Q"
    show "crashed js \<or> list_all (\<lambda>(env, r, s). outcome_of s \<noteq> None) js"
    proof (rule ccontr)
      assume n: "\<not> (crashed js \<or> list_all (\<lambda>(env, r, s). outcome_of s \<noteq> None) js)"
      then obtain x where x: "x \<in> set js" "\<not> (case x of (env, r, s) \<Rightarrow> outcome_of s \<noteq> None)" by (auto simp: list_all_iff)
      obtain env r s where e: "x = (env, r, s)" by (cases x)
      obtain i where "i < length js" "js ! i = (env, r, s)" using x(1) e by (auto simp: in_set_conv_nth)
      moreover obtain s' st' where "advance g env r s st = (s', st')" by fastforce
      ultimately have "pool_step g (env, r, s) (js, st) (js[i := (env, r, s')], st')" using n x(2) e by (intro turn) auto
      with stuck show False by blast
    qed
  next
    assume d: "crashed js \<or> list_all (\<lambda>(env, r, s). outcome_of s \<noteq> None) js"
    show "\<nexists>job Q. pool_step g job (js, st) Q"
    proof
      assume "\<exists>job Q. pool_step g job (js, st) Q"
      then obtain job js' st' where "pool_step g job (js, st) (js', st')" by fastforce
      then obtain env r s where "(env, r, s) \<in> set js" "outcome_of s = None" "\<not> crashed js"
        by (rule pool_stepE) (metis nth_mem)
      with d show False by (auto simp: list_all_iff)
    qed
  qed
qed

section \<open>Handlers to try them on\<close>

lemma hello_keys: "api_key hello_request = seed_key" "api_key merged_request = seed_key" "seed_key \<noteq> []"
  by (simp_all add: merged_request_def hello_request_def seed_key_def)

text \<open>Two requests of the seeded tenant: the second is answered from the cache.\<close>

definition two_jobs :: "(nat work \<Rightarrow> nat stage) \<Rightarrow> response \<Rightarrow> nat job list" where
  "two_jobs f w = [(hello_env, hello_request, f (Done (Return w))),
     (hello_env, merged_request, f (Done (Return (hit_response (marshal_response hello)))))]"

lemma hello_pool:
  obtains w st tr where
    "pool_run hello_gateway ([(hello_env, hello_request, Arrived), (hello_env, merged_request, Arrived)], hello_state) tr
       (two_jobs (Serving seed_tenant) w, st)"
proof -
  obtain w st1 where s: "ServeHTTP hello_gateway hello_env hello_request hello_state = (Return w, st1)" and
    c: "data (cache_st st1) = [tenant_key seed_hash \<mapsto> marshal_tenant seed_tenant, hello_key \<mapsto> marshal_response hello]" and
    l: "limiter_st st1 = snd (Allow (NewTokenBucket (100 * Millisecond)) ''5e1f'' 100 1 2)"
    by (rule hello_answer)
  let ?g = hello_gateway and ?h = "Serving seed_tenant (Done (Return w))"
  have "served_tenant ?g hello_request hello_state = Some seed_tenant"
    using hello_lookup by (simp add: served_tenant_def hello_keys seed_hash_key)
  then have f1: "finishes ?g hello_env hello_request Arrived hello_state ?h st1" by (simp add: finishes_Arrived s)
  obtain st2 where s2: "ServeHTTP ?g hello_env merged_request st1 = (Return (hit_response (marshal_response hello)), st2)"
    using merged_hit [OF c l] by (metis prod.collapse)
  have "tenant_key seed_hash \<noteq> hello_key" using tenant_key_not_cache_key by (metis hello_key_def)
  then have "served_tenant ?g merged_request st1 = Some seed_tenant" by (intro hello_served) (simp_all add: c hello_keys)
  then have f2: "finishes ?g hello_env merged_request Arrived st1 (Serving seed_tenant (Done (Return (hit_response (marshal_response hello))))) st2"
    by (simp add: finishes_Arrived s2)
  let ?P = "([(hello_env, hello_request, Arrived), (hello_env, merged_request, Arrived)], hello_state)"
  have "\<not> crashed ([] @ [(hello_env, merged_request, Arrived)])" by (simp add: crashed_def)
  from finishes_within [OF f1 _ this, of ?P "[]"] pool_run.start [of ?g ?P]
  obtain tr1 where r1: "pool_run ?g ?P tr1 ([(hello_env, hello_request, ?h), (hello_env, merged_request, Arrived)], st1)" by auto
  have "\<not> crashed ([(hello_env, hello_request, ?h)] @ [])" by (simp add: crashed_def)
  from finishes_within [OF f2 _ this, of ?P tr1] r1 show thesis using that unfolding two_jobs_def by auto
qed

section \<open>Authentication\<close>

text \<open>
  C3: concurrent requests are authenticated: however the steps of any number of handlers are
  interleaved, cache and database stay authentic, a handler that got past the lookup serves
  the tenant whose hash is the SHA-256 of the key its own request sent, and every other
  handler that ended has answered 401.
\<close>
theorem concurrent_requests_authenticated:
  assumes "gateway_env g holds db_inv" and "authentic_state holds db_inv st0"
    and "list_all (\<lambda>(env, r, s). s = Arrived) js0" and "pool_run g (js0, st0) tr (js, st)" and "(env, r, s) \<in> set js"
  shows "authentic_state holds db_inv st
    \<and> (case s of
          Serving t k \<Rightarrow> APIKeyHash t = key_hash (api_key r) \<and> tenant_valid t
        | _ \<Rightarrow> (\<forall>out. outcome_of s = Some out \<longrightarrow> (\<exists>m. out = Return (http_Error m 401 no_response))))"
proof -
  note a = authentic_state_inv [OF assms(1)]
  have "list_all (\<lambda>(env, r, s). stage_ok r s) js0" using assms(3) by (auto simp: list_all_iff)
  with gateway_env.pool_authentic [OF assms(1,4)] assms(2) have
    p: "authentic_state holds db_inv st" "list_all (\<lambda>(env, r, s). stage_ok r s) js" by (simp_all add: a)
  have "stage_ok r s" using p(2) assms(5) by (auto simp: list_all_iff)
  with p(1) show ?thesis by (cases s) auto
qed

theorem concurrent_requests_authenticated_witness:
  "\<exists>tr w st. pool_run hello_gateway ([(hello_env, hello_request, Arrived), (hello_env, merged_request, Arrived)], hello_state) tr
       (two_jobs (Serving seed_tenant) w, st) \<and> authentic_state (\<lambda>m k v. data m k = Some v) table_valid st"
proof -
  obtain w st tr where r: "pool_run hello_gateway ([(hello_env, hello_request, Arrived), (hello_env, merged_request, Arrived)], hello_state) tr
       (two_jobs (Serving seed_tenant) w, st)" by (rule hello_pool)
  have "(hello_env, hello_request, Serving seed_tenant (Done (Return w))) \<in> set (two_jobs (Serving seed_tenant) w)"
    by (simp add: two_jobs_def)
  from concurrent_requests_authenticated [OF hello_env hello_authentic _ r this] r show ?thesis by auto
qed

section \<open>Cached answers\<close>

lemma plain_before:
  assumes "pool_run g (js0, st0) tr (js, st)" "list_all (\<lambda>(env, r, s). plain_stage s) js"
  shows "list_all (\<lambda>(env, r, s). plain_stage s) tr"
  using assms
proof (induction rule: pool_run_induct)
  case (step tr js st env r s s' M st' js')
  note swap = jobs_swapped(1,2) [OF step.hyps(4,5), of "\<lambda>(env, r, s). plain_stage s"]
  have "plain_stage s' \<Longrightarrow> plain_stage s" using step.hyps(3) by (cases s) (auto split: prod.splits)
  then show ?case using step.IH step.prems swap by simp
qed simp

text \<open>
  C16: the response cache does not cross tenants under concurrency either: from an empty
  cache, however the handlers are interleaved, an answer marked as a hit was stored by a
  handler of the same tenant, which had it from a provider for the same model and for
  messages with the same digest. As before, tenant IDs have no colon.
\<close>
theorem concurrent_hits_stay_with_tenant:
  assumes "gateway_env g holds db_inv" and "\<forall>k v. \<not> holds (cache_st st0) k v"
    and "list_all (\<lambda>(env, r, s). s = Arrived) js0" and "pool_run g (js0, st0) tr (js, st)"
    and "list_all (\<lambda>(env, r, s). plain_stage s) js"
    and "(env, r, Serving t (Done (Return w))) \<in> set js" and "headers w ''X-Cache'' = Some ''HIT''"
  shows "\<exists>env' r' t' req resp. (env', r', Serving t' (Storing req resp)) \<in> set tr \<and> ID t' = ID t
    \<and> ReqModel req = ReqModel (fst (decode_request (body r))) \<and> digest req = digest (fst (decode_request (body r)))
    \<and> written w = marshal_response resp"
proof -
  have c: "byte_cache (gw_cache g) holds" using assms(1) by (simp add: gateway_env_def)
  have "byte_cache.guarded holds (from_answers {}) (cache_st st0)" using assms(2) by (simp add: byte_cache.guarded_def [OF c])
  from gateway_env.pool_from_answers [OF assms(1,4) this assms(3) plain_before [OF assms(4,5)]] assms(6)
  have "hit_from (stored_answers tr) r t w" by (auto simp: list_all_iff)
  then have "(ID t, ReqModel (fst (decode_request (body r))), digest (fst (decode_request (body r))), written w) \<in> stored_answers tr"
    using assms(7) by (simp add: hit_from_def no_hit_def Let_def)
  then obtain env' r' s where s: "(env', r', s) \<in> set tr"
    "stored_answer s = Some (ID t, ReqModel (fst (decode_request (body r))), digest (fst (decode_request (body r))), written w)"
    by (auto simp: stored_answers_def)
  from s(2) obtain t' req resp where "s = Serving t' (Storing req resp)" "ID t' = ID t"
    "ReqModel req = ReqModel (fst (decode_request (body r)))" "digest req = digest (fst (decode_request (body r)))"
    "written w = marshal_response resp"
    by (cases s rule: stored_answer.cases) auto
  with s(1) show ?thesis by metis
qed

theorem concurrent_hits_stay_with_tenant_witness:
  "\<exists>tr w st env' r' t' req resp. pool_run hello_gateway ([(hello_env, hello_request, Arrived), (hello_env, merged_request, Arrived)], hello_state) tr
       (two_jobs (Serving seed_tenant) w, st)
     \<and> (env', r', Serving t' (Storing req resp)) \<in> set tr \<and> ID t' = ID seed_tenant \<and> marshal_response hello = marshal_response resp"
proof -
  obtain w st tr where r: "pool_run hello_gateway ([(hello_env, hello_request, Arrived), (hello_env, merged_request, Arrived)], hello_state) tr
       (two_jobs (Serving seed_tenant) w, st)" by (rule hello_pool)
  have e: "\<forall>k v. data (cache_st hello_state) k \<noteq> Some v" by (simp add: hello_state_def NewMemoryCache_def)
  have p: "list_all (\<lambda>(env, r, s). plain_stage s) (two_jobs (Serving seed_tenant) w)"
    by (simp add: two_jobs_def plain_def) (simp add: seed_tenant_def)
  have "(hello_env, merged_request, Serving seed_tenant (Done (Return (hit_response (marshal_response hello)))))
      \<in> set (two_jobs (Serving seed_tenant) w)" by (simp add: two_jobs_def)
  from concurrent_hits_stay_with_tenant [OF hello_env e _ r p this]
  obtain env' r' t' req resp where "(env', r', Serving t' (Storing req resp)) \<in> set tr" "ID t' = ID seed_tenant"
    "marshal_response hello = marshal_response resp" by auto
  with r show ?thesis by blast
qed

section \<open>The rate limit\<close>

text \<open>
  C4: concurrency does not stretch the rate limit: however the handlers are interleaved, the
  requests of a tenant with limit \<open>L\<close> per minute that the limiter has let through, counting
  those still on their way, are at most \<open>L\<close> plus the limit's share of the time between the
  clock readings of the limiter, up to a rounding slack far below one request. The limiter's
  lock puts its calls, and their clock readings, in order.
\<close>
theorem concurrent_requests_keep_rate_limit:
  assumes "limiter_wf c (limiter_st st0)" and "list_all (\<lambda>(env, r, s). s = Arrived) js0"
    and "pool_run g (js0, st0) tr (js, st)" and "timed c (limiter_calls tr)"
    and "limits_ok u L (limiter_calls tr)" and "sane_limit L"
  shows "(of_nat (length (filter (\<lambda>(env, r, s). past_limiter u s) js)) :: rat)
     \<le> of_int L + of_int L / 60 * (of_int (end_time c (limiter_calls tr) - c) / 10 ^ 9) * (1 + 1 / 10 ^ 14)
       + of_nat (length (limiter_calls tr)) * (of_int L / 10 ^ 14)"
proof -
  have "burst L c (limiter_st st0) u \<le> of_int L" by (simp add: burst_def)
  from window_bound [OF assms(1,4,5,6) this] pool_limiter [OF assms(3,2), of u]
  show ?thesis by (meson le_trans of_nat_le_iff order_trans)
qed

text \<open>A handler up to the moment it is admitted.\<close>

lemma hello_admission:
  obtains st where "pool_run hello_gateway ([(hello_env, hello_request, Arrived)], hello_state)
    (map (\<lambda>s. (hello_env, hello_request, s)) [Arrived, Missed, Serving seed_tenant Found, Serving seed_tenant Known])
    ([(hello_env, hello_request, Serving seed_tenant (Decoded hello_chat))], st)"
proof -
  let ?g = hello_gateway and ?j = "\<lambda>s. (hello_env, hello_request, s)"
  have one: "pool_run ?g P tr ([?j s], st) \<Longrightarrow> outcome_of s = None \<Longrightarrow> advance ?g hello_env hello_request s st = (s', st')
      \<Longrightarrow> pool_run ?g P (tr @ [?j s]) ([?j s'], st')" for P tr s s' st st'
    using pool_run.next_turn [of ?g P tr "([?j s], st)" "?j s" "([?j s'], st')"]
      pool_step.turn [of "[?j s]" 0 hello_env hello_request s ?g st s' st'] by (simp add: crashed_def)
  let ?st = "hello_state\<lparr>cache_st := \<lparr>data = [tenant_key seed_hash \<mapsto> marshal_tenant seed_tenant]\<rparr>\<rparr>"
  have a1: "advance ?g hello_env hello_request Arrived hello_state = (Missed, hello_state)"
    by (simp add: hello_keys hello_gateway_def gateway_over_def memory_cache_def memory_Get_def hello_state_def NewMemoryCache_def)
  have a2: "advance ?g hello_env hello_request Missed hello_state = (Serving seed_tenant Found, hello_state)"
    by (simp add: hello_keys seed_hash_key hello_gateway_def gateway_over_def GetTenantByAPIKeyHash_def deliver_def hello_state_def)
      (simp add: seed_tenant_def)
  have a3: "advance ?g hello_env hello_request (Serving seed_tenant Found) hello_state = (Serving seed_tenant Known, ?st)"
    by (simp add: hello_keys seed_hash_key hello_gateway_def gateway_over_def memory_cache_def memory_Set_def hello_state_def NewMemoryCache_def)
  obtain rl tb where al: "Allow (NewTokenBucket (100 * Millisecond)) ''5e1f'' 100 1 2 = (rl, tb)" "admits rl"
    using hello_admitted by (cases "Allow (NewTokenBucket (100 * Millisecond)) ''5e1f'' 100 1 2") auto
  have a4: "advance ?g hello_env hello_request (Serving seed_tenant Known) ?st
      = (Serving seed_tenant (Decoded hello_chat), ?st\<lparr>limiter_st := tb\<rparr>)"
    using al hello_decodes by (simp add: budget_exhausted_def hello_state_def hello_env_def) (simp add: seed_tenant_def)
  have "pool_run ?g ([?j Arrived], hello_state) [] ([?j Arrived], hello_state)" by (rule pool_run.start)
  from one [OF one [OF one [OF one [OF this _ a1] _ a2] _ a3] _ a4] show thesis using that by simp
qed

theorem concurrent_requests_keep_rate_limit_witness:
  "\<exists>st tr. pool_run hello_gateway ([(hello_env, hello_request, Arrived)], hello_state) tr
     ([(hello_env, hello_request, Serving seed_tenant (Decoded hello_chat))], st)
     \<and> (1 :: rat) \<le> 100 + 100 / 60 * (2 / 10 ^ 9) * (1 + 1 / 10 ^ 14) + 1 * (100 / 10 ^ 14)"
proof -
  let ?tr = "map (\<lambda>s. (hello_env, hello_request, s)) [Arrived, Missed, Serving seed_tenant Found, Serving seed_tenant Known]"
  obtain st where r: "pool_run hello_gateway ([(hello_env, hello_request, Arrived)], hello_state) ?tr
    ([(hello_env, hello_request, Serving seed_tenant (Decoded hello_chat))], st)" by (rule hello_admission)
  have t: "limiter_calls ?tr = [\<lparr>tenant_of = ''5e1f'', limit_of = 100, created_at = 1, checked_at = 2\<rparr>]"
    by (simp add: budget_exhausted_def) (simp add: seed_tenant_def hello_env_def)
  have w: "limiter_wf 0 (limiter_st hello_state)" by (simp add: hello_state_def NewTokenBucket_wf)
  have a: "list_all (\<lambda>(env, r, s). s = Arrived) [(hello_env, hello_request, Arrived)]" by simp
  have c: "timed 0 (limiter_calls ?tr)" "limits_ok ''5e1f'' 100 (limiter_calls ?tr)" "sane_limit 100"
    unfolding t by (simp_all add: limits_ok_def sane_limit_def)
  have "ID seed_tenant = ''5e1f''" by (simp add: seed_tenant_def)
  with concurrent_requests_keep_rate_limit [OF w a r c]
  have "(1 :: rat) \<le> 100 + 100 / 60 * (2 / 10 ^ 9) * (1 + 1 / 10 ^ 14) + 1 * (100 / 10 ^ 14)"
    unfolding t by simp
  with r show ?thesis by blast
qed

section \<open>A provider failed by the operator\<close>



end
