(* ===== verification/Live_Server.thy ===== *)
theory Live_Server
  imports Handlers_Correct Gateway_Billing
begin

text \<open>
  The running program of \<open>main.go\<close> with requests that overlap: any number of handlers, each
  somewhere in its request, and beside them the admin interface and the budget processor, whose
  calls act on what is shared between two steps of the handlers. Requests arrive at any time.
\<close>

section \<open>Steps of the live server\<close>

type_synonym ('c, 'd, 'k, 'w, 'a) live = "'w job list \<times> ('c, 'd, 'k, 'w, 'a) server_state"

datatype ('c, 'd, 'k, 'w, 'a) live_event =
    Turn "('c, 'd, 'k, 'w, 'a) server" "'w job"
  | Arrival environment request
  | Aside "('c, 'd, 'k, 'w, 'a) server" server_event

text \<open>Chat requests are the handlers' part; what is left touches one shared part only.\<close>

fun beside_handlers :: "server_event \<Rightarrow> bool" where
  "beside_handlers (Call (Completion env r)) = False"
| "beside_handlers ev = True"

text \<open>
  Each step has the parts as they behave at that moment: the faults of the connections and the
  keys the database generates are different every time.
\<close>

inductive live_step ::
  "('c, 'd, 'k, 'w, 'a) live_event \<Rightarrow> ('c, 'd, 'k, 'w, 'a) live \<Rightarrow> ('c, 'd, 'k, 'w, 'a) live \<Rightarrow> bool" where
  turn: "\<not> crashed js \<Longrightarrow> i < length js \<Longrightarrow> js ! i = (env, r, x) \<Longrightarrow> outcome_of x = None \<Longrightarrow>
     advance (chat_api srv) env r x (chat_st s) = (x', st') \<Longrightarrow>
     live_step (Turn srv (env, r, x)) (js, s) (js[i := (env, r, x')], s\<lparr>chat_st := st'\<rparr>)"
| arrival: "\<not> crashed js \<Longrightarrow> live_step (Arrival env r) (js, s) (js @ [(env, r, Arrived)], s)"
| aside: "\<not> crashed js \<Longrightarrow> beside_handlers ev \<Longrightarrow> live_step (Aside srv ev) (js, s) (js, server_step srv ev s)"

inductive live_run ::
  "('c, 'd, 'k, 'w, 'a) live \<Rightarrow> ('c, 'd, 'k, 'w, 'a) live_event list \<Rightarrow> ('c, 'd, 'k, 'w, 'a) live \<Rightarrow> bool" for P where
  start: "live_run P [] P"
| next_event: "live_run P tr Q \<Longrightarrow> live_step e Q R \<Longrightarrow> live_run P (tr @ [e]) R"

lemma live_run_induct [consumes 1, case_names start turn arrival aside]:
  assumes "live_run (js0, s0) tr (js, s)" and "P [] js0 s0"
    and "\<And>tr js s srv env r x x' st' M js'. live_run (js0, s0) tr (js, s) \<Longrightarrow> P tr js s \<Longrightarrow> outcome_of x = None \<Longrightarrow>
      advance (chat_api srv) env r x (chat_st s) = (x', st') \<Longrightarrow>
      mset js = add_mset (env, r, x) M \<Longrightarrow> mset js' = add_mset (env, r, x') M \<Longrightarrow>
      P (tr @ [Turn srv (env, r, x)]) js' (s\<lparr>chat_st := st'\<rparr>)"
    and "\<And>tr js s env r. live_run (js0, s0) tr (js, s) \<Longrightarrow> P tr js s \<Longrightarrow>
      P (tr @ [Arrival env r]) (js @ [(env, r, Arrived)]) s"
    and "\<And>tr js s srv ev. live_run (js0, s0) tr (js, s) \<Longrightarrow> P tr js s \<Longrightarrow> beside_handlers ev \<Longrightarrow>
      P (tr @ [Aside srv ev]) js (server_step srv ev s)"
  shows "P tr js s"
  using assms(1)
proof (induction tr "(js, s)" arbitrary: js s rule: live_run.induct)
  case (next_event tr Q e)
  obtain js1 s1 where Q: "Q = (js1, s1)" by fastforce
  note run = next_event(1) [unfolded Q] and IH = next_event(2) [OF Q]
  from next_event(3) [unfolded Q] show ?case
  proof cases
    case (turn i env r x srv x' st')
    let ?M = "mset js1 - {#(env, r, x)#}"
    have "(env, r, x) \<in># mset js1" using turn by (metis nth_mem_mset)
    then have "mset js1 = add_mset (env, r, x) ?M" by simp
    moreover have "mset js = add_mset (env, r, x') ?M" using turn by (simp add: mset_update)
    ultimately show ?thesis using assms(3) [OF run IH] turn by blast
  next
    case (arrival env r)
    then show ?thesis using assms(4) [OF run IH] by simp
  next
    case (aside ev srv)
    then show ?thesis using assms(5) [OF run IH] by simp
  qed
qed (use assms(2) in simp)

section \<open>Authentication\<close>

text \<open>The parts of every step are as \<open>server_env\<close> says.\<close>

fun parts_ok :: "('c \<Rightarrow> string \<Rightarrow> bytes \<Rightarrow> bool) \<Rightarrow> ('d \<Rightarrow> bool) \<Rightarrow> ('c, 'd, 'k, 'w, 'a) live_event \<Rightarrow> bool" where
  "parts_ok holds db_inv (Turn srv job) = server_env srv holds db_inv"
| "parts_ok holds db_inv (Aside srv ev) = server_env srv holds db_inv"
| "parts_ok holds db_inv (Arrival env r) = True"

lemma live_authentic:
  assumes "live_run (js0, s0) tr (js, s)" "list_all (parts_ok holds db_inv) tr"
    and "authentic_state holds db_inv (chat_st s0)" "list_all (\<lambda>(env, r, x). stage_ok r x) js0"
  shows "authentic_state holds db_inv (chat_st s) \<and> list_all (\<lambda>(env, r, x). stage_ok r x) js"
  using assms(1,2)
proof (induction rule: live_run_induct)
  case start
  with assms(3,4) show ?case by simp
next
  case (turn tr js s srv env r x x' st' M js')
  note swap = jobs_swapped [OF turn.hyps(4,5), of "\<lambda>(env, r, x). stage_ok r x"]
  have e: "server_env srv holds db_inv" using turn.prems by simp
  note g = server_env.axioms(1) [OF e] and inv = authentic_state_inv [OF server_env.axioms(1) [OF e]]
  have "stage_ok r x" "authentic_state holds db_inv (chat_st s)" using turn.IH turn.prems swap(1) by simp_all
  with gateway_env.advance_authentic [OF g _ _ turn.hyps(3)] turn.IH turn.prems swap show ?case by (simp add: inv)
next
  case (arrival tr js s env r)
  then show ?case by simp
next
  case (aside tr js s srv ev)
  have e: "server_env srv holds db_inv" using aside.prems by simp
  note inv = authentic_state_inv [OF server_env.axioms(1) [OF e]]
  show ?case using server_env.step_inv [OF e, of s ev] aside.IH aside.prems by (simp add: inv)
qed

section \<open>A provider that was failed\<close>

context monitor_calls
begin

lemma aside:
  assumes "Q (monitor_st (chat_st s))" "beside_handlers ev"
  shows "Q (monitor_st (chat_st (server_step srv ev s)))"
proof (cases ev)
  case (Call c)
  have "Q (monitor_st (chat_st (snd (serve_call srv c s))))"
    by (rule call_from [OF assms(1)]) (use assms(2) Call in simp)
  then show ?thesis by (simp add: Call server_step_def)
qed (use assms(1) in \<open>simp add: server_step_def\<close>)

end

text \<open>At most twelve providers, and clock readings in order.\<close>

fun in_order :: "('c, 'd, 'k, 'w, 'a) live_event \<Rightarrow> bool" where
  "in_order (Turn srv job) = (length (gw_providers (chat_api srv)) \<le> 12)"
| "in_order (Arrival env r) = (at_start env \<le> at_reply env)"
| "in_order (Aside srv ev) = True"

lemma live_held:
  assumes "live_run (js0, s0) tr (js, s)" "list_all in_order tr" "held n 0 (monitor_st (chat_st s0))"
    and "length (filter (\<lambda>(env, r, x). awaited n x) js0) \<le> 6" "list_all reply_later js0"
  shows "list_all reply_later js
    \<and> (\<exists>j. held n j (monitor_st (chat_st s)) \<and> j + length (filter (\<lambda>(env, r, x). awaited n x) js) \<le> 6)"
  using assms(1,2)
proof (induction rule: live_run_induct)
  case start
  show ?case by (intro conjI exI [of _ 0]) (fact assms(5), fact assms(3), simp only: add_0 assms(4))
next
  case (turn tr js s srv env r x x' st' M js')
  let ?P = "\<lambda>(env, r, x). awaited n x"
  note swap = jobs_swapped [OF turn.hyps(4,5)]
  have tr: "list_all in_order tr" "length (gw_providers (chat_api srv)) \<le> 12" using turn.prems by simp_all
  from turn.IH [OF tr(1)] obtain j where j: "held n j (monitor_st (chat_st s))" "j + length (filter ?P js) \<le> 6" by blast
  have t: "at_start env \<le> at_reply env" "list_all reply_later js'"
    using turn.IH [OF tr(1)] swap(1,2) [of reply_later] by simp_all
  have "j \<le> 6" using j(2) by simp
  from advance_held [OF j(1) this tr(2) t(1) turn.hyps(3)] show ?case
  proof
    assume a: "held n (Suc j) (monitor_st st') \<and> awaited n x \<and> \<not> awaited n x'"
    then have "Suc j + length (filter ?P js') \<le> 6" using swap(3) [of ?P] j(2) by simp
    then show ?thesis using a t(2) by (intro conjI exI [of _ "Suc j"]) simp_all
  next
    assume a: "held n j (monitor_st st') \<and> (awaited n x' \<longrightarrow> awaited n x)"
    then have "j + length (filter ?P js') \<le> 6" using swap(3) [of ?P] j(2) by (simp split: if_splits)
    then show ?thesis using a t(2) by (intro conjI exI [of _ j]) simp_all
  qed
next
  case (arrival tr js s env r)
  then show ?case by simp
next
  case (aside tr js s srv ev)
  then show ?case using held.aside [of n] by fastforce
qed

section \<open>What is logged\<close>

text \<open>The answer of a provider a handler has logged: the tenant's ID and the body of the answer.\<close>

fun answered_work :: "Tenant \<Rightarrow> 'w work \<Rightarrow> (string \<times> bytes) list" where
  "answered_work t (Broadcasting ev (Storing req resp)) = [(ID t, marshal_response resp)]"
| "answered_work t (Storing req resp) = [(ID t, marshal_response resp)]"
| "answered_work t (Done out) = (case fresh_body out of Some b \<Rightarrow> [(ID t, b)] | None \<Rightarrow> [])"
| "answered_work t k = []"

fun answered :: "'w job \<Rightarrow> (string \<times> bytes) list" where
  "answered (env, r, Serving t k) = answered_work t k"
| "answered (env, r, x) = []"

text \<open>The answer whose record a step hands to the logger.\<close>

fun logged :: "('c, 'd, 'k, 'w, 'a) live_event \<Rightarrow> (string \<times> bytes) list" where
  "logged (Turn srv (env, r, Serving t (Emitting ev (Storing req resp)))) = [(ID t, marshal_response resp)]"
| "logged e = []"

text \<open>
  The record of an answer says what it cost and whom; the other record a handler may log,
  that of a stream, has no cost. No response but that of a fresh answer looks like one.
\<close>

definition no_answer :: "response \<Rightarrow> bool" where
  "no_answer w \<longleftrightarrow> headers w ''Content-Type'' \<noteq> Some ''application/json''"

fun records_ok :: "environment \<Rightarrow> Tenant \<Rightarrow> 'w work \<Rightarrow> bool" where
  "records_ok env t (Failing p c w) = no_answer w"
| "records_ok env t (Streaming p req e es a b w) = no_answer w"
| "records_ok env t (Emitting ev (Storing req resp)) =
     (\<exists>name. ev = sync_event t name resp (time_Sub (at_reply env) (at_start env)) (at_log env))"
| "records_ok env t (Emitting ev (Done out)) = (fresh_body out = None \<and> CostCents ev = 0)"
| "records_ok env t (Emitting ev k) = False"
| "records_ok env t (Broadcasting ev (Storing req resp)) = True"
| "records_ok env t (Broadcasting ev (Done out)) = (fresh_body out = None)"
| "records_ok env t (Broadcasting ev k) = False"
| "records_ok env t k = True"

fun job_records_ok :: "'w job \<Rightarrow> bool" where
  "job_records_ok (env, r, Serving t k) = records_ok env t k"
| "job_records_ok (env, r, Refused out) = (fresh_body out = None)"
| "job_records_ok (env, r, x) = True"

lemma no_answer_simps [simp]:
  "no_answer stream_head" "no_answer (http_Error m c w)" "no_answer (Write b w) = no_answer w"
  by (simp_all add: no_answer_def stream_head_def http_Error_def set_header_def WriteHeader_def split: option.split)

lemma no_answer_fresh [simp]: "no_answer w \<Longrightarrow> fresh_body (Return w) = None"
  by (simp add: no_answer_def fresh_body_def)

lemma fresh_answer [simp]:
  "fresh_body (Return (Write b (set_header ''Content-Type'' ''application/json'' no_response))) = Some b"
  by (simp add: fresh_body_def status_of_def Write_def WriteHeader_def set_header_def no_response_def value_or_def)

lemma stream_log_cost [simp]: "CostCents (stream_log t name model a b latency stamp) = 0"
  by (simp add: stream_log_def zero_event_def)

lemma work_records:
  assumes "records_ok env t k"
  shows "records_ok env t (fst (work_step g env r t k st))"
    and "mset (answered_work t (fst (work_step g env r t k st)))
       = mset (answered_work t k) + mset (logged (Turn srv (env, r, Serving t k)))"
  using assms
  by (cases "(g, env, r, t, k, st)" rule: work_step.cases; cases "(env, t, k)" rule: records_ok.cases;
      force simp: Let_def split: prod.splits sum.splits option.splits outcome.splits stream_end.splits if_splits)+

lemma advance_records:
  assumes "job_records_ok (env, r, x)" "advance (chat_api srv) env r x st = (x', st')"
  shows "job_records_ok (env, r, x')"
    and "mset (answered (env, r, x')) = mset (answered (env, r, x)) + mset (logged (Turn srv (env, r, x)))"
proof -
  have "job_records_ok (env, r, x')
      \<and> mset (answered (env, r, x')) = mset (answered (env, r, x)) + mset (logged (Turn srv (env, r, x)))"
  proof (cases x)
    case (Serving t k)
    then have "x' = Serving t (fst (work_step (chat_api srv) env r t k st))" using assms(2) by (auto split: prod.splits)
    then show ?thesis using work_records(1) [of env t k "chat_api srv" r st]
        work_records(2) [of env t k "chat_api srv" r st srv] assms(1) Serving by simp
  qed (use assms in \<open>auto split: prod.splits sum.splits option.splits if_splits\<close>)
  then show "job_records_ok (env, r, x')"
    and "mset (answered (env, r, x')) = mset (answered (env, r, x)) + mset (logged (Turn srv (env, r, x)))"
    by simp_all
qed

definition answers :: "'w job list \<Rightarrow> (string \<times> bytes) multiset" where
  "answers js = mset (concat (map answered js))"

definition records :: "('c, 'd, 'k, 'w, 'a) live_event list \<Rightarrow> (string \<times> bytes) multiset" where
  "records tr = mset (concat (map logged tr))"

lemma answers_jobs: "answers js = (\<Sum>j \<in># mset js. mset (answered j))"
  by (induction js) (simp_all add: answers_def)

lemma live_records:
  assumes "live_run (js0, s0) tr (js, s)" "list_all (\<lambda>(env, r, x). x = Arrived) js0"
  shows "list_all job_records_ok js \<and> answers js = records tr"
  using assms(1)
proof (induction rule: live_run_induct)
  case start
  have "list_all job_records_ok js0" "\<forall>j \<in> set js0. answered j = []" using assms(2) by (auto simp: list_all_iff)
  then show ?case by (simp add: answers_def records_def)
next
  case (turn tr js s srv env r x x' st' M js')
  note swap = jobs_swapped(1,2) [OF turn.hyps(4,5), of job_records_ok]
  have ok: "job_records_ok (env, r, x)" using turn.IH swap(1) by blast
  note a = advance_records [OF ok turn.hyps(3)]
  have "answers js' = answers js + mset (logged (Turn srv (env, r, x)))"
    by (simp only: answers_jobs turn.hyps(4,5) image_mset_add_mset sum_mset.add_mset a(2) ac_simps)
  then show ?case using turn.IH swap a(1) by (simp add: records_def)
next
  case (arrival tr js s env r)
  then show ?case by (simp add: answers_def records_def)
next
  case (aside tr js s srv ev)
  then show ?case by (simp add: records_def)
qed

text \<open>The logger has seen the calls of the run, in its order.\<close>

fun log_call :: "('c, 'd, 'k, 'w, 'a) live_event \<Rightarrow> 'k \<Rightarrow> 'k" where
  "log_call (Turn srv (env, r, Serving t (Emitting ev k))) l = snd (gw_Log (chat_api srv) ev l)"
| "log_call (Turn srv (env, r, Serving t (Broadcasting ev k))) l = snd (gw_Broadcast (chat_api srv) ev l)"
| "log_call e l = l"

lemma work_log:
  "log_st (snd (work_step (chat_api srv) env r t k st)) = log_call (Turn srv (env, r, Serving t k)) (log_st st)"
  by (cases "(chat_api srv, env, r, t, k, st)" rule: work_step.cases)
    (auto simp: Let_def split: prod.split sum.split option.split)

lemma advance_log:
  "advance (chat_api srv) env r x st = (x', st') \<Longrightarrow> log_st st' = log_call (Turn srv (env, r, x)) (log_st st)"
proof (cases x)
  case (Serving t k)
  assume "advance (chat_api srv) env r x st = (x', st')"
  then show ?thesis using work_log [of srv env r t k st] Serving by (auto split: prod.splits)
qed (auto split: prod.splits sum.splits option.splits if_splits)

lemma live_log:
  "live_run (js0, s0) tr (js, s) \<Longrightarrow> log_st (chat_st s) = fold log_call tr (log_st (chat_st s0))"
proof (induction rule: live_run_induct)
  case (turn tr js s srv env r x x' st' M js')
  then show ?case using advance_log [OF turn.hyps(3)] by simp
next
  case (aside tr js s srv ev)
  then show ?case
    by (cases ev rule: beside_handlers.cases) (simp_all add: server_step_def serve_call_def after_admin_def split: prod.split)
qed simp_all

text \<open>A record handed to the logger is that of an answer or has no cost.\<close>

lemma job_emits:
  assumes "job_records_ok (env, r, Serving t (Emitting ev k))"
  shows "CostCents ev = 0 \<or> (\<exists>req resp name. k = Storing req resp
    \<and> ev = sync_event t name resp (time_Sub (at_reply env) (at_start env)) (at_log env))"
  using assms by (cases k) auto

lemma live_emitted:
  assumes "live_run (js0, s0) tr (js, s)" "list_all (\<lambda>(env, r, x). x = Arrived) js0"
    and "Turn srv (env, r, Serving t (Emitting ev k)) \<in> set tr"
  shows "CostCents ev = 0 \<or> (\<exists>req resp name. k = Storing req resp
    \<and> ev = sync_event t name resp (time_Sub (at_reply env) (at_start env)) (at_log env))"
  using assms(1,3)
proof (induction rule: live_run_induct)
  case (turn tr js s srv' env' r' x x' st' M js')
  have "job_records_ok (env', r', x)"
    using live_records [OF turn.hyps(1) assms(2)] jobs_swapped(1) [OF turn.hyps(4,5), of job_records_ok] by blast
  with turn.prems turn.IH job_emits [of env r t ev k] show ?case by auto
qed simp_all

text \<open>A pool of handlers is a live server on which nothing else happens.\<close>

lemma pool_live:
  assumes "pool_run (chat_api srv) (js0, chat_st s0) tr (js, st)"
  shows "live_run (js0, s0) (map (Turn srv) tr) (js, s0\<lparr>chat_st := st\<rparr>)"
  using assms
proof (induction tr "(js, st)" arbitrary: js st rule: pool_run.induct)
  case start
  then show ?case using live_run.start [of "(js0, s0)"] by simp
next
  case (next_turn tr Q job)
  obtain js1 st1 where Q: "Q = (js1, st1)" by fastforce
  from next_turn(3) [unfolded Q] show ?case
  proof cases
    case (turn i env r x x')
    then have "live_step (Turn srv (env, r, x)) (js1, s0\<lparr>chat_st := st1\<rparr>)
        (js1[i := (env, r, x')], s0\<lparr>chat_st := st1, chat_st := st\<rparr>)"
      by (intro live_step.turn) simp_all
    then show ?thesis using live_run.next_event [OF next_turn(2) [OF Q]] turn by simp
  qed
qed

end
