(* ===== verification/Live_Server_Properties.thy ===== *)
theory Live_Server_Properties
  imports Live_Server Server_Properties Handlers_Properties
begin

text \<open>The properties of the running server whose requests overlap.\<close>

section \<open>Authentication\<close>

text \<open>
  C10: keys are checked however requests overlap and whatever happens beside them: in any run
  of the live server, with requests arriving at any time, the steps of their handlers
  interleaved with each other, with admin calls of any bodies and with charges of the budget
  processor, under any faults of the connections, cache and database stay authentic, a handler
  past the lookup serves the tenant whose hash is the SHA-256 of the key its own request sent,
  and every other handler that ended has answered 401.
\<close>
theorem live_requests_authenticated:
  assumes "live_run (js0, s0) tr (js, s)" and "list_all (parts_ok holds db_inv) tr"
    and "authentic_state holds db_inv (chat_st s0)" and "list_all (\<lambda>(env, r, x). x = Arrived) js0"
    and "(env, r, x) \<in> set js"
  shows "authentic_state holds db_inv (chat_st s)
    \<and> (case x of
          Serving t k \<Rightarrow> APIKeyHash t = key_hash (api_key r) \<and> tenant_valid t
        | _ \<Rightarrow> (\<forall>out. outcome_of x = Some out \<longrightarrow> (\<exists>m. out = Return (http_Error m 401 no_response))))"
proof -
  have "list_all (\<lambda>(env, r, x). stage_ok r x) js0" using assms(4) by (auto simp: list_all_iff)
  from live_authentic [OF assms(1-3) this] have
    "authentic_state holds db_inv (chat_st s)" "stage_ok r x" using assms(5) by (auto simp: list_all_iff)
  then show ?thesis by (cases x) auto
qed

text \<open>
  A run in which a tenant is created and charged while one request is on its way and another
  arrives.
\<close>

definition create_call :: server_event where
  "create_call = Call (Administer 0 \<lparr>admin_token = ''s3cret'', token_param = [], admin_call = CreateTenantCall example_body\<rparr>)"

definition busy_events :: "(MemoryCache, tenants_table, LogEvent list, nat, unit) live_event list" where
  "busy_events = [Turn example_server (hello_env, hello_request, Arrived), Aside example_server create_call,
     Arrival hello_env merged_request, Aside example_server (Charge ''5e1f'' 10),
     Turn example_server (hello_env, hello_request, Missed)]"

lemma hello_missed: "advance hello_gateway hello_env hello_request Arrived hello_state = (Missed, hello_state)"
  by (simp add: hello_keys hello_gateway_def gateway_over_def memory_cache_def memory_Get_def hello_state_def NewMemoryCache_def)

lemma busy_run:
  obtains x s where "live_run ([(hello_env, hello_request, Arrived)], example_state) busy_events
    ([(hello_env, hello_request, x), (hello_env, merged_request, Arrived)], s)"
proof -
  let ?j = "\<lambda>x. (hello_env, hello_request, x)" and ?new = "(hello_env, merged_request, Arrived)"
  let ?s1 = "server_step example_server create_call example_state"
  let ?s2 = "server_step example_server (Charge ''5e1f'' 10) ?s1"
  have c: "\<not> crashed [?j Arrived]" "\<not> crashed [?j Missed]" "\<not> crashed [?j Missed, ?new]" by (simp_all add: crashed_def)
  obtain x st where a: "advance (chat_api example_server) hello_env hello_request Missed (chat_st ?s2) = (x, st)" by fastforce
  have m: "advance (chat_api example_server) hello_env hello_request Arrived (chat_st example_state) = (Missed, hello_state)"
    using hello_missed by (simp add: example_chat example_state_def)
  have e: "example_state\<lparr>chat_st := hello_state\<rparr> = example_state" by (simp add: example_state_def)
  have "live_step (Turn example_server (?j Arrived)) ([?j Arrived], example_state) ([?j Missed], example_state)"
    using live_step.turn [OF c(1), of 0 hello_env hello_request Arrived example_server example_state, OF _ _ _ m] by (simp add: e)
  moreover have "live_step (Aside example_server create_call) ([?j Missed], example_state) ([?j Missed], ?s1)"
    by (intro live_step.aside c) (simp add: create_call_def)
  moreover have "live_step (Arrival hello_env merged_request) ([?j Missed], ?s1) ([?j Missed, ?new], ?s1)"
    using live_step.arrival [OF c(2)] by simp
  moreover have "live_step (Aside example_server (Charge ''5e1f'' 10)) ([?j Missed, ?new], ?s1) ([?j Missed, ?new], ?s2)"
    by (intro live_step.aside c) simp
  moreover have "live_step (Turn example_server (?j Missed)) ([?j Missed, ?new], ?s2) ([?j x, ?new], ?s2\<lparr>chat_st := st\<rparr>)"
    using live_step.turn [OF c(3), of 0 hello_env hello_request Missed example_server ?s2, OF _ _ _ a] by simp
  ultimately have "live_run ([?j Arrived], example_state) busy_events ([?j x, ?new], ?s2\<lparr>chat_st := st\<rparr>)"
    using live_run.next_event [OF live_run.next_event [OF live_run.next_event [OF live_run.next_event
      [OF live_run.next_event [OF live_run.start]]]]] unfolding busy_events_def by fastforce
  then show thesis by (rule that)
qed

theorem live_requests_authenticated_witness:
  "\<exists>x s. live_run ([(hello_env, hello_request, Arrived)], example_state) busy_events
      ([(hello_env, hello_request, x), (hello_env, merged_request, Arrived)], s)
    \<and> authentic_state (\<lambda>m k v. data m k = Some v) table_valid (chat_st s)
    \<and> (\<forall>t k. x = Serving t k \<longrightarrow> APIKeyHash t = seed_hash)"
proof -
  obtain x s where r: "live_run ([(hello_env, hello_request, Arrived)], example_state) busy_events
    ([(hello_env, hello_request, x), (hello_env, merged_request, Arrived)], s)" by (rule busy_run)
  have p: "list_all (parts_ok (\<lambda>m k v. data m k = Some v) table_valid) busy_events"
    by (simp add: busy_events_def example_server_env)
  have a: "authentic_state (\<lambda>m k v. data m k = Some v) table_valid (chat_st example_state)"
    using hello_authentic by (simp add: example_state_def)
  have "list_all (\<lambda>(env, r, x). x = Arrived) [(hello_env, hello_request, Arrived)]"
    "(hello_env, hello_request, x) \<in> set [(hello_env, hello_request, x), (hello_env, merged_request, Arrived)]" by simp_all
  note l = live_requests_authenticated [OF r p a this]
  have "APIKeyHash t = seed_hash" if "x = Serving t k" for t k using l that by (simp add: hello_keys seed_hash_key)
  with l r show ?thesis by blast
qed

section \<open>A provider failed by the operator\<close>



section \<open>Billing\<close>



end
