(* ===== verification/Spec2Isabelle.thy ===== *)
theory Spec2Isabelle
  imports Health_Monitor_Properties Rate_Limit_Properties Provider_Properties Resilient_Properties
    Selector_Properties Cache_Properties Budget_Properties Gateway_Properties Gateway_Traffic
    Multi_Logger_Properties Upstream_Properties Admin_Properties Server_Properties Simulator_Properties
    Program_Properties Deployment_Properties Handlers_Properties Live_Server_Properties
begin

text \<open>
  A model of Kenbun, a gateway in Go between the tenants of an organisation and several LLM
  providers, with the properties that make it correct and those that show where it is not.

  The program. A chat request comes to \<open>internal/router/handler.go\<close>, which finds the tenant of
  its API key in the cache or the database, checks the tenant's budget, draws on its rate
  limit, decodes the body, looks for an answer in the response cache, lets the selector choose
  a provider by the health monitor's latency averages, and sends the answer, whole or as a
  stream. It tells the monitor how the provider did and the logger what the request cost. The
  log goes through Kafka to the budget processor, which charges the tenants' accounts. An admin
  interface creates tenants, shows statistics and takes providers out of service.
  \<open>cmd/gateway/main.go\<close> puts the parts together.

  How Go is modelled. A byte string is a list of characters; a struct is a record, an interface
  a record of functions or a locale over them. An \<open>int\<close> is an integer of HOL with the
  reduction to 64 bits written out where it can overflow; a \<open>float64\<close> is a rational with
  infinities and NaN, rounded to nearest even after every operation (\<open>Float64\<close>). The sign of
  zero is left out. An error is the left side of a sum; a panic is a value of its own
  (\<open>outcome\<close>): \<open>Panic\<close> in the goroutine of the request, where the middleware recovers it, \<open>Crash\<close> in
  another one, where it ends the process. State is passed explicitly. What the outside contributes is an argument: each
  clock reading, the faults of a connection, the world in which a provider answers, the order in
  which a \<open>select\<close> or a \<open>range\<close> over a map sees things.

  The theories, by part.

  \<^item> \<open>Go_Prelude\<close>, \<open>Go_Time\<close>, \<open>Go_Strings\<close>, \<open>Float64\<close>, \<open>Sha256\<close>: integers, time, strings with
    UTF-8 and hexadecimal, binary64, the hash of the API keys.
  \<^item> \<open>Json\<close>, \<open>Json_Correct\<close>, \<open>Json_Struct\<close>, \<open>Json_Float\<close>, \<open>Json_Valid\<close>: \<open>encoding/json\<close> as the
    program uses it: the parser and the printer on bytes, the filling of structs by key with
    case folding, the shortest decimal of a float; what is printed reads back, and decoded
    strings are valid UTF-8. All functions terminate by a measure; seventeen digits are proved
    enough for a float.
  \<^item> \<open>Health_Interface\<close>, \<open>Health_Monitor\<close> (\<open>router.go\<close>): the states of a provider and
    \<open>EWMAMonitor\<close> with its two locks. The averages refine a recurrence in exact arithmetic, stay
    in their ranges, and interleaved calls have the averages of a serial order.
  \<^item> \<open>Rate_Limit\<close> (\<open>ratelimit.go\<close>): the token bucket in binary64 and a tick of the synchronisation
    with its Lua script and the ways the call of it can fail, which the code ignores. \<open>limiter\<close>
    is the interface.
  \<^item> \<open>Provider\<close>, \<open>Resilient\<close> (\<open>provider.go\<close>, \<open>resilient.go\<close>): the provider interface, the cost
    estimate, retries with timeouts and backoff; the loops terminate because the number of
    attempts is bounded.
  \<^item> \<open>Mock_Provider\<close>, \<open>Http_Providers\<close>, \<open>Sdk_Providers\<close> (\<open>mock.go\<close>, \<open>anthropic.go\<close>,
    \<open>ollama.go\<close>, \<open>openai.go\<close>, \<open>gemini.go\<close>): the providers over an HTTP client or an SDK.
  \<^item> \<open>Selector\<close> (\<open>selector.go\<close>): filtering, \<open>sort.Slice\<close> and the choice. The library sorts up to
    twelve elements by insertion, which is modelled; the sort above twelve is a parameter.
  \<^item> \<open>Cache\<close> (\<open>cache.go\<close>, \<open>memory.go\<close>): both caches. The locale \<open>byte_cache\<close> says what a hit
    means; the in-memory cache and, over honest libraries, the two-tier cache satisfy it.
  \<^item> \<open>Tenant_Store\<close>, \<open>Budget_Processor\<close> (\<open>db.go\<close>, \<open>processor.go\<close>): the table of tenants with its
    queries, and the loop that charges them as a step relation. \<open>spend_repository\<close> is the
    contract between the two.
  \<^item> \<open>Log_Event\<close>, \<open>Multi_Logger\<close> (\<open>logging.go\<close>): the log record, its JSON, Kafka and Redis.
  \<^item> \<open>Chat_Json\<close>, \<open>Gateway\<close> (\<open>handler.go\<close>): \<open>ServeHTTP\<close>, \<open>handleSync\<close> and \<open>handleStream\<close> with
    every exit. \<open>Gateway_Traffic\<close> runs it over many requests; \<open>Gateway_Billing\<close> relates the body
    a client gets to the record in the log. What a property of the cache's entries needs in
    order to survive a request is proved once (the \<open>guarded\<close> lemmas).
  \<^item> \<open>Handlers\<close>: \<open>handler.go\<close> once more, as a machine that touches one shared part in every step,
    and any number of them side by side. Alone a handler is \<open>ServeHTTP\<close>
    (lemma \<open>handler_steps_compose\<close>); together, in any interleaving, they keep authentication, the
    cache, the rate limit and a failed provider. \<open>Handlers_Correct\<close> has what each step keeps, over
    the pool as a multiset.
  \<^item> \<open>Analytics\<close>, \<open>Admin\<close> (\<open>clickhouse.go\<close>, \<open>admin.go\<close>): the dashboard's queries and the admin
    interface.
  \<^item> \<open>Config\<close>, \<open>Gateway_Main\<close>, \<open>Server\<close> (\<open>config.go\<close>, \<open>main.go\<close>): the configuration, how the parts
    are chosen, and the parts over the state they share; a request is one step here, so requests come one
    after the other. The locale \<open>server_env\<close> collects what
    cache, repository and both interfaces promise, and is interpreted on the server over
    PostgreSQL. The locales \<open>monitor_calls\<close> and \<open>monitor_property\<close> carry a property of the health
    monitor through every call of the server; well-formedness, being out of service and having
    no latency are instances.
  \<^item> \<open>Live_Server\<close> (\<open>main.go\<close>): the server whose requests overlap, as a step relation: a step of
    any handler, the arrival of a request, an admin call or a charge, each with the parts as they
    behave at that moment. Over all its runs keys are checked, every fresh answer is logged once
    with its cost, and a failed provider stays out of service.
  \<^item> \<open>Program\<close> (\<open>main.go\<close>, and the constructors of \<open>db.go\<close> and \<open>clickhouse.go\<close>): what is opened at
    the start and with which options, the middleware around the routes, the settings of the
    HTTP server and what is closed at the end. What a panic does is decided here.
  \<^item> \<open>Deployment\<close>: the system that runs, as a step relation: the server, the topic its logger
    writes to, and the budget processor that reads it, over one database. \<open>Deployment_Correct\<close>
    has the invariant of its state, proved in the locale \<open>deployed_cache\<close>, and
    \<open>Deployment_Billing\<close> the ledger: what the answers in a run were worth against what the
    processor has charged.
  \<^item> \<open>Simulator\<close> (\<open>scripts/simulate.go\<close>): the load generator, its requests and its loop.

  A theory \<open>X_Correct\<close> holds the lemmas of part \<open>X\<close>, a theory \<open>X_Properties\<close> its properties, each
  with a closed instance. The first properties are those of the whole: authentication, billing,
  the rate limit and the separation of tenants over any traffic, and the path of an answer's cost
  from the upstream's token counts to the tenant's account. The properties of \<open>Deployment_Properties\<close>
  compose all parts: over any run of the system tenants pay for the fresh answers they were sent,
  no more than that and, when nothing is lost on the way, no less than a cent per flush below it,
  both up to the rounding of binary64 sums.
  That of \<open>Program_Properties\<close> says which requests can end the process.

  Hypotheses on code that is not in the repository: the in-process cache answers values that were
  set and have not expired, Redis returns what was set within its time to live
  (\<open>honest_backend\<close>); a context's first event is one of those that can happen
  (\<open>possible_first\<close>); clock readings of a request are in order; a call of a provider returns,
  since its context has a deadline and the HTTP client and the SDKs heed it.

  More hypotheses, of the composed system: the broker gives the consumer group each message at
  most once, in any order (a step can only read a position that was not read before); a write
  appends its message or nothing (\<open>appends\<close>), and appends it when nothing is lost (\<open>reliable\<close>);
  the middleware of the library recovers panics and passes the rest through (\<open>middleware_laws\<close>);
  a provider's answer has token counts that are no negative numbers and a model name that is
  valid UTF-8 (\<open>honest_provider\<close>); the mocks and a missing Gemini client are proved to be so.

  Not modelled. The dashboard under \<open>ui\<close> is a client in another language, and the two SQL files
  are a schema, which the table of \<open>Tenant_Store\<close> follows in its columns, keys and first row. Of
  the Go code every function has a definition. What is a setting of a library is kept as the
  value that is passed to it: the pool of pgx, the options of ClickHouse, CORS and the timeouts
  of the HTTP server are records, and what the libraries do with them is not followed. The SQL
  aggregates of ClickHouse are answers of a parameter. Concurrency is modelled where it can
  matter: the two locks of a monitor call, the handlers of concurrent requests, and the budget
  processor beside the server. The lookups of one selection are one step of a handler, as is a
  call of a provider, whose world is a parameter. The way of the money from the topic to the
  account is followed over requests served one after the other, that of overlapping requests to
  the logger. What a streaming handler sees is a finite list of events, and a list that stops
  early stands for a client that leaves: a wait without end, of a provider that ignores its
  context for a client that never goes away, has no counterpart. The memory model of Go, goroutines that are never collected, and
  console output are left out.
\<close>

end
